(* ===== verification/Prelude.thy ===== *)
theory Prelude
  imports Main "HOL-Library.Sublist"
begin

text \<open>
  Shared base of the development: the Go values and the functions of Go's standard library
  that the packages under src/internal call. A Go \<^verbatim>\<open>string\<close> or \<^verbatim>\<open>[]byte\<close> is a \<^typ>\<open>string\<close>, a list
  of bytes; a Go \<^verbatim>\<open>error\<close> is the text its \<^verbatim>\<open>Error()\<close> returns, \<^verbatim>\<open>nil\<close> being \<open>None\<close>; Go's \<^verbatim>\<open>int\<close> and
  \<^verbatim>\<open>int64\<close> are integers with the 64-bit wrap-around written out.
  The theory also declares the collections that the component proofs share.
\<close>

named_theorems go_defs \<open>definitions of Go library functions, unfolded by component proofs\<close>
named_theorems frame_simps \<open>fields an operation leaves alone\<close>

type_synonym goerror = string

section \<open>Package strings (and bytes)\<close>

abbreviation HasPrefix :: "string \<Rightarrow> string \<Rightarrow> bool" where
  "HasPrefix s p \<equiv> prefix p s"

abbreviation HasSuffix :: "string \<Rightarrow> string \<Rightarrow> bool" where
  "HasSuffix s p \<equiv> suffix p s"

abbreviation Contains :: "string \<Rightarrow> string \<Rightarrow> bool" where
  "Contains s sub \<equiv> sublist sub s"

text \<open>\<open>Index\<close> and \<open>LastIndex\<close> for a one-byte separator; \<open>None\<close> is Go's \<open>-1\<close>.\<close>

fun Index :: "string \<Rightarrow> char \<Rightarrow> nat option" where
  "Index [] c = None"
| "Index (x # xs) c = (if x = c then Some 0 else map_option Suc (Index xs c))"

fun LastIndex :: "string \<Rightarrow> char \<Rightarrow> nat option" where
  "LastIndex [] c = None"
| "LastIndex (x # xs) c =
     (case LastIndex xs c of
        Some i \<Rightarrow> Some (Suc i)
      | None \<Rightarrow> (if x = c then Some 0 else None))"

definition TrimPrefix :: "string \<Rightarrow> string \<Rightarrow> string" where
  "TrimPrefix s p = (if HasPrefix s p then drop (length p) s else s)"

text \<open>
  \<open>ReplaceAll\<close> (of strings and of bytes) scans from the left and never rescans the
  replacement. Every call in the sources is guarded by a test that \<open>old\<close> is not empty, so the
  behaviour on an empty \<open>old\<close> is not part of the model.
\<close>

function ReplaceAll :: "string \<Rightarrow> string \<Rightarrow> string \<Rightarrow> string" where
  "ReplaceAll s old new =
     (if old = [] then s
      else if HasPrefix s old then new @ ReplaceAll (drop (length old) s) old new
      else (case s of [] \<Rightarrow> [] | c # cs \<Rightarrow> c # ReplaceAll cs old new))"
  by pat_completeness auto
termination
proof (relation "measure (\<lambda>(s, old, new). length s)", goal_cases)
  case 1
  then show ?case by simp
next
  case (2 s old new)
  then have "length old \<le> length s" "0 < length old"
    using prefix_length_le by auto
  then have "length s - length old < length s" by linarith
  then show ?case by simp
next
  case (3 s old new c cs)
  then show ?case by simp
qed

declare ReplaceAll.simps [simp del]

text \<open>
  \<open>EqualFold\<close> compares ASCII strings byte by byte with the letters folded. When a byte of
  either string is outside ASCII, Go folds by Unicode's simple case folding; that table is the
  parameter \<open>uf\<close>, so that every result below holds whatever it contains.
\<close>

definition ascii :: "string \<Rightarrow> bool" where
  "ascii s = list_all (\<lambda>c. of_char c < (128::nat)) s"

definition lower :: "char \<Rightarrow> char" where
  "lower c = (let n = (of_char c :: nat) in if 65 \<le> n \<and> n \<le> 90 then char_of (n + 32) else c)"

definition EqualFold :: "(string \<Rightarrow> string \<Rightarrow> bool) \<Rightarrow> string \<Rightarrow> string \<Rightarrow> bool" where
  "EqualFold uf s t =
     (if ascii s \<and> ascii t then map lower s = map lower t else uf s t)"

lemma EqualFold_refl [simp]: "ascii s \<Longrightarrow> EqualFold uf s s"
  by (simp add: EqualFold_def)

lemma Index_None [simp]: "Index s c = None \<longleftrightarrow> c \<notin> set s"
  by (induction s) auto

lemma LastIndex_None [simp]: "LastIndex s c = None \<longleftrightarrow> c \<notin> set s"
  by (induction s) (auto split: option.splits)

lemma LastIndex_append:
  "c \<notin> set ys \<Longrightarrow> LastIndex (xs @ c # ys) c = Some (length xs)"
  by (induction xs) (auto simp: option.case_eq_if)

lemma LastIndex_Some_split:
  "LastIndex s c = Some i \<Longrightarrow>
     i < length s \<and> s = take i s @ c # drop (Suc i) s \<and> c \<notin> set (drop (Suc i) s)"
proof (induction s arbitrary: i)
  case Nil
  then show ?case by simp
next
  case (Cons x xs)
  show ?case
  proof (cases "LastIndex xs c")
    case None
    with Cons.prems have "x = c" "i = 0" "c \<notin> set xs"
      using LastIndex_None by (auto split: if_splits)
    then show ?thesis by simp
  next
    case (Some j)
    then have "i = Suc j" using Cons.prems by simp
    with Cons.IH[OF Some] show ?thesis by simp
  qed
qed

lemma Index_Some_split:
  "Index s c = Some i \<Longrightarrow> i < length s \<and> s = take i s @ c # drop (Suc i) s \<and> c \<notin> set (take i s)"
  by (induction s arbitrary: i) (auto split: if_splits)

section \<open>Replacement\<close>

lemma ReplaceAll_Nil [simp]: "ReplaceAll [] old new = []"
  by (subst ReplaceAll.simps) simp

lemma ReplaceAll_hit:
  "old \<noteq> [] \<Longrightarrow> ReplaceAll (old @ s) old new = new @ ReplaceAll s old new"
  by (subst ReplaceAll.simps) simp

lemma ReplaceAll_miss:
  "\<not> prefix old (c # s) \<Longrightarrow> ReplaceAll (c # s) old new = c # ReplaceAll s old new"
  by (subst ReplaceAll.simps) auto

lemma ReplaceAll_id:
  "\<not> Contains s old \<Longrightarrow> ReplaceAll s old new = s"
proof (induction s)
  case Nil
  then show ?case by simp
next
  case (Cons c s)
  then show ?case
    by (simp add: ReplaceAll_miss sublist_Cons_right)
qed

text \<open>
  \<open>apart v new\<close>: no occurrence of \<open>v\<close> can overlap an inserted copy of \<open>new\<close>, so replacing
  some other text by \<open>new\<close> creates no occurrence of \<open>v\<close>.
\<close>

definition apart :: "string \<Rightarrow> string \<Rightarrow> bool" where
  "apart v new \<longleftrightarrow>
     new \<noteq> [] \<and> \<not> sublist v new \<and> \<not> sublist new v \<and>
     list_all (\<lambda>u. u = [] \<or> \<not> prefix u new) (suffixes v) \<and>
     list_all (\<lambda>u. u = [] \<or> \<not> suffix u new) (prefixes v)"

lemma apart_suffixD: "apart v new \<Longrightarrow> suffix u v \<Longrightarrow> prefix u new \<Longrightarrow> u = []"
  by (auto simp: apart_def list_all_iff)

lemma apart_prefixD: "apart v new \<Longrightarrow> prefix u v \<Longrightarrow> suffix u new \<Longrightarrow> u = []"
  by (auto simp: apart_def list_all_iff)

lemma prefix_ReplaceAll:
  "apart v new \<Longrightarrow> suffix u v \<Longrightarrow> prefix u (ReplaceAll s old new) \<Longrightarrow> prefix u s"
proof (induction s old new arbitrary: u rule: ReplaceAll.induct)
  case (1 s old new)
  show ?case
  proof (cases "old = []")
    case True
    then show ?thesis using "1.prems"(3) by (simp add: ReplaceAll.simps[of s])
  next
    case old: False
    show ?thesis
    proof (cases "prefix old s")
      case True
      then have "prefix u (new @ ReplaceAll (drop (length old) s) old new)"
        using "1.prems"(3) old by (simp add: ReplaceAll.simps[of s])
      then have "prefix u new \<or> prefix new u"
        using prefixI prefix_same_cases by blast
      moreover have "\<not> prefix new u"
        using "1.prems"(1,2) unfolding apart_def
        by (meson prefix_imp_sublist sublist_order.order_trans suffix_imp_sublist)
      ultimately show ?thesis
        using apart_suffixD "1.prems"(1,2) by fastforce
    next
      case miss: False
      show ?thesis
      proof (cases s)
        case Nil
        then show ?thesis using "1.prems"(3) by simp
      next
        case (Cons c cs)
        then have "prefix u (c # ReplaceAll cs old new)"
          using "1.prems"(3) miss by (simp add: ReplaceAll_miss)
        then consider "u = []" | u' where "u = c # u'" "prefix u' (ReplaceAll cs old new)"
          by (auto simp: prefix_Cons)
        then show ?thesis
        proof cases
          case 2
          then have "suffix u' v" using "1.prems"(2) by (metis suffix_ConsD)
          then have "prefix u' cs"
            using "1.IH"(2)[OF old miss Cons] "1.prems"(1) 2 by blast
          then show ?thesis using 2 Cons by simp
        qed simp
      qed
    qed
  qed
qed

lemma sublist_ReplaceAll:
  "apart v new \<Longrightarrow> sublist v (ReplaceAll s old new) \<Longrightarrow> sublist v s"
proof (induction s old new rule: ReplaceAll.induct)
  case (1 s old new)
  show ?case
  proof (cases "old = []")
    case True
    then show ?thesis using "1.prems"(2) by (simp add: ReplaceAll.simps[of s])
  next
    case old: False
    show ?thesis
    proof (cases "prefix old s")
      case True
      let ?X = "ReplaceAll (drop (length old) s) old new"
      have "sublist v (new @ ?X)"
        using "1.prems"(2) True old by (simp add: ReplaceAll.simps[of s])
      moreover have "\<not> sublist v new" using "1.prems"(1) by (simp add: apart_def)
      moreover have "sublist v ?X"
        if "v = v1 @ v2" "suffix v1 new" "prefix v2 ?X" for v1 v2
        using apart_prefixD[OF "1.prems"(1), of v1] that by (auto intro: prefix_imp_sublist)
      ultimately have "sublist v ?X" unfolding sublist_append by blast
      then have "sublist v (drop (length old) s)"
        using "1.IH"(1)[OF old True] "1.prems"(1) by blast
      then show ?thesis
        by (meson sublist_drop sublist_order.order_trans)
    next
      case miss: False
      show ?thesis
      proof (cases s)
        case Nil
        then show ?thesis using "1.prems"(2) by simp
      next
        case (Cons c cs)
        then have "sublist v (c # ReplaceAll cs old new)"
          using "1.prems"(2) miss by (simp add: ReplaceAll_miss)
        moreover have "prefix v s" if "prefix v (c # ReplaceAll cs old new)"
          using prefix_ReplaceAll[OF "1.prems"(1) suffix_order.order_refl, of s old] that miss Cons
          by (simp add: ReplaceAll_miss)
        ultimately show ?thesis
          using "1.IH"(2)[OF old miss Cons] "1.prems"(1) Cons
          by (auto simp: sublist_Cons_right)
      qed
    qed
  qed
qed

lemma ReplaceAll_eliminates:
  "old \<noteq> [] \<Longrightarrow> apart old new \<Longrightarrow> \<not> sublist old (ReplaceAll s old new)"
proof (induction s old new rule: ReplaceAll.induct)
  case (1 s old new)
  show ?case
  proof (cases "prefix old s")
    case True
    let ?X = "ReplaceAll (drop (length old) s) old new"
    have "\<not> sublist old ?X" using 1 True by blast
    moreover have "\<not> sublist old new" using "1.prems" by (simp add: apart_def)
    moreover have "sublist old ?X" if "old = v1 @ v2" "suffix v1 new" "prefix v2 ?X" for v1 v2
      using apart_prefixD[OF "1.prems"(2), of v1] that by (auto intro: prefix_imp_sublist)
    ultimately have "\<not> sublist old (new @ ?X)" unfolding sublist_append by blast
    then show ?thesis
      using "1.prems"(1) True by (simp add: ReplaceAll.simps[of s])
  next
    case miss: False
    show ?thesis
    proof (cases s)
      case Nil
      then show ?thesis using "1.prems"(1) by simp
    next
      case (Cons c cs)
      have "\<not> prefix old (c # ReplaceAll cs old new)"
        using prefix_ReplaceAll[OF "1.prems"(2) suffix_order.order_refl, of s old] miss Cons
        by (auto simp: ReplaceAll_miss)
      then show ?thesis
        using "1.IH"(2)[OF "1.prems"(1) miss Cons] "1.prems" miss Cons
        by (simp add: ReplaceAll_miss sublist_Cons_right)
    qed
  qed
qed

end
