(* ===== verification/GoFmt.thy ===== *)
theory GoFmt
  imports Prelude
begin

text \<open>
  The parts of Go's package fmt the sources use: the decimal verb of \<^verbatim>\<open>Sprintf\<close> and
  \<^verbatim>\<open>Sscanf(s, "rule-%d", &num)\<close>, with 64-bit integers. The scanner follows fmt's: the literal
  must match byte for byte, blanks before the number are skipped (fmt's own table of blanks, a
  newline being an error), a sign is accepted, the digits are read greedily, a number outside
  64 bits is an error and what follows the digits is ignored.
  The result of the theory is the round trip: scanning a printed rule id gives the number back.
\<close>

section \<open>64-bit integers\<close>

definition int64 :: "int \<Rightarrow> int" where
  "int64 x = (x + 2 ^ 63) mod 2 ^ 64 - 2 ^ 63"

definition is_int64 :: "int \<Rightarrow> bool" where
  "is_int64 x \<longleftrightarrow> - (2 ^ 63) \<le> x \<and> x < 2 ^ 63"

lemma int64_range [simp]: "is_int64 (int64 x)"
  by (simp add: is_int64_def int64_def)

lemma int64_id: "is_int64 x \<Longrightarrow> int64 x = x"
  by (simp add: is_int64_def int64_def)

lemma int64_succ: "is_int64 x \<Longrightarrow> x \<noteq> 2 ^ 63 - 1 \<Longrightarrow> int64 (x + 1) = x + 1"
  by (simp add: is_int64_def int64_def)

section \<open>Printing\<close>

definition digit :: "nat \<Rightarrow> char" where
  "digit d = ''0123456789'' ! d"

definition digit_val :: "char \<Rightarrow> nat option" where
  "digit_val c = Index ''0123456789'' c"

definition is_digit :: "char \<Rightarrow> bool" where
  "is_digit c = List.member ''0123456789'' c"

fun nat_dec :: "nat \<Rightarrow> string" where
  "nat_dec n = (if n < 10 then [digit n] else nat_dec (n div 10) @ [digit (n mod 10)])"

declare nat_dec.simps [simp del]

definition itoa :: "int \<Rightarrow> string" where
  "itoa n = (if n < 0 then ''-'' @ nat_dec (nat (- n)) else nat_dec (nat n))"

section \<open>Scanning\<close>

definition blanks :: "string list" where
  "blanks =
     [[CHR 0x09], [CHR 0x0B], [CHR 0x0C], [CHR 0x0D], [CHR 0x20],
      [CHR 0xC2, CHR 0x85], [CHR 0xC2, CHR 0xA0], [CHR 0xE1, CHR 0x9A, CHR 0x80],
      [CHR 0xE2, CHR 0x80, CHR 0x80], [CHR 0xE2, CHR 0x80, CHR 0x81],
      [CHR 0xE2, CHR 0x80, CHR 0x82], [CHR 0xE2, CHR 0x80, CHR 0x83],
      [CHR 0xE2, CHR 0x80, CHR 0x84], [CHR 0xE2, CHR 0x80, CHR 0x85],
      [CHR 0xE2, CHR 0x80, CHR 0x86], [CHR 0xE2, CHR 0x80, CHR 0x87],
      [CHR 0xE2, CHR 0x80, CHR 0x88], [CHR 0xE2, CHR 0x80, CHR 0x89],
      [CHR 0xE2, CHR 0x80, CHR 0x8A], [CHR 0xE2, CHR 0x80, CHR 0xA8],
      [CHR 0xE2, CHR 0x80, CHR 0xA9], [CHR 0xE2, CHR 0x80, CHR 0xAF],
      [CHR 0xE2, CHR 0x81, CHR 0x9F], [CHR 0xE3, CHR 0x80, CHR 0x80]]"

lemma find_blank_not_Nil: "find (\<lambda>b. prefix b s) blanks = Some b \<Longrightarrow> b \<noteq> []"
  by (auto simp: blanks_def split: if_splits)

function SkipSpace :: "string \<Rightarrow> string option" where
  "SkipSpace s =
     (if s = [] then Some []
      else if hd s = CHR 0x0A then None
      else (case find (\<lambda>b. prefix b s) blanks of
              None \<Rightarrow> Some s
            | Some b \<Rightarrow> SkipSpace (drop (length b) s)))"
  by pat_completeness auto
termination
proof (relation "measure length", goal_cases)
  case 1
  then show ?case by simp
next
  case (2 s b)
  then have "0 < length b" "0 < length s" using find_blank_not_Nil by auto
  then have "length s - length b < length s" by linarith
  then show ?case by simp
qed

declare SkipSpace.simps [simp del]

definition scan_sign :: "string \<Rightarrow> bool \<times> string" where
  "scan_sign t =
     (case t of
        [] \<Rightarrow> (False, [])
      | c # cs \<Rightarrow>
          (if c = CHR ''-'' then (True, cs) else if c = CHR ''+'' then (False, cs) else (False, t)))"

definition digits_val :: "string \<Rightarrow> nat" where
  "digits_val ds = foldl (\<lambda>a c. 10 * a + the (digit_val c)) 0 ds"

definition Sscanf_d :: "string \<Rightarrow> int option" where
  "Sscanf_d s =
     (case SkipSpace s of
        None \<Rightarrow> None
      | Some t \<Rightarrow>
          (let (neg, u) = scan_sign t;
               tok = takeWhile is_digit u;
               v = (if neg then - int (digits_val tok) else int (digits_val tok))
           in if tok = [] \<or> \<not> is_int64 v then None else Some v))"

definition Sscanf_rule :: "string \<Rightarrow> int option" where
  "Sscanf_rule s = (if HasPrefix s ''rule-'' then Sscanf_d (drop 5 s) else None)"

section \<open>The round trip\<close>

lemma digit_val_digit [simp]: "d < 10 \<Longrightarrow> digit_val (digit d) = Some d"
  by (simp add: digit_val_def digit_def less_Suc_eq numeral_eq_Suc) (elim disjE; simp)

lemma is_digit_digit [simp]: "d < 10 \<Longrightarrow> is_digit (digit d)"
  by (simp add: is_digit_def digit_def less_Suc_eq numeral_eq_Suc) (elim disjE; simp)

lemma nat_dec_digits: "\<forall>c \<in> set (nat_dec n). is_digit c"
proof (induction n rule: nat_dec.induct)
  case (1 n)
  then show ?case
    by (subst nat_dec.simps) auto
qed

lemma nat_dec_not_Nil [simp]: "nat_dec n \<noteq> []"
  by (subst nat_dec.simps) simp

lemma digits_val_nat_dec [simp]: "digits_val (nat_dec n) = n"
proof (induction n rule: nat_dec.induct)
  case (1 n)
  then show ?case
    by (subst nat_dec.simps) (simp add: digits_val_def)
qed

lemma nat_dec_inject [simp]: "nat_dec m = nat_dec n \<longleftrightarrow> m = n"
  by (metis digits_val_nat_dec)

lemma takeWhile_nat_dec [simp]: "takeWhile is_digit (nat_dec n) = nat_dec n"
  using nat_dec_digits by (simp add: takeWhile_eq_all_conv)

lemma blank_heads: "list_all (\<lambda>b. b \<noteq> [] \<and> hd b \<noteq> CHR ''-'' \<and> \<not> is_digit (hd b)) blanks"
  by (simp add: blanks_def is_digit_def)

lemma SkipSpace_printable:
  assumes "c = CHR ''-'' \<or> is_digit c"
  shows "SkipSpace (c # s) = Some (c # s)"
proof -
  have "find (\<lambda>b. prefix b (c # s)) blanks = None"
    using assms blank_heads by (auto simp: find_None_iff list_all_iff neq_Nil_conv prefix_Cons)
  moreover have "c \<noteq> CHR 0x0A" using assms by (auto simp: is_digit_def)
  ultimately show ?thesis by (subst SkipSpace.simps) simp
qed

lemma nat_dec_Cons: "\<exists>c cs. nat_dec n = c # cs \<and> is_digit c"
  using nat_dec_digits[of n] by (cases "nat_dec n") auto

lemma SkipSpace_itoa [simp]: "SkipSpace (itoa n) = Some (itoa n)"
  using nat_dec_Cons[of "nat n"] by (auto simp: itoa_def SkipSpace_printable)

lemma scan_sign_nat_dec: "scan_sign (nat_dec n) = (False, nat_dec n)"
  using nat_dec_Cons[of n] by (auto simp: scan_sign_def is_digit_def)

lemma scan_sign_itoa: "scan_sign (itoa n) = (n < 0, nat_dec (nat \<bar>n\<bar>))"
proof (cases "n < 0")
  case True
  then show ?thesis by (simp add: itoa_def scan_sign_def)
next
  case False
  then show ?thesis by (simp add: itoa_def scan_sign_nat_dec)
qed

lemma Sscanf_d_itoa: "is_int64 n \<Longrightarrow> Sscanf_d (itoa n) = Some n"
  by (auto simp: Sscanf_d_def scan_sign_itoa Let_def)

lemma Sscanf_rule_itoa: "is_int64 n \<Longrightarrow> Sscanf_rule (''rule-'' @ itoa n) = Some n"
  by (simp add: Sscanf_rule_def Sscanf_d_itoa)

lemma itoa_inject: "itoa m = itoa n \<longleftrightarrow> m = n"
proof
  assume "itoa m = itoa n"
  then have "(m < 0, nat_dec (nat \<bar>m\<bar>)) = (n < 0, nat_dec (nat \<bar>n\<bar>))"
    using scan_sign_itoa by metis
  then show "m = n" by (auto simp: abs_if split: if_splits)
qed simp

end
