(* ===== verification/GoOS.thy ===== *)
theory GoOS
  imports GoFmt
begin

text \<open>
  The operating system as the sources see it, and Go's package path/filepath. The operating
  system is a parameter of every definition that reads the environment or touches files: a
  record of functions over a world of any type \<open>'w\<close>. Nothing is assumed of it. Paths are
  computed by Go's lexical rules, which are modelled (\<open>Clean\<close>, \<open>Join\<close>, \<open>Dir\<close> on Unix).
\<close>

record 'w os =
  UserHomeDir :: "goerror + string"
  Getenv :: "string \<Rightarrow> string"
  Getuid :: int
  MkdirAll :: "string \<Rightarrow> nat \<Rightarrow> 'w \<Rightarrow> goerror option \<times> 'w"
  WriteFile :: "string \<Rightarrow> string \<Rightarrow> nat \<Rightarrow> 'w \<Rightarrow> goerror option \<times> 'w"
  ReadFile :: "string \<Rightarrow> 'w \<Rightarrow> goerror + string"
  Remove :: "string \<Rightarrow> 'w \<Rightarrow> goerror option \<times> 'w"
  Chmod :: "string \<Rightarrow> nat \<Rightarrow> 'w \<Rightarrow> goerror option \<times> 'w"
  Stat_is_socket :: "string \<Rightarrow> 'w \<Rightarrow> bool"

text \<open>File modes; Go writes them in octal.\<close>

abbreviation (input) mode_0600 :: nat where "mode_0600 \<equiv> 384"
abbreviation (input) mode_0644 :: nat where "mode_0644 \<equiv> 420"
abbreviation (input) mode_0660 :: nat where "mode_0660 \<equiv> 432"
abbreviation (input) mode_0700 :: nat where "mode_0700 \<equiv> 448"
abbreviation (input) mode_0755 :: nat where "mode_0755 \<equiv> 493"

section \<open>Package path/filepath\<close>

fun split_slash :: "string \<Rightarrow> string list" where
  "split_slash [] = [[]]"
| "split_slash (c # s) =
     (if c = CHR ''/'' then [] # split_slash s
      else (case split_slash s of [] \<Rightarrow> [[c]] | e # es \<Rightarrow> (c # e) # es))"

fun join_with :: "string \<Rightarrow> string list \<Rightarrow> string" where
  "join_with sep [] = []"
| "join_with sep [e] = e"
| "join_with sep (e # es) = e @ sep @ join_with sep es"

text \<open>The elements of a path after lexical cleaning, newest first in the accumulator.\<close>

fun clean_elems :: "bool \<Rightarrow> string list \<Rightarrow> string list \<Rightarrow> string list" where
  "clean_elems rooted acc [] = rev acc"
| "clean_elems rooted acc (e # es) =
     (if e = [] \<or> e = ''.'' then clean_elems rooted acc es
      else if e = ''..'' then
        (case acc of
           [] \<Rightarrow> clean_elems rooted (if rooted then [] else [''..'']) es
         | a # as \<Rightarrow> clean_elems rooted (if a = ''..'' then e # acc else as) es)
      else clean_elems rooted (e # acc) es)"

definition Clean :: "string \<Rightarrow> string" where
  "Clean p =
     (let rooted = HasPrefix p ''/'';
          body = join_with ''/'' (clean_elems rooted [] (split_slash p))
      in if rooted then ''/'' @ body else if body = [] then ''.'' else body)"

definition Join :: "string list \<Rightarrow> string" where
  "Join elem =
     (let rest = dropWhile (\<lambda>e. e = []) elem
      in if rest = [] then [] else Clean (join_with ''/'' rest))"

definition Dir :: "string \<Rightarrow> string" where
  "Dir p = Clean (case LastIndex p (CHR ''/'') of None \<Rightarrow> [] | Some i \<Rightarrow> take (Suc i) p)"

lemma split_slash_not_Nil [simp]: "split_slash s \<noteq> []"
  by (induction s) (auto split: list.splits)

text \<open>
  A file system held in a map: one instance of the parameter, at which the properties of the
  components are also stated for concrete inputs.
\<close>

definition mem_os :: "(string \<Rightarrow> string option) os" where
  "mem_os =
     \<lparr>UserHomeDir = Inr ''/root'', Getenv = (\<lambda>_. []), Getuid = 0,
      MkdirAll = (\<lambda>_ _ w. (None, w)),
      WriteFile = (\<lambda>p data _ w. (None, w(p \<mapsto> data))),
      ReadFile = (\<lambda>p w. case w p of None \<Rightarrow> Inl ''no such file'' | Some data \<Rightarrow> Inr data),
      Remove = (\<lambda>p w. (None, w(p := None))), Chmod = (\<lambda>_ _ w. (None, w)),
      Stat_is_socket = (\<lambda>_ _. False)\<rparr>"

end
