(* ===== verification/Policy.thy ===== *)
theory Policy
  imports GoOS
begin

text \<open>
  src/internal/policy/policy.go: the rule engine. \<open>Rule\<close> and \<open>Engine\<close> are the two structs,
  and each method of \<open>Engine\<close> is a definition that takes the engine (and the world, where it
  saves the rules) and returns the new ones. The mutex serialises the methods, so each is one
  atomic step. \<open>jm\<close> is \<^verbatim>\<open>json.MarshalIndent\<close> on a rule list, \<open>uf\<close> the Unicode part of
  \<^verbatim>\<open>strings.EqualFold\<close>, \<open>osx\<close> the operating system.

  The lemmas give: which hosts a pattern matches; the decision as that of the best rank among
  the applicable rules (an abstract specification with a linear order on ranks); which rule is
  reported; that rules scoped to another sandbox have no influence; and the id discipline of the
  store (fresh ids, removal, the round trip of adding and removing).
\<close>

section \<open>Data\<close>

datatype Decision = DecisionAllow | DecisionDeny

record Rule =
  r_ID :: string
  r_Name :: string
  r_Decision :: string
  r_Resources :: "string list"
  r_Scope :: string

record Engine =
  e_rules :: "Rule list"
  e_nextID :: int
  e_policyPath :: string
  e_defaultMode :: string

type_synonym rules_json = "Rule list \<Rightarrow> goerror + string"
type_synonym unifold = "string \<Rightarrow> string \<Rightarrow> bool"

section \<open>Operations\<close>

definition defaultRules :: "Rule list" where
  "defaultRules =
     [\<lparr>r_ID = ''default-deny-all-https'', r_Name = ''deny-all-https'', r_Decision = ''deny'',
       r_Resources = [''*:443''], r_Scope = []\<rparr>,
      \<lparr>r_ID = ''default-deny-all-http'', r_Name = ''deny-all-http'', r_Decision = ''deny'',
       r_Resources = [''*:80''], r_Scope = []\<rparr>]"

definition save :: "'w os \<Rightarrow> rules_json \<Rightarrow> Engine \<Rightarrow> 'w \<Rightarrow> goerror option \<times> 'w" where
  "save osx jm pe w =
     (case jm (e_rules pe) of
        Inl e \<Rightarrow> (Some e, w)
      | Inr data \<Rightarrow> WriteFile osx (e_policyPath pe) data mode_0644 w)"

definition newEngine_at :: "'w os \<Rightarrow> rules_json \<Rightarrow> string \<Rightarrow> 'w \<Rightarrow> (goerror + Engine) \<times> 'w" where
  "newEngine_at osx jm policyDir w =
     (case MkdirAll osx policyDir mode_0700 w of
        (Some e, w1) \<Rightarrow> (Inl (''create policy dir: '' @ e), w1)
      | (None, w1) \<Rightarrow>
          (let pe = \<lparr>e_rules = defaultRules, e_nextID = int (length defaultRules) + 1,
                     e_policyPath = Join [policyDir, ''rules.json''],
                     e_defaultMode = ''balanced''\<rparr>
           in (Inr pe, snd (save osx jm pe w1))))"

definition NewEngine :: "'w os \<Rightarrow> rules_json \<Rightarrow> string \<Rightarrow> 'w \<Rightarrow> (goerror + Engine) \<times> 'w" where
  "NewEngine osx jm policyDir w =
     (if policyDir = [] then
        (case UserHomeDir osx of
           Inl e \<Rightarrow> (Inl (''get home dir: '' @ e), w)
         | Inr home \<Rightarrow>
             newEngine_at osx jm (Join [home, ''.config'', ''sbxsandbox'', ''policy'']) w)
      else newEngine_at osx jm policyDir w)"

text \<open>\<open>LoadRules\<close> looks for the highest number among the ids of the form \<^verbatim>\<open>rule-%d\<close>.\<close>

definition max_id :: "Rule list \<Rightarrow> int" where
  "max_id rs =
     foldl (\<lambda>m r. case Sscanf_rule (r_ID r) of
                    Some num \<Rightarrow> (if num > m then num else m)
                  | None \<Rightarrow> m) 0 rs"

definition LoadRules ::
  "'w os \<Rightarrow> rules_json \<Rightarrow> Rule list \<Rightarrow> Engine \<Rightarrow> 'w \<Rightarrow> Engine \<times> 'w" where
  "LoadRules osx jm rs pe w =
     (let pe1 = pe\<lparr>e_rules := rs, e_nextID := int64 (max_id rs + 1)\<rparr>
      in (pe1, snd (save osx jm pe1 w)))"

definition isWildcardPattern :: "string \<Rightarrow> bool" where
  "isWildcardPattern pattern \<longleftrightarrow> Contains pattern ''*'' \<or> Contains pattern ''**''"

text \<open>\<open>None\<close> is the error return; no caller looks at its text.\<close>

definition netSplitHostPort :: "string \<Rightarrow> (string \<times> string) option" where
  "netSplitHostPort hostPort =
     (case LastIndex hostPort (CHR '':'') of
        Some idx \<Rightarrow> Some (take idx hostPort, drop (idx + 1) hostPort)
      | None \<Rightarrow> None)"

definition matchHostPort :: "unifold \<Rightarrow> string \<Rightarrow> string \<Rightarrow> bool" where
  "matchHostPort uf target pattern =
     (if pattern = ''*:*'' \<or> pattern = ''**'' then True
      else (case netSplitHostPort target of
        None \<Rightarrow> False
      | Some (targetHost, targetPort) \<Rightarrow>
          (case netSplitHostPort pattern of
             None \<Rightarrow> False
           | Some (patHost, patPort) \<Rightarrow>
               (if patPort \<noteq> [] \<and> patPort \<noteq> targetPort then False
                else if patHost = ''*'' \<or> patHost = ''**'' then True
                else if HasPrefix patHost ''**.'' \<and> HasSuffix targetHost (drop 1 (drop 1 patHost)) then True
                else if HasPrefix patHost ''*.'' then
                  HasSuffix targetHost (drop 1 patHost) \<and>
                  \<not> EqualFold uf targetHost (drop 1 (drop 1 patHost))
                else EqualFold uf targetHost patHost))))"

fun matchesResource :: "unifold \<Rightarrow> string \<Rightarrow> string list \<Rightarrow> bool" where
  "matchesResource uf hostPort [] = False"
| "matchesResource uf hostPort (pattern # resources) =
     (if matchHostPort uf hostPort pattern then True else matchesResource uf hostPort resources)"

text \<open>The locals of \<open>Evaluate\<close>'s loop, and one pass of its body.\<close>

record eval_locals =
  exactAllow :: bool
  exactDeny :: bool
  wildcardAllow :: bool
  wildcardDeny :: bool
  allowRuleID :: string
  denyRuleID :: string

definition eval_body :: "unifold \<Rightarrow> string \<Rightarrow> string \<Rightarrow> eval_locals \<Rightarrow> Rule \<Rightarrow> eval_locals" where
  "eval_body uf hostPort sandboxName v rule =
     (if r_Scope rule \<noteq> [] \<and> r_Scope rule \<noteq> sandboxName then v
      else if \<not> matchesResource uf hostPort (r_Resources rule) then v
      else
        (let isExact = list_ex (\<lambda>res. \<not> isWildcardPattern res) (r_Resources rule) in
         if r_Decision rule = ''allow'' then
           (if isExact then v\<lparr>exactAllow := True, allowRuleID := r_ID rule\<rparr>
            else v\<lparr>wildcardAllow := True, allowRuleID := r_ID rule\<rparr>)
         else if r_Decision rule = ''deny'' then
           (if isExact then v\<lparr>exactDeny := True, denyRuleID := r_ID rule\<rparr>
            else v\<lparr>wildcardDeny := True, denyRuleID := r_ID rule\<rparr>)
         else v))"

definition eval_start :: eval_locals where
  "eval_start =
     \<lparr>exactAllow = False, exactDeny = False, wildcardAllow = False, wildcardDeny = False,
      allowRuleID = [], denyRuleID = []\<rparr>"

definition Evaluate :: "unifold \<Rightarrow> Engine \<Rightarrow> string \<Rightarrow> string \<Rightarrow> string \<Rightarrow> Decision \<times> string" where
  "Evaluate uf pe host port sandboxName =
     (let v = foldl (eval_body uf (host @ '':'' @ port) sandboxName) eval_start (e_rules pe) in
      if exactAllow v then (DecisionAllow, allowRuleID v)
      else if exactDeny v then (DecisionDeny, denyRuleID v)
      else if wildcardAllow v then (DecisionAllow, allowRuleID v)
      else if wildcardDeny v then (DecisionDeny, denyRuleID v)
      else if e_defaultMode pe = ''allow-all'' then (DecisionAllow, ''default-allow'')
      else (DecisionDeny, ''default-deny''))"

definition AddRule ::
  "'w os \<Rightarrow> rules_json \<Rightarrow> string \<Rightarrow> string \<Rightarrow> string list \<Rightarrow> string \<Rightarrow> Engine \<Rightarrow> 'w \<Rightarrow>
     (goerror + Rule) \<times> Engine \<times> 'w" where
  "AddRule osx jm name decision resources scope pe w =
     (let rule = \<lparr>r_ID = ''rule-'' @ itoa (e_nextID pe), r_Name = name, r_Decision = decision,
                  r_Resources = resources, r_Scope = scope\<rparr>;
          pe1 = pe\<lparr>e_nextID := int64 (e_nextID pe + 1), e_rules := e_rules pe @ [rule]\<rparr>
      in (Inr rule, pe1, snd (save osx jm pe1 w)))"

text \<open>The loop of \<open>RemoveRule\<close>: the list without its first rule of that id, if there is one.\<close>

fun cut_rule :: "string \<Rightarrow> Rule list \<Rightarrow> Rule list option" where
  "cut_rule i [] = None"
| "cut_rule i (rule # rs) =
     (if r_ID rule = i then Some rs else map_option ((#) rule) (cut_rule i rs))"

definition RemoveRule ::
  "'w os \<Rightarrow> rules_json \<Rightarrow> string \<Rightarrow> Engine \<Rightarrow> 'w \<Rightarrow> bool \<times> Engine \<times> 'w" where
  "RemoveRule osx jm i pe w =
     (case cut_rule i (e_rules pe) of
        Some rs \<Rightarrow> (let pe1 = pe\<lparr>e_rules := rs\<rparr> in (True, pe1, snd (save osx jm pe1 w)))
      | None \<Rightarrow> (False, pe, w))"

definition ListRules :: "Engine \<Rightarrow> Rule list" where
  "ListRules pe = e_rules pe"

section \<open>Specification: ranks\<close>

text \<open>
  A matching rule has a rank. The comment of \<open>Evaluate\<close> orders the four ranks; the
  specification takes the least rank among the applicable rules, whatever their order. There are
  two readings of which rank a rule has. \<open>rank_of\<close> is the code's: a rule is exact if any of its
  resources is free of stars, also when it is another one that matches. \<open>doc_ranks\<close> is the
  comment's: an exact match is a match of the full host and port, by the matching resource itself.
\<close>

datatype rank = ExactAllow | ExactDeny | WildcardAllow | WildcardDeny

fun rank_pos :: "rank \<Rightarrow> nat" where
  "rank_pos ExactAllow = 0"
| "rank_pos ExactDeny = 1"
| "rank_pos WildcardAllow = 2"
| "rank_pos WildcardDeny = 3"

lemma rank_pos_inject: "rank_pos a = rank_pos b \<longleftrightarrow> a = b"
  by (cases a; cases b) simp_all

instantiation rank :: linorder
begin

definition less_eq_rank :: "rank \<Rightarrow> rank \<Rightarrow> bool" where
  "less_eq_rank a b \<longleftrightarrow> rank_pos a \<le> rank_pos b"

definition less_rank :: "rank \<Rightarrow> rank \<Rightarrow> bool" where
  "less_rank a b \<longleftrightarrow> rank_pos a < rank_pos b"

instance
  by standard (auto simp: less_eq_rank_def less_rank_def rank_pos_inject)

end

fun rank_decision :: "rank \<Rightarrow> Decision" where
  "rank_decision ExactAllow = DecisionAllow"
| "rank_decision ExactDeny = DecisionDeny"
| "rank_decision WildcardAllow = DecisionAllow"
| "rank_decision WildcardDeny = DecisionDeny"

definition in_scope :: "string \<Rightarrow> Rule \<Rightarrow> bool" where
  "in_scope sandboxName r \<longleftrightarrow> r_Scope r = [] \<or> r_Scope r = sandboxName"

definition applies :: "unifold \<Rightarrow> string \<Rightarrow> string \<Rightarrow> Rule \<Rightarrow> bool" where
  "applies uf hostPort sandboxName r \<longleftrightarrow>
     in_scope sandboxName r \<and> matchesResource uf hostPort (r_Resources r)"

definition rank_of :: "Rule \<Rightarrow> rank option" where
  "rank_of r =
     (let isExact = (\<exists>res \<in> set (r_Resources r). CHR ''*'' \<notin> set res) in
      if r_Decision r = ''allow'' then Some (if isExact then ExactAllow else WildcardAllow)
      else if r_Decision r = ''deny'' then Some (if isExact then ExactDeny else WildcardDeny)
      else None)"

definition ranks :: "unifold \<Rightarrow> string \<Rightarrow> string \<Rightarrow> Rule list \<Rightarrow> rank set" where
  "ranks uf hostPort sandboxName rs =
     {k. \<exists>r \<in> set rs. applies uf hostPort sandboxName r \<and> rank_of r = Some k}"

definition decision_spec :: "unifold \<Rightarrow> Engine \<Rightarrow> string \<Rightarrow> string \<Rightarrow> string \<Rightarrow> Decision" where
  "decision_spec uf pe host port sandboxName =
     (let ks = ranks uf (host @ '':'' @ port) sandboxName (e_rules pe) in
      if ks = {} then (if e_defaultMode pe = ''allow-all'' then DecisionAllow else DecisionDeny)
      else rank_decision (Min ks))"

text \<open>The reading of the comment: a resource without stars that names the host (up to case) and the port.\<close>

definition full_match :: "unifold \<Rightarrow> string \<Rightarrow> string \<Rightarrow> string \<Rightarrow> bool" where
  "full_match uf host port res \<longleftrightarrow> CHR ''*'' \<notin> set res \<and> (\<exists>h. res = h @ '':'' @ port \<and> EqualFold uf host h)"

definition match_rank :: "string \<Rightarrow> bool \<Rightarrow> rank option" where
  "match_rank decision exact =
     (if decision = ''allow'' then Some (if exact then ExactAllow else WildcardAllow)
      else if decision = ''deny'' then Some (if exact then ExactDeny else WildcardDeny)
      else None)"

definition doc_ranks :: "unifold \<Rightarrow> string \<Rightarrow> string \<Rightarrow> string \<Rightarrow> Rule list \<Rightarrow> rank set" where
  "doc_ranks uf host port sandboxName rs =
     {k. \<exists>r \<in> set rs. in_scope sandboxName r \<and>
        (\<exists>res \<in> set (r_Resources r). matchHostPort uf (host @ '':'' @ port) res \<and>
           match_rank (r_Decision r) (full_match uf host port res) = Some k)}"

definition documented_decision :: "unifold \<Rightarrow> Engine \<Rightarrow> string \<Rightarrow> string \<Rightarrow> string \<Rightarrow> Decision" where
  "documented_decision uf pe host port sandboxName =
     (let ks = doc_ranks uf host port sandboxName (e_rules pe) in
      if ks = {} then (if e_defaultMode pe = ''allow-all'' then DecisionAllow else DecisionDeny)
      else rank_decision (Min ks))"

text \<open>A rule whose resources are of one kind: all with stars, or all without stars and with a port.\<close>

definition one_kind :: "Rule \<Rightarrow> bool" where
  "one_kind r \<longleftrightarrow>
     (\<forall>res \<in> set (r_Resources r). CHR ''*'' \<in> set res) \<or>
     (\<forall>res \<in> set (r_Resources r). CHR ''*'' \<notin> set res \<and> \<not> suffix '':'' res)"

section \<open>Lemmas: the loop of Evaluate\<close>

lemma isWildcardPattern_iff [simp]: "isWildcardPattern pat \<longleftrightarrow> CHR ''*'' \<in> set pat"
proof -
  have "sublist ''*'' pat \<longleftrightarrow> CHR ''*'' \<in> set pat"
    by (metis in_set_conv_decomp sublist_def append_Cons append_Nil list.set_intros(1)
        set_mono_sublist subsetD)
  moreover have "sublist ''**'' pat \<Longrightarrow> sublist ''*'' pat"
    by (metis append_Cons append_Nil sublist_append_leftI sublist_order.order_trans)
  ultimately show ?thesis by (auto simp: isWildcardPattern_def)
qed

lemma matchesResource_iff: "matchesResource uf hp ps \<longleftrightarrow> (\<exists>p \<in> set ps. matchHostPort uf hp p)"
  by (induction ps) auto

lemma eval_body_cases:
  "eval_body uf hp sb v r =
     (if applies uf hp sb r then
        (case rank_of r of
           None \<Rightarrow> v
         | Some ExactAllow \<Rightarrow> v\<lparr>exactAllow := True, allowRuleID := r_ID r\<rparr>
         | Some ExactDeny \<Rightarrow> v\<lparr>exactDeny := True, denyRuleID := r_ID r\<rparr>
         | Some WildcardAllow \<Rightarrow> v\<lparr>wildcardAllow := True, allowRuleID := r_ID r\<rparr>
         | Some WildcardDeny \<Rightarrow> v\<lparr>wildcardDeny := True, denyRuleID := r_ID r\<rparr>)
      else v)"
  by (auto simp: eval_body_def applies_def in_scope_def rank_of_def list_ex_iff Let_def)

lemma ranks_Nil [simp]: "ranks uf hp sb [] = {}"
  by (simp add: ranks_def)

lemma in_ranks_Cons [simp]:
  "k \<in> ranks uf hp sb (r # rs) \<longleftrightarrow>
     applies uf hp sb r \<and> rank_of r = Some k \<or> k \<in> ranks uf hp sb rs"
  by (auto simp: ranks_def)

lemma eval_body_flags [simp]:
  "exactAllow (eval_body uf hp sb v r) \<longleftrightarrow>
     exactAllow v \<or> applies uf hp sb r \<and> rank_of r = Some ExactAllow"
  "exactDeny (eval_body uf hp sb v r) \<longleftrightarrow>
     exactDeny v \<or> applies uf hp sb r \<and> rank_of r = Some ExactDeny"
  "wildcardAllow (eval_body uf hp sb v r) \<longleftrightarrow>
     wildcardAllow v \<or> applies uf hp sb r \<and> rank_of r = Some WildcardAllow"
  "wildcardDeny (eval_body uf hp sb v r) \<longleftrightarrow>
     wildcardDeny v \<or> applies uf hp sb r \<and> rank_of r = Some WildcardDeny"
  by (simp_all add: eval_body_cases split: option.split rank.split)

lemma eval_exactAllow:
  "exactAllow (foldl (eval_body uf hp sb) v rs) \<longleftrightarrow> exactAllow v \<or> ExactAllow \<in> ranks uf hp sb rs"
  by (induction rs arbitrary: v) auto

lemma eval_exactDeny:
  "exactDeny (foldl (eval_body uf hp sb) v rs) \<longleftrightarrow> exactDeny v \<or> ExactDeny \<in> ranks uf hp sb rs"
  by (induction rs arbitrary: v) auto

lemma eval_wildcardAllow:
  "wildcardAllow (foldl (eval_body uf hp sb) v rs) \<longleftrightarrow>
     wildcardAllow v \<or> WildcardAllow \<in> ranks uf hp sb rs"
  by (induction rs arbitrary: v) auto

lemma eval_wildcardDeny:
  "wildcardDeny (foldl (eval_body uf hp sb) v rs) \<longleftrightarrow>
     wildcardDeny v \<or> WildcardDeny \<in> ranks uf hp sb rs"
  by (induction rs arbitrary: v) auto

lemmas eval_flags = eval_exactAllow eval_exactDeny eval_wildcardAllow eval_wildcardDeny

lemma ranks_empty_iff:
  "ks = {} \<longleftrightarrow> ExactAllow \<notin> ks \<and> ExactDeny \<notin> ks \<and> WildcardAllow \<notin> ks \<and> WildcardDeny \<notin> ks"
proof -
  have "k \<notin> ks" if "ExactAllow \<notin> ks" "ExactDeny \<notin> ks" "WildcardAllow \<notin> ks" "WildcardDeny \<notin> ks" for k
    using that by (cases k) simp_all
  then show ?thesis by auto
qed

lemma finite_rank [simp]: "finite (ks :: rank set)"
proof (rule finite_subset)
  show "ks \<subseteq> {ExactAllow, ExactDeny, WildcardAllow, WildcardDeny}"
    using rank.exhaust by blast
qed simp

lemma Min_rank:
  assumes "ks \<noteq> {}"
  shows "Min ks =
    (if ExactAllow \<in> ks then ExactAllow else if ExactDeny \<in> ks then ExactDeny
     else if WildcardAllow \<in> ks then WildcardAllow else WildcardDeny)"
proof (rule Min_eqI)
  fix k assume "k \<in> ks"
  then show "(if ExactAllow \<in> ks then ExactAllow else if ExactDeny \<in> ks then ExactDeny
     else if WildcardAllow \<in> ks then WildcardAllow else WildcardDeny) \<le> k"
    by (cases k) (auto simp: less_eq_rank_def)
next
  show "(if ExactAllow \<in> ks then ExactAllow else if ExactDeny \<in> ks then ExactDeny
     else if WildcardAllow \<in> ks then WildcardAllow else WildcardDeny) \<in> ks"
    using assms unfolding ranks_empty_iff by auto
qed simp

lemma fst_Evaluate_eq_spec: "fst (Evaluate uf pe host port sb) = decision_spec uf pe host port sb"
  by (simp add: Evaluate_def decision_spec_def Let_def eval_flags eval_start_def Min_rank
      ranks_empty_iff[of "ranks uf (host @ CHR '':'' # port) sb (e_rules pe)"])

section \<open>Lemmas: scope, order and the reported rule\<close>

definition deciding :: "unifold \<Rightarrow> string \<Rightarrow> string \<Rightarrow> string \<Rightarrow> Rule list \<Rightarrow> Rule list" where
  "deciding uf hostPort sandboxName d rs =
     filter (\<lambda>r. applies uf hostPort sandboxName r \<and> r_Decision r = d) rs"

lemma eval_body_ids [simp]:
  "allowRuleID (eval_body uf hp sb v r) =
     (if applies uf hp sb r \<and> r_Decision r = ''allow'' then r_ID r else allowRuleID v)"
  "denyRuleID (eval_body uf hp sb v r) =
     (if applies uf hp sb r \<and> r_Decision r = ''deny'' then r_ID r else denyRuleID v)"
  by (simp_all add: eval_body_def applies_def in_scope_def Let_def)

lemma eval_allowRuleID:
  "deciding uf hp sb ''allow'' rs \<noteq> [] \<Longrightarrow>
     allowRuleID (foldl (eval_body uf hp sb) v rs) = r_ID (last (deciding uf hp sb ''allow'' rs))"
  by (induction rs rule: rev_induct) (auto simp: deciding_def)

lemma eval_denyRuleID:
  "deciding uf hp sb ''deny'' rs \<noteq> [] \<Longrightarrow>
     denyRuleID (foldl (eval_body uf hp sb) v rs) = r_ID (last (deciding uf hp sb ''deny'' rs))"
  by (induction rs rule: rev_induct) (auto simp: deciding_def)

lemma rank_of_decision:
  "rank_of r = Some k \<Longrightarrow>
     r_Decision r = (case rank_decision k of DecisionAllow \<Rightarrow> ''allow'' | DecisionDeny \<Rightarrow> ''deny'')"
  by (auto simp: rank_of_def Let_def split: if_splits)

lemma ranks_deciding:
  assumes "k \<in> ranks uf hp sb rs"
  shows "deciding uf hp sb
      (case rank_decision k of DecisionAllow \<Rightarrow> ''allow'' | DecisionDeny \<Rightarrow> ''deny'') rs \<noteq> []"
  using assms rank_of_decision by (fastforce simp: ranks_def deciding_def filter_empty_conv)

lemma foldl_eval_in_scope:
  "foldl (eval_body uf hp sb) v (filter (in_scope sb) rs) = foldl (eval_body uf hp sb) v rs"
  by (induction rs arbitrary: v) (auto simp: eval_body_def in_scope_def)

lemma ranks_cong: "set rs = set rs' \<Longrightarrow> ranks uf hp sb rs = ranks uf hp sb rs'"
  by (simp add: ranks_def)

section \<open>Lemmas: which hosts a pattern matches\<close>

lemma netSplitHostPort_join:
  "CHR '':'' \<notin> set port \<Longrightarrow> netSplitHostPort (host @ CHR '':'' # port) = Some (host, port)"
  by (simp add: netSplitHostPort_def LastIndex_append)

lemma EqualFold_length: "ascii s \<Longrightarrow> ascii t \<Longrightarrow> EqualFold uf s t \<Longrightarrow> length s = length t"
  by (auto simp: EqualFold_def dest: map_eq_imp_length_eq)

lemma ascii_append [simp]: "ascii (s @ t) \<longleftrightarrow> ascii s \<and> ascii t"
  by (simp add: ascii_def)

lemma ascii_Cons [simp]: "ascii (c # t) \<longleftrightarrow> of_char c < (128::nat) \<and> ascii t"
  by (simp add: ascii_def)

lemma ascii_Nil [simp]: "ascii []"
  by (simp add: ascii_def)

abbreviation port_ok :: "string \<Rightarrow> string \<Rightarrow> bool" where
  "port_ok pp port \<equiv> pp = [] \<or> pp = port"

lemma match_literal:
  assumes "CHR '':'' \<notin> set port" "CHR '':'' \<notin> set pp" "CHR ''*'' \<notin> set domn"
  shows "matchHostPort uf (host @ '':'' @ port) (domn @ '':'' @ pp) \<longleftrightarrow>
    port_ok pp port \<and> EqualFold uf host domn"
proof -
  have "domn @ CHR '':'' # pp \<noteq> ''*:*''" "domn @ CHR '':'' # pp \<noteq> ''**''" "domn \<noteq> ''*''" "domn \<noteq> ''**''"
    using assms(3) by (auto simp: append_eq_Cons_conv)
  moreover have "\<not> prefix ''**.'' domn" "\<not> prefix ''*.'' domn"
    using assms(3) by (auto simp: prefix_def)
  ultimately show ?thesis
    using assms(1,2) by (simp add: matchHostPort_def netSplitHostPort_join)
qed

lemma match_subdomain:
  assumes "CHR '':'' \<notin> set port" "CHR '':'' \<notin> set pp" "ascii host" "ascii domn"
  shows "matchHostPort uf (host @ '':'' @ port) (''*.'' @ domn @ '':'' @ pp) \<longleftrightarrow>
    port_ok pp port \<and> (\<exists>sub. host = sub @ ''.'' @ domn)"
proof -
  have split: "netSplitHostPort (''*.'' @ domn @ CHR '':'' # pp) = Some (''*.'' @ domn, pp)"
    using netSplitHostPort_join[of pp "''*.'' @ domn"] assms(2) by simp
  have "\<not> EqualFold uf host domn" if "host = sub @ ''.'' @ domn" for sub
    using EqualFold_length[of host domn uf] assms(3,4) that by auto
  then show ?thesis
    using assms(1) split by (auto simp: matchHostPort_def netSplitHostPort_join suffix_def)
qed

lemma match_double_star:
  assumes "CHR '':'' \<notin> set port" "CHR '':'' \<notin> set pp"
  shows "matchHostPort uf (host @ '':'' @ port) (''**.'' @ domn @ '':'' @ pp) \<longleftrightarrow>
    port_ok pp port \<and> ((\<exists>sub. host = sub @ ''.'' @ domn) \<or> EqualFold uf host (''**.'' @ domn))"
proof -
  have split: "netSplitHostPort (''**.'' @ domn @ CHR '':'' # pp) = Some (''**.'' @ domn, pp)"
    using netSplitHostPort_join[of pp "''**.'' @ domn"] assms(2) by simp
  then show ?thesis
    using assms(1) by (auto simp: matchHostPort_def netSplitHostPort_join suffix_def)
qed

lemma match_any_host:
  assumes "CHR '':'' \<notin> set port" "CHR '':'' \<notin> set pp" "pp \<noteq> ''*''"
  shows "matchHostPort uf (host @ '':'' @ port) (''*:'' @ pp) \<longleftrightarrow> port_ok pp port"
proof -
  have "netSplitHostPort (''*:'' @ pp) = Some (''*'', pp)"
    using netSplitHostPort_join[of pp "''*''"] assms(2) by simp
  then show ?thesis
    using assms(1,3) by (auto simp: matchHostPort_def netSplitHostPort_join)
qed

section \<open>Lemmas: cutting a rule\<close>

lemma cut_rule_None: "cut_rule i rs = None \<longleftrightarrow> i \<notin> r_ID ` set rs"
  by (induction rs) auto

lemma cut_rule_distinct:
  "distinct (map r_ID rs) \<Longrightarrow> cut_rule i rs = Some rs' \<Longrightarrow> rs' = filter (\<lambda>r. r_ID r \<noteq> i) rs"
proof (induction rs arbitrary: rs')
  case Nil
  then show ?case by simp
next
  case (Cons r rs)
  show ?case
  proof (cases "r_ID r = i")
    case True
    then have "filter (\<lambda>r. r_ID r \<noteq> i) rs = rs"
      using Cons.prems(1) by (auto simp: filter_id_conv image_iff)
    with True Cons.prems(2) show ?thesis by simp
  next
    case False
    then obtain zs where "cut_rule i rs = Some zs" "rs' = r # zs"
      using Cons.prems(2) by auto
    with False Cons show ?thesis by simp
  qed
qed

lemma cut_rule_snoc:
  "r_ID r \<notin> r_ID ` set rs \<Longrightarrow> cut_rule (r_ID r) (rs @ [r]) = Some rs"
  by (induction rs) auto

lemma cut_rule_append:
  "r_ID r \<notin> r_ID ` set kept \<Longrightarrow> cut_rule (r_ID r) (kept @ r # rs) = Some (kept @ rs)"
  by (induction kept) auto

section \<open>The rule store as an interface\<close>

text \<open>
  What the daemon relies on when it edits rules: \<open>remove\<close> takes out the first rule with the
  given id and reports whether there was one. The daemon's loops over a snapshot of the rules
  are proved against this contract.
\<close>

locale rule_store =
  fixes rules_of :: "'e \<Rightarrow> Rule list"
    and remove :: "string \<Rightarrow> 'e \<Rightarrow> bool \<times> 'e"
  assumes remove_hit:
    "cut_rule i (rules_of e) = Some rs \<Longrightarrow>
       fst (remove i e) \<and> rules_of (snd (remove i e)) = rs"
    and remove_miss: "cut_rule i (rules_of e) = None \<Longrightarrow> remove i e = (False, e)"
begin

lemma remove_every_rule:
  "rules_of e = rs \<Longrightarrow> rules_of (foldl (\<lambda>e r. snd (remove (r_ID r) e)) e rs) = []"
proof (induction rs arbitrary: e)
  case Nil
  then show ?case by simp
next
  case (Cons r rs)
  have "cut_rule (r_ID r) (rules_of e) = Some rs" using Cons.prems by simp
  then have "rules_of (snd (remove (r_ID r) e)) = rs" using remove_hit by blast
  then show ?case using Cons.IH by simp
qed

text \<open>Removing by a condition over a snapshot: what is left, and how many were removed.\<close>

lemma remove_matching_from:
  "rules_of e = kept @ rs \<Longrightarrow> distinct (map r_ID (kept @ rs)) \<Longrightarrow>
   foldl (\<lambda>(n, e) r. if P r then (case remove (r_ID r) e of (ok, e1) \<Rightarrow> (if ok then n + 1 else n, e1)) else (n, e))
     (n, e) rs = (n', e') \<Longrightarrow>
   rules_of e' = kept @ filter (\<lambda>r. \<not> P r) rs \<and> n' = n + int (length (filter P rs))"
proof (induction rs arbitrary: e kept n)
  case Nil
  then show ?case by simp
next
  case (Cons r rs)
  show ?case
  proof (cases "P r")
    case True
    have "cut_rule (r_ID r) (rules_of e) = Some (kept @ rs)"
      using Cons.prems(1,2) cut_rule_append[of r kept rs] by auto
    then obtain e1 where e1: "remove (r_ID r) e = (True, e1)" "rules_of e1 = kept @ rs"
      using remove_hit[of "r_ID r" e "kept @ rs"] by (cases "remove (r_ID r) e") auto
    have "distinct (map r_ID (kept @ rs))" using Cons.prems(2) by auto
    moreover have "foldl (\<lambda>(n, e) r. if P r then (case remove (r_ID r) e of (ok, e1) \<Rightarrow> (if ok then n + 1 else n, e1)) else (n, e))
        (n + 1, e1) rs = (n', e')"
      using Cons.prems(3) True e1(1) by simp
    ultimately have "rules_of e' = kept @ filter (\<lambda>r. \<not> P r) rs \<and> n' = (n + 1) + int (length (filter P rs))"
      by (rule Cons.IH[OF e1(2)])
    then show ?thesis using True by simp
  next
    case False
    then show ?thesis using Cons.IH[of e "kept @ [r]" n] Cons.prems by simp
  qed
qed

end

interpretation engine: rule_store "\<lambda>(pe, w). e_rules pe" "\<lambda>i (pe, w). RemoveRule osx jm i pe w"
  for osx :: "'w os" and jm :: rules_json
  by unfold_locales (auto simp: RemoveRule_def Let_def split: option.splits)

section \<open>Lemmas: ids\<close>

text \<open>
  The discipline of ids: no two rules share one, every id of the form \<^verbatim>\<open>rule-%d\<close> is below the
  next one to be given out, and the counter has not wrapped.
\<close>

definition ids_ok :: "Engine \<Rightarrow> bool" where
  "ids_ok pe \<longleftrightarrow>
     distinct (map r_ID (e_rules pe)) \<and> 0 < e_nextID pe \<and> is_int64 (e_nextID pe) \<and>
     (\<forall>r \<in> set (e_rules pe). \<forall>n. Sscanf_rule (r_ID r) = Some n \<longrightarrow> n < e_nextID pe)"

lemma fresh_id:
  assumes "ids_ok pe"
  shows "''rule-'' @ itoa (e_nextID pe) \<notin> r_ID ` set (e_rules pe)"
proof
  assume "''rule-'' @ itoa (e_nextID pe) \<in> r_ID ` set (e_rules pe)"
  then obtain r where r: "r \<in> set (e_rules pe)" "r_ID r = ''rule-'' @ itoa (e_nextID pe)"
    by auto
  then have "Sscanf_rule (r_ID r) = Some (e_nextID pe)"
    using Sscanf_rule_itoa assms by (simp add: ids_ok_def)
  then show False using assms r(1) by (auto simp: ids_ok_def)
qed

lemma ids_ok_defaultRules:
  "ids_ok \<lparr>e_rules = defaultRules, e_nextID = int (length defaultRules) + 1,
           e_policyPath = p, e_defaultMode = m\<rparr>"
  by (simp add: ids_ok_def defaultRules_def Sscanf_rule_def is_int64_def)

text \<open>The engine NewEngine returns for the directory \<^verbatim>\<open>/p\<close>, for concrete statements.\<close>

definition sample_engine :: Engine where
  "sample_engine =
     \<lparr>e_rules = defaultRules, e_nextID = 3, e_policyPath = ''/p/rules.json'', e_defaultMode = ''balanced''\<rparr>"

lemma ids_ok_sample: "ids_ok sample_engine"
  using ids_ok_defaultRules[of "''/p/rules.json''" "''balanced''"]
  by (simp add: sample_engine_def defaultRules_def)

lemma ids_ok_AddRule:
  assumes "ids_ok pe" "e_nextID pe < 2 ^ 63 - 1"
  shows "ids_ok (fst (snd (AddRule osx jm name d res scope pe w)))"
proof -
  have "int64 (e_nextID pe + 1) = e_nextID pe + 1" "is_int64 (e_nextID pe + 1)"
    using assms by (auto simp: ids_ok_def is_int64_def int64_def)
  moreover have "Sscanf_rule (''rule-'' @ itoa (e_nextID pe)) = Some (e_nextID pe)"
    using assms Sscanf_rule_itoa by (simp add: ids_ok_def)
  ultimately show ?thesis
    using assms fresh_id[OF assms(1)] by (fastforce simp: AddRule_def ids_ok_def Let_def)
qed

lemma ids_ok_RemoveRule:
  assumes "ids_ok pe"
  shows "ids_ok (fst (snd (RemoveRule osx jm i pe w)))"
proof (cases "cut_rule i (e_rules pe)")
  case None
  then show ?thesis using assms by (simp add: RemoveRule_def)
next
  case (Some rs)
  then have "rs = filter (\<lambda>r. r_ID r \<noteq> i) (e_rules pe)"
    using assms cut_rule_distinct by (simp add: ids_ok_def)
  then show ?thesis
    using assms Some by (auto simp: RemoveRule_def ids_ok_def Let_def distinct_map_filter)
qed

lemma max_id_append:
  "max_id (rs @ [r]) = (case Sscanf_rule (r_ID r) of Some n \<Rightarrow> max (max_id rs) n | None \<Rightarrow> max_id rs)"
  by (auto simp: max_id_def split: option.split)

lemma max_id_ge: "0 \<le> max_id rs" "r \<in> set rs \<Longrightarrow> Sscanf_rule (r_ID r) = Some n \<Longrightarrow> n \<le> max_id rs"
proof (induction rs rule: rev_induct)
  case Nil
  case 1 show ?case by (simp add: max_id_def)
  case 2 then show ?case by simp
next
  case (snoc q rs)
  case 1 show ?case using snoc by (auto simp: max_id_append split: option.split)
  case 2 then show ?case using snoc by (auto simp: max_id_append split: option.split)
qed

lemma max_id_le:
  "0 \<le> b \<Longrightarrow> (\<And>r n. r \<in> set rs \<Longrightarrow> Sscanf_rule (r_ID r) = Some n \<Longrightarrow> n \<le> b) \<Longrightarrow> max_id rs \<le> b"
proof (induction rs rule: rev_induct)
  case Nil
  then show ?case by (simp add: max_id_def)
next
  case (snoc q rs)
  then show ?case by (auto simp: max_id_append split: option.split)
qed

lemma ids_ok_LoadRules:
  assumes "distinct (map r_ID rs)"
    and "\<And>r n. r \<in> set rs \<Longrightarrow> Sscanf_rule (r_ID r) = Some n \<Longrightarrow> n < 2 ^ 63 - 1"
  shows "ids_ok (fst (LoadRules osx jm rs pe w))"
proof -
  have "max_id rs \<le> 2 ^ 63 - 2" using assms(2) by (intro max_id_le) force+
  moreover have "0 \<le> max_id rs" by (rule max_id_ge)
  ultimately have "int64 (max_id rs + 1) = max_id rs + 1" "is_int64 (max_id rs + 1)"
    by (auto simp: is_int64_def int64_def)
  then show ?thesis
    using assms(1) max_id_ge(1)[of rs] max_id_ge(2)[of _ rs]
    by (fastforce simp: LoadRules_def ids_ok_def Let_def)
qed

section \<open>Lemmas: the default rules\<close>

lemma defaultRules_deny:
  assumes "e_rules pe = defaultRules" "e_defaultMode pe = ''balanced''"
  shows "fst (Evaluate uf pe host port sb) = DecisionDeny"
proof -
  have "ranks uf hp sb defaultRules \<subseteq> {WildcardDeny}" for hp
    by (auto simp: ranks_def defaultRules_def rank_of_def)
  then have "ranks uf (host @ CHR '':'' # port) sb defaultRules = {} \<or>
      ranks uf (host @ CHR '':'' # port) sb defaultRules = {WildcardDeny}"
    by (simp add: subset_singleton_iff)
  then show ?thesis
    using assms by (elim disjE) (simp_all add: fst_Evaluate_eq_spec decision_spec_def Let_def)
qed

lemma sample_engine_denies: "fst (Evaluate uf sample_engine host port sb) = DecisionDeny"
  by (rule defaultRules_deny) (simp_all add: sample_engine_def)

definition open_engine :: Engine where
  "open_engine = sample_engine\<lparr>e_rules := [], e_defaultMode := ''allow-all''\<rparr>"

lemma open_engine_allows: "Evaluate uf open_engine host port sb = (DecisionAllow, ''default-allow'')"
  by (simp add: open_engine_def Evaluate_def eval_start_def Let_def)

section \<open>Lemmas: the two readings of exact\<close>

lemma prefix_star: "CHR ''*'' \<notin> set h \<Longrightarrow> \<not> prefix (CHR ''*'' # p) h"
  by (auto dest: set_mono_prefix)

lemma star_free_match:
  assumes "CHR ''*'' \<notin> set res" "\<not> suffix '':'' res" "CHR '':'' \<notin> set port"
  shows "matchHostPort uf (host @ '':'' @ port) res = full_match uf host port res"
proof (cases "LastIndex res (CHR '':'')")
  case None
  then have c: "CHR '':'' \<notin> set res" using LastIndex_None by blast
  have "netSplitHostPort res = None" unfolding netSplitHostPort_def None by (simp only: option.case)
  then have "\<not> matchHostPort uf (host @ '':'' @ port) res"
    using assms(1) netSplitHostPort_join[OF assms(3), of host] by (auto simp: matchHostPort_def)
  moreover have "\<not> full_match uf host port res" using c by (auto simp: full_match_def)
  ultimately show ?thesis by simp
next
  case (Some i)
  then obtain h q where r: "res = h @ CHR '':'' # q" "CHR '':'' \<notin> set q"
    using LastIndex_Some_split[OF Some] by (metis)
  have q: "q \<noteq> []" using assms(2) r(1) by (auto simp: suffix_def)
  have h: "CHR ''*'' \<notin> set h" using assms(1) r(1) by simp
  have "res \<noteq> ''*:*''" "res \<noteq> ''**''" using assms(1) by auto
  then have ne: "h @ CHR '':'' # q \<noteq> ''*:*''" "h @ CHR '':'' # q \<noteq> ''**''" "h \<noteq> ''*''" "h \<noteq> ''**''"
    using h unfolding r(1) by auto
  have "matchHostPort uf (host @ '':'' @ port) res \<longleftrightarrow> q = port \<and> EqualFold uf host h"
    using ne r q h prefix_star[OF h] netSplitHostPort_join[OF assms(3), of host] netSplitHostPort_join[OF r(2), of h]
    by (auto simp: matchHostPort_def)
  moreover have "full_match uf host port res \<longleftrightarrow> q = port \<and> EqualFold uf host h"
  proof -
    have "h @ CHR '':'' # q = h' @ CHR '':'' # port \<longleftrightarrow> h = h' \<and> q = port" for h'
      using r(2) assms(3) netSplitHostPort_join[of q h] netSplitHostPort_join[of port h'] by (metis option.inject prod.inject)
    then show ?thesis using assms(1) r(1) by (auto simp: full_match_def)
  qed
  ultimately show ?thesis by simp
qed

lemma rank_of_match: "rank_of r = match_rank (r_Decision r) (\<exists>res \<in> set (r_Resources r). CHR ''*'' \<notin> set res)"
  by (simp add: rank_of_def match_rank_def Let_def)

lemma one_kind_rank:
  assumes "one_kind r" "CHR '':'' \<notin> set port" "res \<in> set (r_Resources r)" "matchHostPort uf (host @ '':'' @ port) res"
  shows "match_rank (r_Decision r) (full_match uf host port res) = rank_of r"
proof (cases "CHR ''*'' \<in> set res")
  case True
  then have "\<not> (\<exists>res \<in> set (r_Resources r). CHR ''*'' \<notin> set res)" using assms(1,3) by (auto simp: one_kind_def)
  moreover have "\<not> full_match uf host port res" using True by (simp add: full_match_def)
  ultimately show ?thesis by (simp add: rank_of_match)
next
  case False
  then have "\<not> suffix '':'' res" using assms(1,3) by (auto simp: one_kind_def)
  then have "full_match uf host port res" using star_free_match[OF False _ assms(2)] assms(4) by simp
  moreover have "\<exists>res \<in> set (r_Resources r). CHR ''*'' \<notin> set res" using False assms(3) by blast
  ultimately show ?thesis by (simp add: rank_of_match)
qed

lemma one_kind_ranks:
  assumes "\<forall>r \<in> set rs. one_kind r" "CHR '':'' \<notin> set port"
  shows "ranks uf (host @ '':'' @ port) sb rs = doc_ranks uf host port sb rs"
proof -
  have "(applies uf (host @ '':'' @ port) sb r \<and> rank_of r = Some k) \<longleftrightarrow>
      (in_scope sb r \<and> (\<exists>res \<in> set (r_Resources r). matchHostPort uf (host @ '':'' @ port) res \<and>
        match_rank (r_Decision r) (full_match uf host port res) = Some k))" if "r \<in> set rs" for r k
  proof -
    have "one_kind r" using assms(1) that by blast
    then show ?thesis
      using one_kind_rank[OF _ assms(2), of r _ uf host] unfolding applies_def matchesResource_iff by auto
  qed
  then show ?thesis unfolding ranks_def doc_ranks_def by blast
qed

lemma mixed_allow_wins:
  assumes "r \<in> set (e_rules pe)" "in_scope sb r" "r_Decision r = ''allow''"
    and "res \<in> set (r_Resources r)" "matchHostPort uf (host @ '':'' @ port) res"
    and "res' \<in> set (r_Resources r)" "CHR ''*'' \<notin> set res'"
  shows "fst (Evaluate uf pe host port sb) = DecisionAllow"
proof -
  have "applies uf (host @ '':'' @ port) sb r" using assms(2,4,5) unfolding applies_def matchesResource_iff by blast
  moreover have "rank_of r = Some ExactAllow" using assms(3,6,7) by (auto simp: rank_of_def)
  ultimately have e: "ExactAllow \<in> ranks uf (host @ '':'' @ port) sb (e_rules pe)" using assms(1) by (auto simp: ranks_def)
  then show ?thesis
    using Min_rank[of "ranks uf (host @ '':'' @ port) sb (e_rules pe)"]
    by (auto simp: fst_Evaluate_eq_spec decision_spec_def Let_def)
qed

section \<open>Properties\<close>

text \<open>C2: The decision of Evaluate is that of the best-ranked rule among those that apply to the request
  (in scope and with a matching resource), in the order exact allow, exact deny, wildcard allow,
  wildcard deny; with no such rule it is the default, a deny unless the mode is allow-all. The code
  ranks a rule as exact if any of its resources has no star. Where no rule mixes resources with
  and without stars, and those without name a port, this is the documented decision, in which a
  match is exact if the matching resource itself is the full host and port. With mixed rules it
  is not: an allow rule that matches by one resource and has another one without stars wins over
  everything, exact denies of the very host and port included.\<close>

theorem Evaluate_meets_spec:
  "fst (Evaluate uf pe host port sb) = decision_spec uf pe host port sb \<and>
   ((\<forall>r \<in> set (e_rules pe). one_kind r) \<and> CHR '':'' \<notin> set port \<longrightarrow>
      fst (Evaluate uf pe host port sb) = documented_decision uf pe host port sb) \<and>
   (r \<in> set (e_rules pe) \<and> in_scope sb r \<and> r_Decision r = ''allow'' \<and>
      {res, res'} \<subseteq> set (r_Resources r) \<and> matchHostPort uf (host @ '':'' @ port) res \<and> CHR ''*'' \<notin> set res' \<longrightarrow>
      fst (Evaluate uf pe host port sb) = DecisionAllow)"
proof (intro conjI impI)
  show s: "fst (Evaluate uf pe host port sb) = decision_spec uf pe host port sb" by (rule fst_Evaluate_eq_spec)
  assume "(\<forall>r \<in> set (e_rules pe). one_kind r) \<and> CHR '':'' \<notin> set port"
  then show "fst (Evaluate uf pe host port sb) = documented_decision uf pe host port sb"
    using one_kind_ranks[of "e_rules pe" port uf host sb] s by (simp add: decision_spec_def documented_decision_def Let_def)
next
  assume "r \<in> set (e_rules pe) \<and> in_scope sb r \<and> r_Decision r = ''allow'' \<and>
      {res, res'} \<subseteq> set (r_Resources r) \<and> matchHostPort uf (host @ '':'' @ port) res \<and> CHR ''*'' \<notin> set res'"
  then show "fst (Evaluate uf pe host port sb) = DecisionAllow"
    using mixed_allow_wins[of r pe sb res uf host port res'] by simp
qed

text \<open>An exact deny of a host, and a rule that allows its domain and, exactly, another host.\<close>

definition mixed_engine :: Engine where
  "mixed_engine =
     \<lparr>e_rules =
        [\<lparr>r_ID = ''rule-1'', r_Name = ''deny'', r_Decision = ''deny'', r_Resources = [''x.evil.com:443''], r_Scope = []\<rparr>,
         \<lparr>r_ID = ''rule-2'', r_Name = ''allow'', r_Decision = ''allow'', r_Resources = [''*.evil.com:443'', ''a.com:80''],
          r_Scope = []\<rparr>],
      e_nextID = 3, e_policyPath = [], e_defaultMode = ''balanced''\<rparr>"

lemma mixed_documented: "documented_decision (\<lambda>_ _. False) mixed_engine ''x.evil.com'' ''443'' [] = DecisionDeny"
proof -
  let ?uf = "\<lambda>_ _. False" and ?hp = "''x.evil.com'' @ '':'' @ ''443''"
  let ?ks = "doc_ranks ?uf ''x.evil.com'' ''443'' [] (e_rules mixed_engine)"
  have m: "matchHostPort ?uf ?hp ''x.evil.com:443''" "\<not> matchHostPort ?uf ?hp ''a.com:80''" by code_simp+
  have "full_match ?uf ''x.evil.com'' ''443'' ''x.evil.com:443''"
    using m(1) star_free_match[of "''x.evil.com:443''" "''443''" ?uf "''x.evil.com''"] by (simp add: suffix_def)
  then have "ExactDeny \<in> ?ks" using m(1) by (auto simp: doc_ranks_def mixed_engine_def in_scope_def match_rank_def)
  moreover have "ExactAllow \<notin> ?ks"
    using m(2) by (auto simp: doc_ranks_def mixed_engine_def match_rank_def full_match_def split: if_splits)
  ultimately show ?thesis using Min_rank[of ?ks] by (auto simp: documented_decision_def Let_def)
qed

theorem Evaluate_meets_spec_witness:
  "fst (Evaluate (\<lambda>_ _. False) sample_engine ''a.io'' ''443'' []) =
     documented_decision (\<lambda>_ _. False) sample_engine ''a.io'' ''443'' [] \<and>
   fst (Evaluate (\<lambda>_ _. False) mixed_engine ''x.evil.com'' ''443'' []) = DecisionAllow \<and>
   documented_decision (\<lambda>_ _. False) mixed_engine ''x.evil.com'' ''443'' [] = DecisionDeny"
proof (intro conjI)
  have k: "(\<forall>r \<in> set (e_rules sample_engine). one_kind r) \<and> CHR '':'' \<notin> set ''443''"
    by (simp add: sample_engine_def defaultRules_def one_kind_def)
  show "fst (Evaluate (\<lambda>_ _. False) sample_engine ''a.io'' ''443'' []) =
      documented_decision (\<lambda>_ _. False) sample_engine ''a.io'' ''443'' []"
    by (rule Evaluate_meets_spec[THEN conjunct2, THEN conjunct1, THEN mp, OF k])
  have "matchHostPort (\<lambda>_ _. False) (''x.evil.com'' @ '':'' @ ''443'') ''*.evil.com:443''" by code_simp
  then show "fst (Evaluate (\<lambda>_ _. False) mixed_engine ''x.evil.com'' ''443'' []) = DecisionAllow"
    by (intro Evaluate_meets_spec[THEN conjunct2, THEN conjunct2, THEN mp, of "e_rules mixed_engine ! 1" mixed_engine "[]"
        "''*.evil.com:443''" "''a.com:80''"]) (simp add: mixed_engine_def in_scope_def)
qed (rule mixed_documented)

text \<open>C17: The rule id that Evaluate reports is the id of the last applicable rule with the decision
  it returns; only when no rule with an allow or deny decision applies is it one of the two
  default names.\<close>

theorem Evaluate_reports_rule:
  "case Evaluate uf pe host port sb of
     (d, i) \<Rightarrow>
       (let hp = host @ '':'' @ port;
            rs = deciding uf hp sb (case d of DecisionAllow \<Rightarrow> ''allow'' | DecisionDeny \<Rightarrow> ''deny'') (e_rules pe)
        in if ranks uf hp sb (e_rules pe) = {}
           then i = (case d of DecisionAllow \<Rightarrow> ''default-allow'' | DecisionDeny \<Rightarrow> ''default-deny'')
           else rs \<noteq> [] \<and> i = r_ID (last rs))"
proof -
  let ?hp = "host @ CHR '':'' # port"
  let ?K = "ranks uf ?hp sb (e_rules pe)"
  note has = ranks_deciding[where uf = uf and hp = ?hp and sb = sb and rs = "e_rules pe"]
  note defs = Evaluate_def Let_def eval_flags eval_start_def
  consider "ExactAllow \<in> ?K" | "ExactAllow \<notin> ?K" "ExactDeny \<in> ?K"
    | "ExactAllow \<notin> ?K" "ExactDeny \<notin> ?K" "WildcardAllow \<in> ?K"
    | "ExactAllow \<notin> ?K" "ExactDeny \<notin> ?K" "WildcardAllow \<notin> ?K" "WildcardDeny \<in> ?K"
    | "?K = {}"
    unfolding ranks_empty_iff by blast
  then show ?thesis
  proof cases
    case 1
    then show ?thesis using has[OF 1] by (auto simp: defs eval_allowRuleID)
  next
    case 2
    then show ?thesis using has[OF 2(2)] by (auto simp: defs eval_denyRuleID)
  next
    case 3
    then show ?thesis using has[OF 3(3)] by (auto simp: defs eval_allowRuleID)
  next
    case 4
    then show ?thesis using has[OF 4(4)] by (auto simp: defs eval_denyRuleID)
  next
    case 5
    then show ?thesis by (simp add: defs)
  qed
qed

text \<open>C16: Rules scoped to another sandbox have no influence: Evaluate returns the same decision and
  the same rule id when every rule whose scope is neither empty nor the asking sandbox is
  deleted.\<close>

theorem Evaluate_scope_isolation:
  "Evaluate uf (pe\<lparr>e_rules := filter (in_scope sb) (e_rules pe)\<rparr>) host port sb =
   Evaluate uf pe host port sb"
  by (simp add: Evaluate_def foldl_eval_in_scope)

text \<open>The order of the rules and repetitions of a rule never change a decision.\<close>

theorem Evaluate_order_irrelevant:
  assumes "set (e_rules pe) = set (e_rules pe')" "e_defaultMode pe = e_defaultMode pe'"
  shows "fst (Evaluate uf pe host port sb) = fst (Evaluate uf pe' host port sb)"
  using ranks_cong[OF assms(1)] by (simp add: fst_Evaluate_eq_spec decision_spec_def assms(2))

theorem Evaluate_order_irrelevant_witness:
  "fst (Evaluate (\<lambda>_ _. False)
      \<lparr>e_rules = defaultRules, e_nextID = 3, e_policyPath = [], e_defaultMode = ''allow-all''\<rparr>
      ''a.io'' ''443'' []) =
   fst (Evaluate (\<lambda>_ _. False)
      \<lparr>e_rules = rev defaultRules @ defaultRules, e_nextID = 9, e_policyPath = [],
       e_defaultMode = ''allow-all''\<rparr> ''a.io'' ''443'' [])"
  by (rule Evaluate_order_irrelevant) simp_all

text \<open>A new engine denies every request, to any host and port and from any sandbox: the default
  rules only deny, and the default mode is not allow-all.\<close>

theorem NewEngine_denies_all:
  assumes "fst (NewEngine osx jm policyDir w) = Inr pe"
  shows "fst (Evaluate uf pe host port sb) = DecisionDeny"
proof (rule defaultRules_deny)
  show "e_rules pe = defaultRules" "e_defaultMode pe = ''balanced''"
    using assms by (auto simp: NewEngine_def newEngine_at_def Let_def
        split: if_splits sum.splits prod.splits option.splits)
qed

theorem NewEngine_denies_all_witness:
  "fst (Evaluate (\<lambda>_ _. False) sample_engine ''a.io'' ''22'' ''box'') = DecisionDeny"
proof (rule NewEngine_denies_all)
  show "fst (NewEngine mem_os (\<lambda>_. Inr []) ''/p'' Map.empty) = Inr sample_engine"
    by (simp add: sample_engine_def NewEngine_def newEngine_at_def mem_os_def defaultRules_def Join_def Clean_def Let_def)
qed

text \<open>C18: A resource \<^verbatim>\<open>*.d:p\<close> matches exactly the proper subdomains of d on port p (on every port
  when p is empty), for ASCII hosts and domains; the apex d itself never matches.\<close>

theorem match_wildcard_subdomain:
  assumes "CHR '':'' \<notin> set port" "CHR '':'' \<notin> set pp" "ascii host" "ascii domn"
  shows "matchHostPort uf (host @ '':'' @ port) (''*.'' @ domn @ '':'' @ pp) \<longleftrightarrow>
    (pp = [] \<or> pp = port) \<and> (\<exists>sub. host = sub @ ''.'' @ domn)"
  using assms by (rule match_subdomain)

theorem match_wildcard_subdomain_witness:
  "matchHostPort (\<lambda>_ _. False) (''x.io'' @ '':'' @ ''443'') (''*.'' @ ''io'' @ '':'' @ ''443'') \<longleftrightarrow>
    (''443'' = [] \<or> ''443'' = ''443'') \<and> (\<exists>sub. ''x.io'' = sub @ ''.'' @ ''io'')"
  by (rule match_wildcard_subdomain) (simp_all add: ascii_def)

text \<open>C19: A resource \<^verbatim>\<open>**.d:p\<close> does not match d itself, although the comment in matchHostPort says it
  does: after \<^verbatim>\<open>suffix[1:]\<close> the suffix that is compared still has its leading dot.\<close>

theorem match_double_star_excludes_apex:
  assumes "CHR '':'' \<notin> set port" "ascii domn"
  shows "\<not> matchHostPort uf (domn @ '':'' @ port) (''**.'' @ domn @ '':'' @ port)"
proof -
  have "\<not> EqualFold uf domn (''**.'' @ domn)"
    using EqualFold_length[of domn "''**.'' @ domn" uf] assms(2) by auto
  moreover have "domn \<noteq> sub @ ''.'' @ domn" for sub
    by (metis append_Cons append_Nil append_assoc append_self_conv2 list.distinct(1) snoc_eq_iff_butlast)
  ultimately show ?thesis
    using match_double_star[OF assms(1) assms(1), of uf domn domn] by blast
qed

theorem match_double_star_excludes_apex_witness:
  "\<not> matchHostPort (\<lambda>_ _. False) (''example.com'' @ '':'' @ ''443'') (''**.'' @ ''example.com'' @ '':'' @ ''443'')"
  by (rule match_double_star_excludes_apex) (simp_all add: ascii_def)

text \<open>While the id discipline holds and the counter has room, AddRule appends exactly one rule,
  with the given fields and an id no rule of the store has, and keeps the discipline.\<close>

theorem AddRule_fresh:
  assumes "ids_ok pe" "e_nextID pe < 2 ^ 63 - 1"
  shows "case AddRule osx jm name d res scope pe w of
    (r, pe', w') \<Rightarrow>
      (\<exists>rule. r = Inr rule \<and> e_rules pe' = e_rules pe @ [rule] \<and>
         r_ID rule \<notin> r_ID ` set (e_rules pe) \<and> r_Decision rule = d \<and>
         r_Resources rule = res \<and> r_Scope rule = scope) \<and> ids_ok pe'"
  using ids_ok_AddRule[OF assms, of osx jm name d res scope w] fresh_id[OF assms(1)]
  by (auto simp: AddRule_def Let_def)

theorem AddRule_fresh_witness:
  "case AddRule mem_os (\<lambda>_. Inr []) ''allow'' ''allow'' [''a.io:443''] [] sample_engine Map.empty of
    (r, pe', w') \<Rightarrow>
      (\<exists>rule. r = Inr rule \<and> e_rules pe' = e_rules sample_engine @ [rule] \<and>
         r_ID rule \<notin> r_ID ` set (e_rules sample_engine) \<and> r_Decision rule = ''allow'' \<and>
         r_Resources rule = [''a.io:443''] \<and> r_Scope rule = []) \<and> ids_ok pe'"
  by (rule AddRule_fresh) (simp_all add: ids_ok_sample, simp add: sample_engine_def)

text \<open>C20: Removing a rule by the id that AddRule gave it restores the rule list.\<close>

theorem AddRule_RemoveRule_roundtrip:
  assumes "ids_ok pe"
  shows "case AddRule osx jm name d res scope pe w of
    (Inr rule, pe1, w1) \<Rightarrow>
      (case RemoveRule osx jm (r_ID rule) pe1 w1 of (ok, pe2, w2) \<Rightarrow> ok \<and> e_rules pe2 = e_rules pe)
  | (Inl e, pe1, w1) \<Rightarrow> False"
proof -
  have "cut_rule (''rule-'' @ itoa (e_nextID pe)) (e_rules pe @
      [\<lparr>r_ID = ''rule-'' @ itoa (e_nextID pe), r_Name = name, r_Decision = d, r_Resources = res, r_Scope = scope\<rparr>])
    = Some (e_rules pe)"
    using fresh_id[OF assms] cut_rule_snoc[of "\<lparr>r_ID = ''rule-'' @ itoa (e_nextID pe), r_Name = name,
      r_Decision = d, r_Resources = res, r_Scope = scope\<rparr>"] by simp
  then show ?thesis by (simp add: AddRule_def RemoveRule_def Let_def)
qed

theorem AddRule_RemoveRule_roundtrip_witness:
  "case AddRule mem_os (\<lambda>_. Inr []) ''x'' ''deny'' [''b.io:80''] ''box'' sample_engine Map.empty of
    (Inr rule, pe1, w1) \<Rightarrow>
      (case RemoveRule mem_os (\<lambda>_. Inr []) (r_ID rule) pe1 w1 of
         (ok, pe2, w2) \<Rightarrow> ok \<and> e_rules pe2 = e_rules sample_engine)
  | (Inl e, pe1, w1) \<Rightarrow> False"
  by (rule AddRule_RemoveRule_roundtrip) (rule ids_ok_sample)

text \<open>Loading a rule set with distinct ids, none of them the largest 64-bit rule number,
  establishes the id discipline: the next rule that is added gets an id that no loaded rule
  has.\<close>

theorem LoadRules_establishes_ids:
  assumes "distinct (map r_ID rs)" "max_id rs < 2 ^ 63 - 1"
  shows "e_rules (fst (LoadRules osx jm rs pe w)) = rs \<and> ids_ok (fst (LoadRules osx jm rs pe w))"
proof
  show "ids_ok (fst (LoadRules osx jm rs pe w))"
    using assms max_id_ge(2) by (intro ids_ok_LoadRules) fastforce+
qed (simp add: LoadRules_def Let_def)

theorem LoadRules_establishes_ids_witness:
  "e_rules (fst (LoadRules mem_os (\<lambda>_. Inr []) defaultRules
      \<lparr>e_rules = [], e_nextID = 1, e_policyPath = [], e_defaultMode = []\<rparr> Map.empty)) = defaultRules \<and>
   ids_ok (fst (LoadRules mem_os (\<lambda>_. Inr []) defaultRules
      \<lparr>e_rules = [], e_nextID = 1, e_policyPath = [], e_defaultMode = []\<rparr> Map.empty))"
  by (rule LoadRules_establishes_ids) (simp_all add: defaultRules_def max_id_def Sscanf_rule_def)

end
