(* ===== verification/Secrets.thy ===== *)
theory Secrets
  imports Prelude
begin

text \<open>
  src/internal/secrets/secrets.go: sentinel replacement and log redaction. An HTTP header map is
  an association list whose order stands for the order in which Go ranges over the map.
  Replacement in bodies, replacement in headers and redaction are three runs of one scheme, a
  left-to-right pass over the secrets that rewrites the text by \<^verbatim>\<open>ReplaceAll\<close>; the scheme is the
  locale \<open>scrubber\<close>, and its results hold for each of them by interpretation.
\<close>

section \<open>Data\<close>

record CustomSecret =
  s_Target :: string
  s_EnvName :: string
  s_Sentinel :: string
  s_Value :: string

record SecretManager =
  sm_secrets :: "CustomSecret list"

type_synonym Header = "(string \<times> string list) list"

section \<open>Operations\<close>

definition NewSecretManager :: SecretManager where
  "NewSecretManager = \<lparr>sm_secrets = []\<rparr>"

definition SetSecrets :: "CustomSecret list \<Rightarrow> SecretManager \<Rightarrow> SecretManager" where
  "SetSecrets secrets sm = sm\<lparr>sm_secrets := secrets\<rparr>"

definition GetSecrets :: "SecretManager \<Rightarrow> CustomSecret list" where
  "GetSecrets sm = sm_secrets sm"

definition replace_sentinel :: "string \<Rightarrow> CustomSecret \<Rightarrow> string" where
  "replace_sentinel result s =
     (if s_Sentinel s \<noteq> [] \<and> Contains result (s_Sentinel s)
      then ReplaceAll result (s_Sentinel s) (s_Value s) else result)"

definition ReplaceSentinelsInBody :: "SecretManager \<Rightarrow> string \<Rightarrow> string" where
  "ReplaceSentinelsInBody sm body =
     (if length (sm_secrets sm) = 0 then body else foldl replace_sentinel body (sm_secrets sm))"

definition ReplaceSentinelsInHeaders :: "SecretManager \<Rightarrow> Header \<Rightarrow> Header" where
  "ReplaceSentinelsInHeaders sm headers =
     (if length (sm_secrets sm) = 0 then headers
      else map (\<lambda>(k, vals). (k, map (\<lambda>v. foldl replace_sentinel v (sm_secrets sm)) vals)) headers)"

definition redact_value :: "string \<Rightarrow> CustomSecret \<Rightarrow> string" where
  "redact_value redacted s =
     (if s_Value s \<noteq> [] \<and> s_Value s \<noteq> s_Sentinel s \<and> Contains redacted (s_Value s)
      then ReplaceAll redacted (s_Value s) ''[REDACTED]'' else redacted)"

definition RedactSecretsInHeader :: "SecretManager \<Rightarrow> string \<Rightarrow> string" where
  "RedactSecretsInHeader sm value = foldl redact_value value (sm_secrets sm)"

section \<open>The scheme\<close>

locale scrubber =
  fixes scrub :: "string \<Rightarrow> 'a \<Rightarrow> string"
    and active :: "'a \<Rightarrow> bool"
    and key :: "'a \<Rightarrow> string"
    and repl :: "'a \<Rightarrow> string"
  assumes scrub_eq:
    "scrub r s = (if active s \<and> sublist (key s) r then ReplaceAll r (key s) (repl s) else r)"
    and key_not_Nil: "active s \<Longrightarrow> key s \<noteq> []"
begin

lemma scrub_keeps_absent:
  "apart v (repl s) \<Longrightarrow> \<not> sublist v r \<Longrightarrow> \<not> sublist v (scrub r s)"
  using sublist_ReplaceAll by (auto simp: scrub_eq)

lemma scrub_removes_key:
  "active s \<Longrightarrow> apart (key s) (repl s) \<Longrightarrow> \<not> sublist (key s) (scrub r s)"
  using ReplaceAll_eliminates key_not_Nil by (auto simp: scrub_eq)

lemma foldl_scrub_absent:
  "\<forall>s \<in> set ss. active s \<longrightarrow> apart v (repl s) \<Longrightarrow> \<not> sublist v r \<Longrightarrow> \<not> sublist v (foldl scrub r ss)"
proof (induction ss arbitrary: r)
  case Nil
  then show ?case by simp
next
  case (Cons s ss)
  have "\<not> sublist v (scrub r s)"
    using Cons.prems sublist_ReplaceAll by (auto simp: scrub_eq)
  with Cons show ?case by simp
qed

lemma foldl_scrub_removes_keys:
  assumes "\<forall>s \<in> set ss. \<forall>t \<in> set ss. active s \<longrightarrow> active t \<longrightarrow> apart (key s) (repl t)"
    and "s \<in> set ss" "active s"
  shows "\<not> sublist (key s) (foldl scrub r ss)"
proof -
  obtain xs ys where ss: "ss = xs @ s # ys" using assms(2) by (meson split_list)
  have "apart (key s) (repl s)" using assms by blast
  then have "\<not> sublist (key s) (scrub (foldl scrub r xs) s)"
    using assms(3) scrub_removes_key by blast
  moreover have "\<forall>t \<in> set ys. active t \<longrightarrow> apart (key s) (repl t)" using assms ss by auto
  ultimately show ?thesis using foldl_scrub_absent ss by simp
qed

lemma foldl_scrub_id:
  "\<forall>s \<in> set ss. active s \<longrightarrow> \<not> sublist (key s) r \<Longrightarrow> foldl scrub r ss = r"
  by (induction ss) (auto simp: scrub_eq)

end

interpretation sentinel: scrubber replace_sentinel "\<lambda>s. s_Sentinel s \<noteq> []" s_Sentinel s_Value
  by unfold_locales (auto simp: replace_sentinel_def)

interpretation redact: scrubber redact_value "\<lambda>s. s_Value s \<noteq> [] \<and> s_Value s \<noteq> s_Sentinel s" s_Value
  "\<lambda>_. ''[REDACTED]''"
  by unfold_locales (auto simp: redact_value_def)

section \<open>Lemmas\<close>

lemma Body_foldl: "ReplaceSentinelsInBody sm body = foldl replace_sentinel body (sm_secrets sm)"
  by (simp add: ReplaceSentinelsInBody_def)

lemma Headers_map:
  "ReplaceSentinelsInHeaders sm headers =
     map (\<lambda>(k, vals). (k, map (ReplaceSentinelsInBody sm) vals)) headers"
proof (cases "sm_secrets sm = []")
  case True
  then have "ReplaceSentinelsInBody sm = id" by (auto simp: ReplaceSentinelsInBody_def)
  then show ?thesis using True by (simp add: ReplaceSentinelsInHeaders_def)
next
  case False
  then show ?thesis
    by (simp add: ReplaceSentinelsInHeaders_def Body_foldl[abs_def])
qed

lemma ReplaceAll_first:
  "\<not> sublist old (pre @ butlast old) \<Longrightarrow> old \<noteq> [] \<Longrightarrow>
     ReplaceAll (pre @ old @ post) old new = pre @ new @ ReplaceAll post old new"
proof (induction pre)
  case Nil
  then show ?case by (simp add: ReplaceAll_hit)
next
  case (Cons c pre)
  have "\<not> prefix old (c # pre @ old @ post)"
  proof
    assume pre: "prefix old (c # pre @ old @ post)"
    have "prefix (butlast old) old" by (rule prefixeq_butlast)
    then have "prefix (c # pre @ butlast old) (c # pre @ old @ post)"
      by (simp add: prefix_def) (metis append_assoc)
    then have "prefix old (c # pre @ butlast old)"
      using prefix_length_prefix[OF pre] by simp
    then show False using Cons.prems(1) by (simp add: prefix_imp_sublist)
  qed
  moreover have "\<not> sublist old (pre @ butlast old)"
    using Cons.prems(1) by (simp add: sublist_Cons_right)
  ultimately show ?case using Cons.IH Cons.prems(2) by (simp add: ReplaceAll_miss)
qed

section \<open>Properties\<close>

text \<open>A text in which no sentinel of the manager occurs passes through the body replacement
  unchanged.\<close>

theorem body_without_sentinels_unchanged:
  assumes "\<forall>s \<in> set (sm_secrets sm). s_Sentinel s \<noteq> [] \<longrightarrow> \<not> Contains body (s_Sentinel s)"
  shows "ReplaceSentinelsInBody sm body = body"
  using assms by (simp add: Body_foldl sentinel.foldl_scrub_id)

theorem body_without_sentinels_unchanged_witness:
  "ReplaceSentinelsInBody
     \<lparr>sm_secrets = [\<lparr>s_Target = ''api'', s_EnvName = ''K'', s_Sentinel = ''@K@'', s_Value = ''42''\<rparr>]\<rparr>
     ''hello'' = ''hello''"
  by (rule body_without_sentinels_unchanged) (simp add: sublist_code prefix_code)

text \<open>C21: The first occurrence of a single secret's sentinel is replaced by the value, the text
  before it is kept, and replacement goes on behind the sentinel, never inside the inserted
  value.\<close>

theorem body_first_sentinel_replaced:
  assumes "sm_secrets sm = [s]" "s_Sentinel s \<noteq> []"
    and "\<not> Contains (pre @ butlast (s_Sentinel s)) (s_Sentinel s)"
  shows "ReplaceSentinelsInBody sm (pre @ s_Sentinel s @ post) =
    pre @ s_Value s @ ReplaceSentinelsInBody sm post"
proof -
  have "ReplaceAll post (s_Sentinel s) (s_Value s) = replace_sentinel post s"
    using assms(2) ReplaceAll_id by (simp add: replace_sentinel_def)
  moreover have "sublist (s_Sentinel s) (pre @ s_Sentinel s @ post)" by simp
  ultimately show ?thesis
    using assms ReplaceAll_first by (simp add: Body_foldl replace_sentinel_def)
qed

theorem body_first_sentinel_replaced_witness:
  "ReplaceSentinelsInBody
     \<lparr>sm_secrets = [\<lparr>s_Target = ''api'', s_EnvName = ''K'', s_Sentinel = ''@K@'', s_Value = ''@K@42''\<rparr>]\<rparr>
     (''k='' @ ''@K@'' @ '';'') = ''k='' @ ''@K@42'' @ '';''"
proof -
  define s where "s = \<lparr>s_Target = ''api'', s_EnvName = ''K'', s_Sentinel = ''@K@'', s_Value = ''@K@42''\<rparr>"
  have "ReplaceSentinelsInBody \<lparr>sm_secrets = [s]\<rparr> (''k='' @ s_Sentinel s @ '';'') =
      ''k='' @ s_Value s @ ReplaceSentinelsInBody \<lparr>sm_secrets = [s]\<rparr> '';''"
    by (rule body_first_sentinel_replaced) (simp_all add: s_def sublist_code prefix_code)
  moreover have "ReplaceSentinelsInBody \<lparr>sm_secrets = [s]\<rparr> '';'' = '';''"
    by (simp add: Body_foldl replace_sentinel_def s_def sublist_code prefix_code)
  ultimately show ?thesis by (simp add: s_def)
qed

text \<open>C9: When no sentinel can overlap an inserted value, no sentinel is left in a body after
  replacement, whatever the order of the secrets.\<close>

theorem body_has_no_sentinel_left:
  assumes "\<forall>s \<in> set (sm_secrets sm). \<forall>t \<in> set (sm_secrets sm).
      s_Sentinel s \<noteq> [] \<longrightarrow> s_Sentinel t \<noteq> [] \<longrightarrow> apart (s_Sentinel s) (s_Value t)"
    and "s \<in> set (sm_secrets sm)" "s_Sentinel s \<noteq> []"
  shows "\<not> Contains (ReplaceSentinelsInBody sm body) (s_Sentinel s)"
  using assms by (simp add: Body_foldl sentinel.foldl_scrub_removes_keys)

theorem body_has_no_sentinel_left_witness:
  "\<not> Contains (ReplaceSentinelsInBody
     \<lparr>sm_secrets = [\<lparr>s_Target = ''api'', s_EnvName = ''K'', s_Sentinel = ''@K@'', s_Value = ''42''\<rparr>]\<rparr>
     ''a@K@b@K@'') ''@K@''"
proof -
  define s where "s = \<lparr>s_Target = ''api'', s_EnvName = ''K'', s_Sentinel = ''@K@'', s_Value = ''42''\<rparr>"
  have "\<not> Contains (ReplaceSentinelsInBody \<lparr>sm_secrets = [s]\<rparr> ''a@K@b@K@'') (s_Sentinel s)"
    by (rule body_has_no_sentinel_left)
      (simp_all add: s_def apart_def sublist_code prefix_code suffix_to_prefix)
  then show ?thesis by (simp add: s_def)
qed

text \<open>C22: Redaction of a header value leaves no secret value in it, for secrets whose value differs
  from their sentinel, when no value can overlap the text \<^verbatim>\<open>[REDACTED]\<close>.\<close>

theorem redaction_removes_values:
  assumes "\<forall>s \<in> set (sm_secrets sm). s_Value s \<noteq> [] \<and> s_Value s \<noteq> s_Sentinel s \<longrightarrow>
      apart (s_Value s) ''[REDACTED]''"
    and "s \<in> set (sm_secrets sm)" "s_Value s \<noteq> []" "s_Value s \<noteq> s_Sentinel s"
  shows "\<not> Contains (RedactSecretsInHeader sm value) (s_Value s)"
  unfolding RedactSecretsInHeader_def
  by (rule redact.foldl_scrub_removes_keys) (use assms in blast)+

theorem redaction_removes_values_witness:
  "\<not> Contains (RedactSecretsInHeader
     \<lparr>sm_secrets = [\<lparr>s_Target = ''api'', s_EnvName = ''K'', s_Sentinel = ''@K@'', s_Value = ''s3''\<rparr>]\<rparr>
     ''token s3s3'') ''s3''"
proof -
  define s where "s = \<lparr>s_Target = ''api'', s_EnvName = ''K'', s_Sentinel = ''@K@'', s_Value = ''s3''\<rparr>"
  have "\<not> Contains (RedactSecretsInHeader \<lparr>sm_secrets = [s]\<rparr> ''token s3s3'') (s_Value s)"
    by (rule redaction_removes_values)
      (simp_all add: s_def apart_def sublist_code prefix_code suffix_to_prefix)
  then show ?thesis by (simp add: s_def)
qed

text \<open>Header replacement keeps the keys, their order and the number of values, and treats each
  value exactly as a body.\<close>

theorem headers_replaced_as_bodies:
  "ReplaceSentinelsInHeaders sm headers =
     map (\<lambda>(k, vals). (k, map (ReplaceSentinelsInBody sm) vals)) headers"
  by (rule Headers_map)

end
