(* ===== verification/GoHttp.thy ===== *)
theory GoHttp
  imports Secrets GoFmt
begin

text \<open>
  The parts of Go's package net/http the proxy uses: the header map and its operations, requests,
  responses, \<^verbatim>\<open>StatusText\<close>. Header keys are in canonical form, as they are after parsing and as
  every constant in the sources is.
\<close>

section \<open>Headers\<close>

definition header_Get :: "Header \<Rightarrow> string \<Rightarrow> string" where
  "header_Get h k = (case map_of h k of Some (v # _) \<Rightarrow> v | _ \<Rightarrow> [])"

definition header_Del :: "Header \<Rightarrow> string \<Rightarrow> Header" where
  "header_Del h k = filter (\<lambda>e. fst e \<noteq> k) h"

fun header_Set :: "Header \<Rightarrow> string \<Rightarrow> string \<Rightarrow> Header" where
  "header_Set [] k v = [(k, [v])]"
| "header_Set (e # h) k v = (if fst e = k then (k, [v]) # h else e # header_Set h k v)"

fun header_Add :: "Header \<Rightarrow> string \<Rightarrow> string \<Rightarrow> Header" where
  "header_Add [] k v = [(k, [v])]"
| "header_Add (e # h) k v = (if fst e = k then (k, snd e @ [v]) # h else e # header_Add h k v)"

lemma header_Get_Set [simp]: "header_Get (header_Set h k v) k = v"
  by (induction h) (auto simp: header_Get_def)

lemma map_of_header_Set: "map_of (header_Set h k v) = (map_of h)(k \<mapsto> [v])"
  by (induction h) auto

lemma map_of_header_Del: "map_of (header_Del h k) = (map_of h)(k := None)"
  by (induction h) (auto simp: header_Del_def)

lemma header_Del_Set [simp]: "distinct (map fst h) \<Longrightarrow> header_Del (header_Set h k v) k = header_Del h k"
  by (induction h) (auto simp: header_Del_def filter_empty_conv filter_id_conv image_iff intro!: filter_cong)

section \<open>Requests and responses\<close>

record URL =
  u_Scheme :: string
  u_Host :: string
  u_Path :: string
  u_RawQuery :: string

record Request =
  rq_Method :: string
  rq_Host :: string
  rq_Header :: Header
  rq_Body :: "string option"
  rq_ContentLength :: int
  rq_URL :: URL
  rq_RequestURI :: string
  rq_RemoteAddr :: string

record Response =
  rs_StatusCode :: int
  rs_Header :: Header
  rs_Body :: "string option"
  rs_ContentLength :: int

section \<open>Status lines\<close>

definition status_texts :: "(int \<times> string) list" where
  "status_texts =
    [(100, ''Continue''), (101, ''Switching Protocols''), (102, ''Processing''), (103, ''Early Hints''),
     (200, ''OK''), (201, ''Created''), (202, ''Accepted''), (203, ''Non-Authoritative Information''),
     (204, ''No Content''), (205, ''Reset Content''), (206, ''Partial Content''), (207, ''Multi-Status''),
     (208, ''Already Reported''), (226, ''IM Used''),
     (300, ''Multiple Choices''), (301, ''Moved Permanently''), (302, ''Found''), (303, ''See Other''),
     (304, ''Not Modified''), (305, ''Use Proxy''), (307, ''Temporary Redirect''), (308, ''Permanent Redirect''),
     (400, ''Bad Request''), (401, ''Unauthorized''), (402, ''Payment Required''), (403, ''Forbidden''),
     (404, ''Not Found''), (405, ''Method Not Allowed''), (406, ''Not Acceptable''),
     (407, ''Proxy Authentication Required''), (408, ''Request Timeout''), (409, ''Conflict''), (410, ''Gone''),
     (411, ''Length Required''), (412, ''Precondition Failed''), (413, ''Request Entity Too Large''),
     (414, ''Request URI Too Long''), (415, ''Unsupported Media Type''), (416, ''Requested Range Not Satisfiable''),
     (417, ''Expectation Failed''), (418, ''I'' @ [CHR 0x27] @ ''m a teapot''), (421, ''Misdirected Request''),
     (422, ''Unprocessable Entity''), (423, ''Locked''), (424, ''Failed Dependency''), (425, ''Too Early''),
     (426, ''Upgrade Required''), (428, ''Precondition Required''), (429, ''Too Many Requests''),
     (431, ''Request Header Fields Too Large''), (451, ''Unavailable For Legal Reasons''),
     (500, ''Internal Server Error''), (501, ''Not Implemented''), (502, ''Bad Gateway''),
     (503, ''Service Unavailable''), (504, ''Gateway Timeout''), (505, ''HTTP Version Not Supported''),
     (506, ''Variant Also Negotiates''), (507, ''Insufficient Storage''), (508, ''Loop Detected''),
     (510, ''Not Extended''), (511, ''Network Authentication Required'')]"

definition StatusText :: "int \<Rightarrow> string" where
  "StatusText code = (case map_of status_texts code of Some t \<Rightarrow> t | None \<Rightarrow> [])"

definition crlf :: string where
  "crlf = [CHR 0x0D, CHR 0x0A]"

definition newline :: string where
  "newline = [CHR 0x0A]"

end
