(* ===== verification/GoNet.thy ===== *)
theory GoNet
  imports GoFmt
begin

text \<open>
  The parts of Go's package net the sources use: \<^verbatim>\<open>net.IP.String\<close>, \<^verbatim>\<open>SplitHostPort\<close>,
  \<^verbatim>\<open>JoinHostPort\<close>, and reading a 16-bit port in network byte order. A \<^verbatim>\<open>net.IP\<close> is its list of
  bytes (4 or 16 of them), as in Go.
\<close>

unbundle bit_operations_syntax

section \<open>Bytes\<close>

definition byte_val :: "char \<Rightarrow> nat" where
  "byte_val c = of_char c"

lemma byte_val_less [simp]: "byte_val c < 256"
  by (simp add: byte_val_def)

text \<open>\<^verbatim>\<open>int(b[0])<<8 | int(b[1])\<close>\<close>

definition be16 :: "char \<Rightarrow> char \<Rightarrow> nat" where
  "be16 hi lo = push_bit 8 (byte_val hi) OR byte_val lo"

lemma push_bit_or_add:
  assumes "b < (2::nat) ^ n"
  shows "push_bit n a OR b = a * 2 ^ n + b"
proof -
  have b: "take_bit n b = b" using assms by (simp add: take_bit_nat_eq_self)
  have "push_bit n a AND take_bit n b = 0"
    by (rule bit_eqI) (simp add: bit_simps)
  then have "push_bit n a AND b = 0" using b by simp
  then have "push_bit n a OR b = push_bit n a + b"
    by (simp add: disjunctive_add_eq_or)
  then show ?thesis by (simp add: push_bit_eq_mult)
qed

lemma be16_eq: "be16 hi lo = 256 * byte_val hi + byte_val lo"
  using push_bit_or_add[of "byte_val lo" 8 "byte_val hi"] by (simp add: be16_def)

lemma be16_less: "be16 hi lo < 65536"
  using byte_val_less[of hi] byte_val_less[of lo] unfolding be16_eq by linarith

section \<open>IP addresses\<close>

definition hex_digit :: "nat \<Rightarrow> char" where
  "hex_digit d = ''0123456789abcdef'' ! d"

fun nat_hex :: "nat \<Rightarrow> string" where
  "nat_hex n = (if n < 16 then [hex_digit n] else nat_hex (n div 16) @ [hex_digit (n mod 16)])"

declare nat_hex.simps [simp del]

definition hexString :: "string \<Rightarrow> string" where
  "hexString bs = concat (map (\<lambda>b. [hex_digit (byte_val b div 16), hex_digit (byte_val b mod 16)]) bs)"

fun dotted :: "string \<Rightarrow> string" where
  "dotted [] = []"
| "dotted [b] = nat_dec (byte_val b)"
| "dotted (b # bs) = nat_dec (byte_val b) @ ''.'' @ dotted bs"

fun groups16 :: "string \<Rightarrow> nat list" where
  "groups16 (a # b # bs) = be16 a b # groups16 bs"
| "groups16 _ = []"

text \<open>The longest run of at least two zero groups, the first one among equals.\<close>

definition zero_run :: "nat list \<Rightarrow> nat \<Rightarrow> nat" where
  "zero_run gs i = length (takeWhile (\<lambda>g. g = 0) (drop i gs))"

definition best_run :: "nat list \<Rightarrow> (nat \<times> nat) option" where
  "best_run gs =
     foldl (\<lambda>best i.
        let l = zero_run gs i in
        if 2 \<le> l \<and> (case best of None \<Rightarrow> True | Some (s, n) \<Rightarrow> n < l) then Some (i, l) else best)
       None [0..<length gs]"

fun colons :: "nat list \<Rightarrow> string" where
  "colons [] = []"
| "colons [g] = nat_hex g"
| "colons (g # gs) = nat_hex g @ '':'' @ colons gs"

definition ip6_string :: "string \<Rightarrow> string" where
  "ip6_string bs =
     (let gs = groups16 bs in
      case best_run gs of
        None \<Rightarrow> colons gs
      | Some (s, n) \<Rightarrow> colons (take s gs) @ ''::'' @ colons (drop (s + n) gs))"

definition is_v4_mapped :: "string \<Rightarrow> bool" where
  "is_v4_mapped bs \<longleftrightarrow> take 12 bs = replicate 10 (CHR 0x00) @ [CHR 0xFF, CHR 0xFF]"

definition IP_String :: "string \<Rightarrow> string" where
  "IP_String ip =
     (if length ip = 0 then ''<nil>''
      else if length ip = 4 then dotted ip
      else if length ip = 16 then (if is_v4_mapped ip then dotted (drop 12 ip) else ip6_string ip)
      else ''?'' @ hexString ip)"

text \<open>\<^verbatim>\<open>IP.To4\<close> and \<^verbatim>\<open>IP.Equal\<close>: an IPv4 address equals its mapped 16-byte form.\<close>

definition To4 :: "string \<Rightarrow> string option" where
  "To4 ip =
     (if length ip = 4 then Some ip
      else if length ip = 16 \<and> is_v4_mapped ip then Some (drop 12 ip) else None)"

definition IP_Equal :: "string \<Rightarrow> string \<Rightarrow> bool" where
  "IP_Equal ip x =
     (if length ip = length x then ip = x
      else if length ip = 4 \<and> length x = 16 then is_v4_mapped x \<and> ip = drop 12 x
      else if length ip = 16 \<and> length x = 4 then is_v4_mapped ip \<and> drop 12 ip = x
      else False)"

definition IsLoopback :: "string \<Rightarrow> bool" where
  "IsLoopback ip =
     (case To4 ip of
        Some ip4 \<Rightarrow> byte_val (hd ip4) = 127
      | None \<Rightarrow> ip = replicate 15 (CHR 0x00) @ [CHR 0x01])"

section \<open>host:port\<close>

datatype addr_error = MissingPort | TooManyColons | MissingBracket | UnexpectedOpen | UnexpectedClose

definition SplitHostPort :: "string \<Rightarrow> addr_error + (string \<times> string)" where
  "SplitHostPort hostport =
     (case LastIndex hostport (CHR '':'') of
        None \<Rightarrow> Inl MissingPort
      | Some i \<Rightarrow>
          (let finish = (\<lambda>host j k.
             if CHR ''['' \<in> set (drop j hostport) then Inl UnexpectedOpen
             else if CHR '']'' \<in> set (drop k hostport) then Inl UnexpectedClose
             else Inr (host, drop (i + 1) hostport)) in
           if hd hostport = CHR ''['' then
             (case Index hostport (CHR '']'') of
                None \<Rightarrow> Inl MissingBracket
              | Some e \<Rightarrow>
                  (if e + 1 = length hostport then Inl MissingPort
                   else if e + 1 = i then finish (drop 1 (take e hostport)) 1 (e + 1)
                   else if hostport ! (e + 1) = CHR '':'' then Inl TooManyColons
                   else Inl MissingPort))
           else if CHR '':'' \<in> set (take i hostport) then Inl TooManyColons
           else finish (take i hostport) 0 0))"

definition JoinHostPort :: "string \<Rightarrow> string \<Rightarrow> string" where
  "JoinHostPort host port =
     (if CHR '':'' \<in> set host then ''['' @ host @ '']:'' @ port else host @ '':'' @ port)"

lemma SplitHostPort_JoinHostPort:
  assumes "CHR '':'' \<notin> set port" "CHR ''['' \<notin> set host" "CHR '']'' \<notin> set host"
    "CHR ''['' \<notin> set port" "CHR '']'' \<notin> set port"
  shows "SplitHostPort (JoinHostPort host port) = Inr (host, port)"
proof (cases "CHR '':'' \<in> set host")
  case True
  let ?s = "CHR ''['' # host @ CHR '']'' # CHR '':'' # port"
  have "LastIndex ?s (CHR '':'') = Some (length host + 2)"
    using LastIndex_append[OF assms(1), of "CHR ''['' # host @ [CHR '']'']"] by simp
  moreover have "Index (xs @ CHR '']'' # ys) (CHR '']'') = Some (length xs)"
    if "CHR '']'' \<notin> set xs" for xs ys using that by (induction xs) auto
  then have "Index ?s (CHR '']'') = Some (length host + 1)"
    using assms(3) by simp
  ultimately show ?thesis
    using True assms by (simp add: JoinHostPort_def SplitHostPort_def Let_def)
next
  case False
  then have "LastIndex (host @ CHR '':'' # port) (CHR '':'') = Some (length host)"
    using LastIndex_append[OF assms(1)] by simp
  moreover have "hd (host @ CHR '':'' # port) \<noteq> CHR ''[''"
    using assms(2) by (cases host) auto
  ultimately show ?thesis
    using False assms by (simp add: JoinHostPort_def SplitHostPort_def Let_def)
qed

lemma nat_dec_no_colon [simp]: "CHR '':'' \<notin> set (nat_dec n)"
proof -
  have "\<not> is_digit (CHR '':'')" by (simp add: is_digit_def)
  then show ?thesis using nat_dec_digits[of n] by blast
qed

lemma dotted_no_colon: "CHR '':'' \<notin> set (dotted bs)"
  by (induction bs rule: dotted.induct) auto

end
