(* ===== verification/ProxyState.thy ===== *)
theory ProxyState
  imports Policy GoHttp GoNet
begin

text \<open>
  src/internal/proxy/proxy.go, first part: the \<open>Proxy\<close> struct, its constructor, toggles, metrics
  and the start and stop of the listener. The counters are Go \<^verbatim>\<open>int64\<close> values updated atomically,
  with 64-bit wrap-around. What a connection handler does to the outside is a list of events;
  the network and the peers are the parameter \<open>netenv\<close>.
\<close>

section \<open>State\<close>

record Proxy =
  px_policy :: Engine
  px_secrets :: SecretManager
  px_httpAddr :: string
  px_listener :: "string option"
  px_running :: bool
  px_blockedHosts :: "string \<Rightarrow> int option"
  px_socks5Enabled :: bool
  px_rawTCPEnabled :: bool
  px_sandboxName :: string
  px_activeConns :: int
  px_maxConnections :: int
  px_rawTCPIdleTimeout :: int
  px_connsTotalHTTP :: int
  px_connsTotalCONNECT :: int
  px_connsTotalSOCKS5 :: int
  px_connsTotalRawTCP :: int
  px_deniedTotal :: int

definition NewProxy :: "Engine \<Rightarrow> SecretManager \<Rightarrow> string \<Rightarrow> Proxy" where
  "NewProxy pol sec addr =
     \<lparr>px_policy = pol, px_secrets = sec,
      px_httpAddr = (if addr = [] then '':3128'' else addr),
      px_listener = None, px_running = False, px_blockedHosts = (\<lambda>_. None),
      px_socks5Enabled = True, px_rawTCPEnabled = True, px_sandboxName = [],
      px_activeConns = 0, px_maxConnections = 0, px_rawTCPIdleTimeout = 0,
      px_connsTotalHTTP = 0, px_connsTotalCONNECT = 0, px_connsTotalSOCKS5 = 0,
      px_connsTotalRawTCP = 0, px_deniedTotal = 0\<rparr>"

section \<open>The environment of a connection\<close>

text \<open>
  \<open>n_ReadRequest\<close> is \<^verbatim>\<open>http.ReadRequest\<close> on the bytes the client sends, \<open>n_mitm\<close> the requests (or
  read errors) that come out of the TLS session of a CONNECT tunnel, \<open>n_roundtrip\<close> the answer of
  the upstream to the n-th request of a connection, \<open>n_orig_dst\<close> the 16 bytes of the socket
  option SO_ORIGINAL_DST or the error of getting them.
\<close>

record netenv =
  n_ReadRequest :: "string \<Rightarrow> goerror + Request"
  n_mitm :: "(goerror + Request) list"
  n_established_err :: "goerror option"
  n_handshake_err :: "goerror option"
  n_roundtrip :: "nat \<Rightarrow> Request \<Rightarrow> goerror + Response"
  n_dial_err :: "string \<Rightarrow> goerror option"
  n_orig_dst :: "goerror + string"
  n_local_ips :: "string list"
  n_now :: int

datatype event =
    EvWrite string
  | EvClose
  | EvDial string
  | EvTunnel string string int
  | EvUpstreamClose
  | EvHandshake
  | EvRoundTrip Request
  | EvTLSWrite Response
  | EvTLSClose

text \<open>A network in which nothing answers, for concrete statements.\<close>

definition quiet_net :: netenv where
  "quiet_net =
     \<lparr>n_ReadRequest = (\<lambda>_. Inl ''EOF''), n_mitm = [], n_established_err = None, n_handshake_err = None,
      n_roundtrip = (\<lambda>_ _. Inl ''connection refused''), n_dial_err = (\<lambda>_. Some ''connection refused''),
      n_orig_dst = Inl ''not a TCP connection'', n_local_ips = [], n_now = 0\<rparr>"

section \<open>Toggles\<close>

definition SetSOCKS5Enabled :: "bool \<Rightarrow> Proxy \<Rightarrow> Proxy" where
  "SetSOCKS5Enabled enabled p = p\<lparr>px_socks5Enabled := enabled\<rparr>"

definition SetRawTCPEnabled :: "bool \<Rightarrow> Proxy \<Rightarrow> Proxy" where
  "SetRawTCPEnabled enabled p = p\<lparr>px_rawTCPEnabled := enabled\<rparr>"

definition SetSandboxName :: "string \<Rightarrow> Proxy \<Rightarrow> Proxy" where
  "SetSandboxName name p = p\<lparr>px_sandboxName := name\<rparr>"

definition SetMaxConnections :: "int \<Rightarrow> Proxy \<Rightarrow> Proxy" where
  "SetMaxConnections m p = p\<lparr>px_maxConnections := m\<rparr>"

definition SetRawTCPIdleTimeout :: "int \<Rightarrow> Proxy \<Rightarrow> Proxy" where
  "SetRawTCPIdleTimeout d p = p\<lparr>px_rawTCPIdleTimeout := d\<rparr>"

section \<open>Start, accept, stop\<close>

definition Start :: "(string \<Rightarrow> goerror + string) \<Rightarrow> Proxy \<Rightarrow> goerror option \<times> Proxy" where
  "Start listen p =
     (if px_running p then (Some ''proxy already running'', p)
      else (case listen (px_httpAddr p) of
              Inl e \<Rightarrow> (Some (''proxy listen on '' @ px_httpAddr p @ '': '' @ e), p)
            | Inr a \<Rightarrow> (None, p\<lparr>px_listener := Some a, px_running := True\<rparr>)))"

text \<open>One turn of the accept loop: a connection is handed to a new goroutine, an error ends the
  loop once the proxy is stopped.\<close>

datatype accept_action = Spawn | Retry | Leave

definition accept_turn :: "Proxy \<Rightarrow> bool \<Rightarrow> accept_action" where
  "accept_turn p accepted =
     (if accepted then Spawn else if \<not> px_running p then Leave else Retry)"

text \<open>\<open>close_err\<close> is what closing the listener returns.\<close>

definition Stop :: "goerror option \<Rightarrow> Proxy \<Rightarrow> goerror option \<times> Proxy" where
  "Stop close_err p =
     (if \<not> px_running p then (None, p)
      else
        (let p1 = p\<lparr>px_running := False\<rparr> in
         case px_listener p of
           Some _ \<Rightarrow> (close_err, p1)
         | None \<Rightarrow> (None, p1)))"

definition Addr :: "Proxy \<Rightarrow> string option" where
  "Addr p = px_listener p"

section \<open>Metrics\<close>

record MetricsSnapshot =
  m_ActiveConns :: int
  m_CONNECTTotal :: int
  m_HTTPTotal :: int
  m_SOCKS5Total :: int
  m_RawTCPTotal :: int
  m_DeniedTotal :: int

definition Metrics :: "Proxy \<Rightarrow> MetricsSnapshot" where
  "Metrics p =
     \<lparr>m_ActiveConns = px_activeConns p, m_CONNECTTotal = px_connsTotalCONNECT p,
      m_HTTPTotal = px_connsTotalHTTP p, m_SOCKS5Total = px_connsTotalSOCKS5 p,
      m_RawTCPTotal = px_connsTotalRawTCP p, m_DeniedTotal = px_deniedTotal p\<rparr>"

definition incConn :: "string \<Rightarrow> Proxy \<Rightarrow> Proxy" where
  "incConn protocol p =
     (if protocol = ''http'' then p\<lparr>px_connsTotalHTTP := int64 (px_connsTotalHTTP p + 1)\<rparr>
      else if protocol = ''connect'' then p\<lparr>px_connsTotalCONNECT := int64 (px_connsTotalCONNECT p + 1)\<rparr>
      else if protocol = ''socks5'' then p\<lparr>px_connsTotalSOCKS5 := int64 (px_connsTotalSOCKS5 p + 1)\<rparr>
      else if protocol = ''rawtcp'' then p\<lparr>px_connsTotalRawTCP := int64 (px_connsTotalRawTCP p + 1)\<rparr>
      else p)"

definition incDenied :: "Proxy \<Rightarrow> Proxy" where
  "incDenied p = p\<lparr>px_deniedTotal := int64 (px_deniedTotal p + 1)\<rparr>"

section \<open>Frames\<close>

lemma incConn_frame [simp]:
  "px_policy (incConn pr p) = px_policy p"
  "px_secrets (incConn pr p) = px_secrets p"
  "px_sandboxName (incConn pr p) = px_sandboxName p"
  "px_deniedTotal (incConn pr p) = px_deniedTotal p"
  "px_activeConns (incConn pr p) = px_activeConns p"
  "px_maxConnections (incConn pr p) = px_maxConnections p"
  "px_blockedHosts (incConn pr p) = px_blockedHosts p"
  by (simp_all add: incConn_def)

lemma incDenied_frame [simp]:
  "px_policy (incDenied p) = px_policy p"
  "px_secrets (incDenied p) = px_secrets p"
  "px_sandboxName (incDenied p) = px_sandboxName p"
  "px_activeConns (incDenied p) = px_activeConns p"
  "px_maxConnections (incDenied p) = px_maxConnections p"
  "px_blockedHosts (incDenied p) = px_blockedHosts p"
  by (simp_all add: incDenied_def)

section \<open>Mediation as an interface\<close>

text \<open>
  The contract every connection handler shares. A handler is a function from its input to the
  events it causes; \<open>permits\<close> is the policy decision in force for that input. Whatever leaves the
  proxy, a dialled address or a request sent upstream, must belong to a host and port that the
  policy permits. \<open>reach\<close> says which addresses belong to a host and port (raw TCP also dials the
  loopback address for a local destination).
\<close>

fun outbound :: "event \<Rightarrow> string option" where
  "outbound (EvDial a) = Some a"
| "outbound (EvTunnel a _ _) = Some a"
| "outbound (EvRoundTrip r) = Some (u_Host (rq_URL r))"
| "outbound _ = None"

definition out_ok :: "(string \<Rightarrow> string \<Rightarrow> bool) \<Rightarrow> (string \<Rightarrow> string \<Rightarrow> string set) \<Rightarrow> string \<Rightarrow> bool" where
  "out_ok permits reach a \<longleftrightarrow> (\<exists>host port. permits host port \<and> a \<in> reach host port)"

definition mediated :: "(string \<Rightarrow> string \<Rightarrow> bool) \<Rightarrow> (string \<Rightarrow> string \<Rightarrow> string set) \<Rightarrow> event list \<Rightarrow> bool" where
  "mediated permits reach evs \<longleftrightarrow>
     (\<forall>e \<in> set evs. \<forall>a. outbound e = Some a \<longrightarrow> out_ok permits reach a)"

lemma mediated_Nil [simp]: "mediated pm rc []"
  by (simp add: mediated_def)

lemma mediated_append [simp]: "mediated pm rc (xs @ ys) \<longleftrightarrow> mediated pm rc xs \<and> mediated pm rc ys"
  by (auto simp: mediated_def)

lemma mediated_Cons [simp]:
  "mediated pm rc (e # ys) \<longleftrightarrow>
     (\<forall>a. outbound e = Some a \<longrightarrow> out_ok pm rc a) \<and> mediated pm rc ys"
  by (auto simp: mediated_def)

lemma out_okI: "permits host port \<Longrightarrow> a \<in> reach host port \<Longrightarrow> out_ok permits reach a"
  by (auto simp: out_ok_def)

locale mediated_handler =
  fixes events :: "'i \<Rightarrow> event list"
    and permits :: "'i \<Rightarrow> string \<Rightarrow> string \<Rightarrow> bool"
    and reach :: "'i \<Rightarrow> string \<Rightarrow> string \<Rightarrow> string set"
  assumes handler_mediated: "mediated (permits i) (reach i) (events i)"
begin

text \<open>A handler whose policy permits nothing lets nothing out.\<close>

lemma nothing_permitted_nothing_out:
  "(\<And>h q. \<not> permits i h q) \<Longrightarrow> e \<in> set (events i) \<Longrightarrow> outbound e = None"
  using handler_mediated[of i] unfolding mediated_def out_ok_def by (cases "outbound e") auto

end

end
