(* ===== verification/Tunnel.thy ===== *)
theory Tunnel
  imports ProxyState
begin

text \<open>
  src/internal/proxy/socks5.go and src/internal/proxy/rawtcp.go: the SOCKS5 handler, the handler
  of redirected TCP connections, and the bidirectional tunnel both end in. The bytes a client
  sends are one string, of which \<^verbatim>\<open>io.ReadFull\<close> takes from the front; the handler's value is the
  list of its effects on the client connection and on the network. The two copying goroutines
  of the tunnel are a step relation, so that every interleaving is covered.
\<close>

section \<open>SOCKS5\<close>

definition ReadFull :: "nat \<Rightarrow> string \<Rightarrow> (string \<times> string) option" where
  "ReadFull n inp = (if n \<le> length inp then Some (take n inp, drop n inp) else None)"

definition socks_reply :: "char \<Rightarrow> string" where
  "socks_reply code = [CHR 0x05, code, CHR 0x00, CHR 0x01] @ replicate 6 (CHR 0x00)"

text \<open>Method negotiation: what is written, and the rest of the input when the handler goes on.\<close>

definition socks_negotiate :: "string \<Rightarrow> event list \<times> string option" where
  "socks_negotiate inp =
     (case ReadFull 2 inp of
        None \<Rightarrow> ([], None)
      | Some (buf, rest) \<Rightarrow>
          (if buf ! 0 \<noteq> CHR 0x05 then ([], None)
           else
             (let nMethods = byte_val (buf ! 1) in
              if nMethods = 0 \<or> nMethods > 255 then ([], None)
              else (case ReadFull nMethods rest of
                      None \<Rightarrow> ([], None)
                    | Some (_, rest2) \<Rightarrow> ([EvWrite [CHR 0x05, CHR 0x00]], Some rest2)))))"

text \<open>The address of a request: an early return with what is written, or the host.\<close>

definition socks_address :: "char \<Rightarrow> string \<Rightarrow> event list + (string \<times> string)" where
  "socks_address atyp inp =
     (if atyp = CHR 0x01 then
        (case ReadFull 4 inp of
           None \<Rightarrow> Inl []
         | Some (buf, rest) \<Rightarrow> Inr (IP_String buf, rest))
      else if atyp = CHR 0x03 then
        (case ReadFull 1 inp of
           None \<Rightarrow> Inl []
         | Some (buf, rest) \<Rightarrow>
             (let domainLen = byte_val (buf ! 0) in
              if domainLen = 0 \<or> domainLen > 255 then Inl [EvWrite (socks_reply (CHR 0x08))]
              else (case ReadFull domainLen rest of
                      None \<Rightarrow> Inl []
                    | Some (host, rest2) \<Rightarrow> Inr (host, rest2))))
      else if atyp = CHR 0x04 then
        (case ReadFull 16 inp of
           None \<Rightarrow> Inl []
         | Some (buf, rest) \<Rightarrow> Inr (IP_String buf, rest))
      else Inl [EvWrite (socks_reply (CHR 0x08))])"

text \<open>Policy check, upstream connection, success reply and tunnel.\<close>

definition socks_connect ::
  "unifold \<Rightarrow> netenv \<Rightarrow> Proxy \<Rightarrow> string \<Rightarrow> string \<Rightarrow> string \<Rightarrow> string \<Rightarrow> event list" where
  "socks_connect uf env p sandboxName host portStr rest =
     (case Evaluate uf (px_policy p) host portStr sandboxName of
        (DecisionDeny, ruleID) \<Rightarrow> [EvWrite (socks_reply (CHR 0x02))]
      | (DecisionAllow, ruleID) \<Rightarrow>
          (let addr = JoinHostPort host portStr in
           EvDial addr #
           (case n_dial_err env addr of
              Some e \<Rightarrow> [EvWrite (socks_reply (CHR 0x01))]
            | None \<Rightarrow>
                [EvWrite (socks_reply (CHR 0x00)), EvTunnel addr rest (px_rawTCPIdleTimeout p),
                 EvUpstreamClose])))"

definition socks_request ::
  "unifold \<Rightarrow> netenv \<Rightarrow> Proxy \<Rightarrow> string \<Rightarrow> string \<Rightarrow> event list" where
  "socks_request uf env p sandboxName inp =
     (case ReadFull 4 inp of
        None \<Rightarrow> []
      | Some (buf, rest) \<Rightarrow>
          (if buf ! 0 \<noteq> CHR 0x05 then []
           else if buf ! 1 \<noteq> CHR 0x01 then [EvWrite (socks_reply (CHR 0x07))]
           else (case socks_address (buf ! 3) rest of
                   Inl evs \<Rightarrow> evs
                 | Inr (host, rest2) \<Rightarrow>
                     (case ReadFull 2 rest2 of
                        None \<Rightarrow> []
                      | Some (pb, rest3) \<Rightarrow>
                          (let port = be16 (pb ! 0) (pb ! 1) in
                           socks_connect uf env p sandboxName host (itoa (int port)) rest3)))))"

definition handleSOCKS5 ::
  "unifold \<Rightarrow> netenv \<Rightarrow> Proxy \<Rightarrow> string \<Rightarrow> string \<Rightarrow> event list" where
  "handleSOCKS5 uf env p inp sandboxName =
     (case socks_negotiate inp of
        (evs, None) \<Rightarrow> evs
      | (evs, Some rest) \<Rightarrow> evs @ socks_request uf env p sandboxName rest) @ [EvClose]"

section \<open>Raw TCP\<close>

text \<open>\<open>net.InterfaceAddrs\<close>: an address with its mask, or some other kind of address.\<close>

datatype ifaddr = IPNet string | OtherAddr

definition getLocalIPs :: "goerror + ifaddr list \<Rightarrow> string list" where
  "getLocalIPs addrs =
     (case addrs of
        Inl _ \<Rightarrow> []
      | Inr as \<Rightarrow>
          concat (map (\<lambda>a. case a of
             IPNet ip \<Rightarrow> (if To4 ip \<noteq> None \<and> \<not> IsLoopback ip then [ip] else [])
           | OtherAddr \<Rightarrow> []) as))"

definition isLocalIP :: "string list \<Rightarrow> string \<Rightarrow> bool" where
  "isLocalIP localIPs ip = list_ex (\<lambda>local. IP_Equal local ip) localIPs"

text \<open>
  \<open>sockopt\<close> is the result of asking the connection for SO_ORIGINAL_DST: an error (not a TCP
  connection, no file descriptor, a failing system call) or the 16 bytes of the sockaddr.
\<close>

definition getOriginalDst :: "goerror + string \<Rightarrow> goerror + (string \<times> nat)" where
  "getOriginalDst sockopt =
     (case sockopt of
        Inl e \<Rightarrow> Inl e
      | Inr raw \<Rightarrow>
          (if length raw < 8 then Inl (''short getsockopt result: '' @ nat_dec (length raw) @ '' bytes'')
           else Inr (take 4 (drop 4 raw), be16 (raw ! 2) (raw ! 3))))"

definition handleRawTCP ::
  "unifold \<Rightarrow> netenv \<Rightarrow> Proxy \<Rightarrow> string \<Rightarrow> string \<Rightarrow> event list" where
  "handleRawTCP uf env p inp sandboxName =
     (case getOriginalDst (n_orig_dst env) of
        Inl e \<Rightarrow> [EvClose]
      | Inr (origIP, origPort) \<Rightarrow>
          (let host = IP_String origIP;
               portStr = itoa (int origPort)
           in case Evaluate uf (px_policy p) host portStr sandboxName of
                (DecisionDeny, ruleID) \<Rightarrow> [EvClose]
              | (DecisionAllow, ruleID) \<Rightarrow>
                  (let host2 = (if isLocalIP (n_local_ips env) origIP then ''127.0.0.1'' else host);
                       addr = JoinHostPort host2 portStr
                   in EvDial addr #
                      (case n_dial_err env addr of
                         Some e \<Rightarrow> [EvClose]
                       | None \<Rightarrow> [EvTunnel addr inp (px_rawTCPIdleTimeout p)]))))"

section \<open>The tunnel\<close>

text \<open>
  \<open>t_client_sent\<close> is all the client has sent so far (the bytes the dispatcher has already read
  included), \<open>t_client_buf\<close> the part of it that was not yet read by the copying goroutine,
  \<open>t_c2u_pending\<close> what it has read and not yet written, \<open>t_upstream_room\<close> how many bytes a write to the
  upstream takes before it blocks; and so on for the other direction. The peers send, close their
  side or make room at any time (\<open>peer_step\<close>) or stay silent for ever; \<open>t_now\<close> is the clock.

  A goroutine reads, writes what it has read, and reads again. With a positive timeout every read
  sets a deadline first. A direction ends at the end of the file, by an expired deadline, because
  the other goroutine has closed the client connection, or by a fault of the network (\<open>faults\<close>).
  Ending client-to-upstream half-closes the upstream, ending upstream-to-client closes the client
  connection. A write has no deadline.
\<close>

record tunnel =
  t_client_sent :: string
  t_client_buf :: string
  t_client_eof :: bool
  t_client_room :: nat
  t_c2u_pending :: string
  t_c2u_deadline :: "int option"
  t_to_upstream :: string
  t_c2u_done :: bool
  t_upstream_wclosed :: bool
  t_upstream_sent :: string
  t_upstream_buf :: string
  t_upstream_eof :: bool
  t_upstream_room :: nat
  t_u2c_pending :: string
  t_u2c_deadline :: "int option"
  t_to_client :: string
  t_u2c_done :: bool
  t_client_closed :: bool
  t_now :: int

text \<open>The deadline under which a read waits that starts now: none without a timeout.\<close>

definition read_deadline :: "int \<Rightarrow> int \<Rightarrow> int option" where
  "read_deadline timeout now = (if 0 < timeout then Some (now + timeout) else None)"

definition expired :: "int option \<Rightarrow> int \<Rightarrow> bool" where
  "expired deadline now = (case deadline of None \<Rightarrow> False | Some d \<Rightarrow> d \<le> now)"

text \<open>Both goroutines are in their first read; the dispatcher has read \<open>buffered\<close> from the client.\<close>

definition tunnel_start :: "int \<Rightarrow> string \<Rightarrow> int \<Rightarrow> tunnel" where
  "tunnel_start timeout buffered now =
     \<lparr>t_client_sent = buffered, t_client_buf = buffered, t_client_eof = False, t_client_room = 0,
      t_c2u_pending = [], t_c2u_deadline = read_deadline timeout now, t_to_upstream = [],
      t_c2u_done = False, t_upstream_wclosed = False,
      t_upstream_sent = [], t_upstream_buf = [], t_upstream_eof = False, t_upstream_room = 0,
      t_u2c_pending = [], t_u2c_deadline = read_deadline timeout now, t_to_client = [],
      t_u2c_done = False, t_client_closed = False, t_now = now\<rparr>"

text \<open>What the two goroutines do.\<close>

inductive tunnel_step :: "bool \<Rightarrow> int \<Rightarrow> tunnel \<Rightarrow> tunnel \<Rightarrow> bool"
  for faults :: bool and timeout :: int where
  c2u_read: "\<not> t_c2u_done t \<Longrightarrow> t_c2u_pending t = [] \<Longrightarrow> t_client_buf t = chunk @ rest \<Longrightarrow> chunk \<noteq> [] \<Longrightarrow>
     tunnel_step faults timeout t (t\<lparr>t_client_buf := rest, t_c2u_pending := chunk\<rparr>)"
| c2u_write: "\<not> t_c2u_done t \<Longrightarrow> t_c2u_pending t = chunk @ rest \<Longrightarrow> chunk \<noteq> [] \<Longrightarrow>
     length chunk \<le> t_upstream_room t \<Longrightarrow>
     tunnel_step faults timeout t
       (t\<lparr>t_c2u_pending := rest, t_to_upstream := t_to_upstream t @ chunk,
          t_upstream_room := t_upstream_room t - length chunk,
          t_c2u_deadline := (if rest = [] then read_deadline timeout (t_now t) else t_c2u_deadline t)\<rparr>)"
| c2u_end: "\<not> t_c2u_done t \<Longrightarrow>
     faults \<or> t_c2u_pending t = [] \<and>
       (t_client_buf t = [] \<and> t_client_eof t \<or> t_client_closed t \<or> expired (t_c2u_deadline t) (t_now t)) \<Longrightarrow>
     tunnel_step faults timeout t (t\<lparr>t_c2u_done := True, t_upstream_wclosed := True\<rparr>)"
| u2c_read: "\<not> t_u2c_done t \<Longrightarrow> t_u2c_pending t = [] \<Longrightarrow> t_upstream_buf t = chunk @ rest \<Longrightarrow> chunk \<noteq> [] \<Longrightarrow>
     tunnel_step faults timeout t (t\<lparr>t_upstream_buf := rest, t_u2c_pending := chunk\<rparr>)"
| u2c_write: "\<not> t_u2c_done t \<Longrightarrow> t_u2c_pending t = chunk @ rest \<Longrightarrow> chunk \<noteq> [] \<Longrightarrow>
     length chunk \<le> t_client_room t \<Longrightarrow>
     tunnel_step faults timeout t
       (t\<lparr>t_u2c_pending := rest, t_to_client := t_to_client t @ chunk,
          t_client_room := t_client_room t - length chunk,
          t_u2c_deadline := (if rest = [] then read_deadline timeout (t_now t) else t_u2c_deadline t)\<rparr>)"
| u2c_end: "\<not> t_u2c_done t \<Longrightarrow>
     faults \<or> t_u2c_pending t = [] \<and>
       (t_upstream_buf t = [] \<and> t_upstream_eof t \<or> expired (t_u2c_deadline t) (t_now t)) \<Longrightarrow>
     tunnel_step faults timeout t (t\<lparr>t_u2c_done := True, t_client_closed := True\<rparr>)"

text \<open>What the two peers may do, and the passing of time.\<close>

inductive peer_step :: "tunnel \<Rightarrow> tunnel \<Rightarrow> bool" where
  client_sends: "\<not> t_client_eof t \<Longrightarrow>
     peer_step t (t\<lparr>t_client_sent := t_client_sent t @ data, t_client_buf := t_client_buf t @ data\<rparr>)"
| client_finishes: "peer_step t (t\<lparr>t_client_eof := True\<rparr>)"
| client_takes: "peer_step t (t\<lparr>t_client_room := t_client_room t + n\<rparr>)"
| upstream_sends: "\<not> t_upstream_eof t \<Longrightarrow>
     peer_step t (t\<lparr>t_upstream_sent := t_upstream_sent t @ data, t_upstream_buf := t_upstream_buf t @ data\<rparr>)"
| upstream_finishes: "peer_step t (t\<lparr>t_upstream_eof := True\<rparr>)"
| upstream_takes: "peer_step t (t\<lparr>t_upstream_room := t_upstream_room t + n\<rparr>)"

inductive clock_step :: "tunnel \<Rightarrow> tunnel \<Rightarrow> bool" where
  clock: "0 < dt \<Longrightarrow> clock_step t (t\<lparr>t_now := t_now t + dt\<rparr>)"

text \<open>Silence of both peers: only the goroutines and the clock move. And everything together.\<close>

definition silent_step :: "bool \<Rightarrow> int \<Rightarrow> tunnel \<Rightarrow> tunnel \<Rightarrow> bool" where
  "silent_step faults timeout t t' \<longleftrightarrow> tunnel_step faults timeout t t' \<or> clock_step t t'"

definition tunnel_system :: "bool \<Rightarrow> int \<Rightarrow> tunnel \<Rightarrow> tunnel \<Rightarrow> bool" where
  "tunnel_system faults timeout t t' \<longleftrightarrow> silent_step faults timeout t t' \<or> peer_step t t'"

text \<open>\<open>deadlineReader.Read\<close>: the deadline is set first; if that fails nothing is read.\<close>

definition deadlineReader_Read ::
  "(int \<Rightarrow> goerror option) \<Rightarrow> int \<Rightarrow> int \<Rightarrow> goerror + string \<Rightarrow> goerror + string" where
  "deadlineReader_Read set_deadline now timeout inner =
     (case set_deadline (now + timeout) of Some e \<Rightarrow> Inl e | None \<Rightarrow> inner)"

section \<open>Lemmas: SOCKS5\<close>

lemma ReadFull_append [simp]: "ReadFull (length xs) (xs @ ys) = Some (xs, ys)"
  by (simp add: ReadFull_def)

lemma ReadFull_take: "n = length xs \<Longrightarrow> ReadFull n (xs @ ys) = Some (xs, ys)"
  by simp

lemma byte_val_char_of: "n < 256 \<Longrightarrow> byte_val (char_of n) = n"
  by (simp add: byte_val_def)

text \<open>The client's side of RFC 1928: a greeting and a CONNECT request.\<close>

datatype socks_addr = SocksIPv4 string | SocksDomain string | SocksIPv6 string

fun socks_addr_ok :: "socks_addr \<Rightarrow> bool" where
  "socks_addr_ok (SocksIPv4 bs) = (length bs = 4)"
| "socks_addr_ok (SocksDomain d) = (0 < length d \<and> length d < 256)"
| "socks_addr_ok (SocksIPv6 bs) = (length bs = 16)"

fun socks_addr_host :: "socks_addr \<Rightarrow> string" where
  "socks_addr_host (SocksIPv4 bs) = IP_String bs"
| "socks_addr_host (SocksDomain d) = d"
| "socks_addr_host (SocksIPv6 bs) = IP_String bs"

fun socks_addr_bytes :: "socks_addr \<Rightarrow> string" where
  "socks_addr_bytes (SocksIPv4 bs) = CHR 0x01 # bs"
| "socks_addr_bytes (SocksDomain d) = CHR 0x03 # char_of (length d) # d"
| "socks_addr_bytes (SocksIPv6 bs) = CHR 0x04 # bs"

definition socks_client :: "string \<Rightarrow> char \<Rightarrow> socks_addr \<Rightarrow> char \<Rightarrow> char \<Rightarrow> string" where
  "socks_client methods rsv a hi lo =
     [CHR 0x05, char_of (length methods)] @ methods @
     [CHR 0x05, CHR 0x01, rsv] @ socks_addr_bytes a @ [hi, lo]"

lemma socks_negotiate_greeting:
  assumes "0 < length methods" "length methods < 256"
  shows "socks_negotiate ([CHR 0x05, char_of (length methods)] @ methods @ rest) =
    ([EvWrite [CHR 0x05, CHR 0x00]], Some rest)"
  using assms ReadFull_take[of 2 "[CHR 0x05, char_of (length methods)]" "methods @ rest"]
  by (simp add: socks_negotiate_def byte_val_char_of Let_def)

lemma socks_address_bytes:
  assumes "socks_addr_ok a"
  shows "\<exists>atyp bs. socks_addr_bytes a = atyp # bs \<and>
    socks_address atyp (bs @ rest) = Inr (socks_addr_host a, rest)"
proof (cases a)
  case (SocksIPv4 bs)
  then show ?thesis using assms ReadFull_take[of 4 bs rest] by (simp add: socks_address_def)
next
  case (SocksDomain d)
  then show ?thesis
    using assms ReadFull_take[of "Suc 0" "[char_of (length d)]" "d @ rest"]
    by (simp add: socks_address_def byte_val_char_of Let_def)
next
  case (SocksIPv6 bs)
  then show ?thesis using assms ReadFull_take[of 16 bs rest] by (simp add: socks_address_def)
qed

lemma socks_request_connect:
  assumes "socks_addr_ok a"
  shows "socks_request uf env p sb ([CHR 0x05, CHR 0x01, rsv] @ socks_addr_bytes a @ [hi, lo] @ rest) =
    socks_connect uf env p sb (socks_addr_host a) (itoa (int (be16 hi lo))) rest"
proof -
  obtain atyp bs where a: "socks_addr_bytes a = atyp # bs"
    "socks_address atyp (bs @ hi # lo # rest) = Inr (socks_addr_host a, hi # lo # rest)"
    using socks_address_bytes[OF assms, of "hi # lo # rest"] by auto
  have "ReadFull 4 (CHR 0x05 # CHR 0x01 # rsv # atyp # bs @ hi # lo # rest) =
      Some ([CHR 0x05, CHR 0x01, rsv, atyp], bs @ hi # lo # rest)"
    using ReadFull_take[of 4 "[CHR 0x05, CHR 0x01, rsv, atyp]"] by simp
  moreover have "ReadFull 2 (hi # lo # rest) = Some ([hi, lo], rest)"
    using ReadFull_take[of 2 "[hi, lo]" rest] by simp
  ultimately show ?thesis using a by (simp add: socks_request_def Let_def)
qed

section \<open>Lemmas: mediation\<close>

definition permitted :: "unifold \<Rightarrow> Proxy \<Rightarrow> string \<Rightarrow> string \<Rightarrow> string \<Rightarrow> bool" where
  "permitted uf p sandboxName host port \<longleftrightarrow>
     fst (Evaluate uf (px_policy p) host port sandboxName) = DecisionAllow"

text \<open>The addresses that stand for a host and port: what JoinHostPort gives, the plain
  concatenation used as the host of an upstream URL, and the loopback address for a host that is
  an address of the proxy's own machine.\<close>

definition reach :: "netenv \<Rightarrow> string \<Rightarrow> string \<Rightarrow> string set" where
  "reach env host port =
     {JoinHostPort host port, host @ '':'' @ port} \<union>
     {a. a = JoinHostPort ''127.0.0.1'' port \<and> (\<exists>ip. isLocalIP (n_local_ips env) ip \<and> host = IP_String ip)}"

lemma reach_direct [simp]:
  "JoinHostPort host port \<in> reach env host port" "host @ CHR '':'' # port \<in> reach env host port"
  by (simp_all add: reach_def)

lemma socks_address_no_out:
  "socks_address atyp inp = Inl evs \<Longrightarrow> mediated pm rc evs"
  by (auto simp: socks_address_def Let_def split: if_splits option.splits prod.splits)

lemma socks_negotiate_no_out: "mediated pm rc (fst (socks_negotiate inp))"
  by (auto simp: socks_negotiate_def Let_def split: option.split)

lemma socks_connect_mediated:
  "mediated (permitted uf p sb) (reach env) (socks_connect uf env p sb host port rest)"
proof (cases "fst (Evaluate uf (px_policy p) host port sb)")
  case DecisionAllow
  then have "out_ok (permitted uf p sb) (reach env) (JoinHostPort host port)"
    using out_okI[of "permitted uf p sb" host port "JoinHostPort host port" "reach env"]
    by (simp add: permitted_def)
  then show ?thesis
    using DecisionAllow by (auto simp: socks_connect_def Let_def split: prod.split option.split)
next
  case DecisionDeny
  then show ?thesis by (auto simp: socks_connect_def split: prod.split)
qed

lemma socks_request_mediated:
  "mediated (permitted uf p sb) (reach env) (socks_request uf env p sb inp)"
  using socks_connect_mediated socks_address_no_out
  by (auto simp: socks_request_def Let_def split: option.split sum.split)

lemma handleSOCKS5_mediated:
  "mediated (permitted uf p sb) (reach env) (handleSOCKS5 uf env p inp sb)"
  using socks_request_mediated socks_negotiate_no_out[of _ _ inp]
  by (auto simp: handleSOCKS5_def split: prod.split option.split)

lemma handleRawTCP_mediated:
  "mediated (permitted uf p sb) (reach env) (handleRawTCP uf env p inp sb)"
proof (cases "getOriginalDst (n_orig_dst env)")
  case (Inl e)
  then show ?thesis by (simp add: handleRawTCP_def)
next
  case (Inr d)
  obtain ip port where d: "d = (ip, port)" by (cases d)
  let ?host = "IP_String ip" and ?port = "itoa (int port)"
  let ?host2 = "if isLocalIP (n_local_ips env) ip then ''127.0.0.1'' else ?host"
  have a: "JoinHostPort ?host2 ?port \<in> reach env ?host ?port"
    by (auto simp: reach_def)
  obtain dec i where ev: "Evaluate uf (px_policy p) ?host ?port sb = (dec, i)"
    by (cases "Evaluate uf (px_policy p) ?host ?port sb")
  show ?thesis
  proof (cases dec)
    case DecisionAllow
    then have "out_ok (permitted uf p sb) (reach env) (JoinHostPort ?host2 ?port)"
      using ev out_okI[of "permitted uf p sb" ?host ?port "JoinHostPort ?host2 ?port" "reach env"] a
      by (simp add: permitted_def)
    then show ?thesis
      using Inr d ev DecisionAllow
      by (auto simp: handleRawTCP_def Let_def split: option.split simp del: if_split)
  next
    case DecisionDeny
    then show ?thesis using Inr d ev by (simp add: handleRawTCP_def)
  qed
qed

text \<open>The input of a tunnel handler, and both handlers as instances of the mediation contract.\<close>

type_synonym tunnel_input = "unifold \<times> netenv \<times> Proxy \<times> string \<times> string"

interpretation socks5: mediated_handler
  "\<lambda>(uf, env, p, inp, sb). handleSOCKS5 uf env p inp sb"
  "\<lambda>(uf, env, p, inp, sb). permitted uf p sb"
  "\<lambda>(uf, env, p, inp, sb). reach env"
  by unfold_locales (auto simp: handleSOCKS5_mediated)

interpretation rawtcp: mediated_handler
  "\<lambda>(uf, env, p, inp, sb). handleRawTCP uf env p inp sb"
  "\<lambda>(uf, env, p, inp, sb). permitted uf p sb"
  "\<lambda>(uf, env, p, inp, sb). reach env"
  by unfold_locales (auto simp: handleRawTCP_mediated)

section \<open>Lemmas: the tunnel\<close>

inductive_cases tunnel_stepE: "tunnel_step faults timeout t t'"

text \<open>What was sent is what was written, is being written, or waits to be read; each connection is
  closed by the goroutine that writes to it; a deadline is at most one timeout away.\<close>

definition tunnel_inv :: "bool \<Rightarrow> int \<Rightarrow> tunnel \<Rightarrow> bool" where
  "tunnel_inv faults timeout t \<longleftrightarrow>
     t_to_upstream t @ t_c2u_pending t @ t_client_buf t = t_client_sent t \<and>
     t_to_client t @ t_u2c_pending t @ t_upstream_buf t = t_upstream_sent t \<and>
     t_upstream_wclosed t = t_c2u_done t \<and> t_client_closed t = t_u2c_done t \<and>
     (\<forall>d \<in> {t_c2u_deadline t, t_u2c_deadline t}.
        if 0 < timeout then \<exists>i. d = Some i \<and> i \<le> t_now t + timeout else d = None) \<and>
     (t_u2c_done t \<and> \<not> faults \<and> timeout \<le> 0 \<longrightarrow>
        t_upstream_eof t \<and> t_u2c_pending t = [] \<and> t_upstream_buf t = []) \<and>
     (t_c2u_done t \<and> \<not> faults \<and> timeout \<le> 0 \<longrightarrow> t_client_eof t \<or> t_u2c_done t)"

lemma tunnel_inv_start: "tunnel_inv faults timeout (tunnel_start timeout b now)"
  by (simp add: tunnel_inv_def tunnel_start_def read_deadline_def)

lemma tunnel_inv_work: "tunnel_step faults timeout t t' \<Longrightarrow> tunnel_inv faults timeout t \<Longrightarrow> tunnel_inv faults timeout t'"
  by (induction rule: tunnel_step.induct) (auto simp: tunnel_inv_def read_deadline_def expired_def split: if_splits)

lemma tunnel_inv_peer: "peer_step t t' \<Longrightarrow> tunnel_inv faults timeout t \<Longrightarrow> tunnel_inv faults timeout t'"
  by (induction rule: peer_step.induct) (auto simp: tunnel_inv_def append_assoc[symmetric] simp del: append_assoc)

lemma tunnel_inv_clock: "clock_step t t' \<Longrightarrow> tunnel_inv faults timeout t \<Longrightarrow> tunnel_inv faults timeout t'"
  by (induction rule: clock_step.induct) (auto simp: tunnel_inv_def split: if_splits)

lemma tunnel_inv_system:
  "tunnel_system faults timeout t t' \<Longrightarrow> tunnel_inv faults timeout t \<Longrightarrow> tunnel_inv faults timeout t'"
  using tunnel_inv_work tunnel_inv_peer tunnel_inv_clock by (auto simp: tunnel_system_def silent_step_def)

lemma tunnel_inv_reachable:
  "(tunnel_system faults timeout)\<^sup>*\<^sup>* (tunnel_start timeout b now) t \<Longrightarrow> tunnel_inv faults timeout t"
  by (induction rule: rtranclp_induct) (auto intro: tunnel_inv_start tunnel_inv_system)

definition tunnel_measure :: "tunnel \<Rightarrow> nat" where
  "tunnel_measure t =
     2 * length (t_client_buf t) + length (t_c2u_pending t) + 2 * length (t_upstream_buf t) + length (t_u2c_pending t) +
     (if t_c2u_done t then 0 else 1) + (if t_u2c_done t then 0 else 1)"

lemma tunnel_step_decreases: "tunnel_step faults timeout t t' \<Longrightarrow> tunnel_measure t' < tunnel_measure t"
  by (induction rule: tunnel_step.induct) (auto simp: tunnel_measure_def)

lemma tunnel_step_wf: "wf {(t', t). tunnel_step faults timeout t t'}"
proof -
  have "{(t', t). tunnel_step faults timeout t t'} \<subseteq> measure tunnel_measure"
    using tunnel_step_decreases by auto
  then show ?thesis using wf_subset wf_measure by blast
qed

text \<open>Everything read so far has been written, in each direction that has not ended.\<close>

definition caught_up :: "tunnel \<Rightarrow> bool" where
  "caught_up t \<longleftrightarrow>
     (t_c2u_done t \<or> t_client_buf t = [] \<and> t_c2u_pending t = []) \<and>
     (t_u2c_done t \<or> t_upstream_buf t = [] \<and> t_u2c_pending t = [])"

text \<open>From such a state a silent run changes nothing but the clock, and ends directions.\<close>

definition silent_from :: "tunnel \<Rightarrow> tunnel \<Rightarrow> bool" where
  "silent_from t0 t \<longleftrightarrow>
     caught_up t \<and> t_now t0 \<le> t_now t \<and> t_to_client t = t_to_client t0 \<and> t_upstream_sent t = t_upstream_sent t0 \<and>
     t_client_eof t = t_client_eof t0 \<and> t_upstream_eof t = t_upstream_eof t0 \<and>
     t_c2u_deadline t = t_c2u_deadline t0 \<and> t_u2c_deadline t = t_u2c_deadline t0"

lemma silent_from_work: "tunnel_step faults timeout t t' \<Longrightarrow> silent_from t0 t \<Longrightarrow> silent_from t0 t'"
  by (induction rule: tunnel_step.induct) (simp_all add: silent_from_def caught_up_def)

lemma silent_from_clock: "clock_step t t' \<Longrightarrow> silent_from t0 t \<Longrightarrow> silent_from t0 t'"
  by (induction rule: clock_step.induct) (simp add: silent_from_def caught_up_def)

lemma silent_from_step: "silent_from t0 t \<Longrightarrow> silent_step faults timeout t t' \<Longrightarrow> silent_from t0 t'"
  unfolding silent_step_def using silent_from_work silent_from_clock by blast

lemma silent_run:
  "(silent_step faults timeout)\<^sup>*\<^sup>* t0 t \<Longrightarrow> caught_up t0 \<Longrightarrow> tunnel_inv faults timeout t0 \<Longrightarrow>
     silent_from t0 t \<and> tunnel_inv faults timeout t"
proof (induction rule: rtranclp_induct)
  case base
  then show ?case by (simp add: silent_from_def)
next
  case (step t t')
  then show ?case
    using silent_from_step[of t0 t] tunnel_inv_system[of faults timeout t t'] by (auto simp: tunnel_system_def)
qed

text \<open>A goroutine that cannot move has ended, or waits in a read for a peer that is silent, has not
  finished, and for a deadline that has not expired.\<close>

lemma c2u_waits:
  "\<nexists>t'. tunnel_step faults timeout t t' \<Longrightarrow>
     t_c2u_done t \<or> t_c2u_pending t \<noteq> [] \<or> \<not> (t_client_buf t = [] \<and> t_client_eof t) \<and> \<not> t_client_closed t \<and>
       \<not> expired (t_c2u_deadline t) (t_now t)"
  using c2u_end by blast

lemma u2c_waits:
  "\<nexists>t'. tunnel_step faults timeout t t' \<Longrightarrow>
     t_u2c_done t \<or> t_u2c_pending t \<noteq> [] \<or> \<not> (t_upstream_buf t = [] \<and> t_upstream_eof t) \<and>
       \<not> expired (t_u2c_deadline t) (t_now t)"
  using u2c_end by blast

section \<open>Properties\<close>

text \<open>C5: A client that speaks SOCKS5 correctly (a greeting with one to 255 methods, then a CONNECT
  request with an IPv4 address, a domain of one to 255 bytes or an IPv6 address) is answered with
  the no-authentication reply; the policy is asked for exactly the requested host and decimal
  port; a denied request is answered with code 2 and nothing is dialled, an allowed one is
  dialled, answered with code 1 if that fails, and else answered with code 0 and tunnelled with
  the bytes that follow the request. The client connection is closed at the end in every case.\<close>

theorem socks5_connect_session:
  assumes "0 < length methods" "length methods < 256" "socks_addr_ok a"
  shows "handleSOCKS5 uf env p (socks_client methods rsv a hi lo @ rest) sb =
    (let host = socks_addr_host a; port = itoa (int (be16 hi lo)); addr = JoinHostPort host port in
     EvWrite [CHR 0x05, CHR 0x00] #
     (if fst (Evaluate uf (px_policy p) host port sb) = DecisionDeny
      then [EvWrite (socks_reply (CHR 0x02)), EvClose]
      else if n_dial_err env addr \<noteq> None
      then [EvDial addr, EvWrite (socks_reply (CHR 0x01)), EvClose]
      else [EvDial addr, EvWrite (socks_reply (CHR 0x00)),
            EvTunnel addr rest (px_rawTCPIdleTimeout p), EvUpstreamClose, EvClose]))"
proof -
  have "socks_client methods rsv a hi lo @ rest =
      [CHR 0x05, char_of (length methods)] @ methods @
      ([CHR 0x05, CHR 0x01, rsv] @ socks_addr_bytes a @ [hi, lo] @ rest)"
    by (simp add: socks_client_def)
  then have "handleSOCKS5 uf env p (socks_client methods rsv a hi lo @ rest) sb =
      [EvWrite [CHR 0x05, CHR 0x00]] @
      socks_connect uf env p sb (socks_addr_host a) (itoa (int (be16 hi lo))) rest @ [EvClose]"
    using socks_negotiate_greeting[OF assms(1,2)] socks_request_connect[OF assms(3)]
    by (simp add: handleSOCKS5_def)
  then show ?thesis
    by (auto simp: socks_connect_def Let_def split: prod.split Decision.split option.split)
qed

theorem socks5_connect_session_witness:
  "handleSOCKS5 (\<lambda>_ _. False) quiet_net (NewProxy sample_engine NewSecretManager [])
     (socks_client [CHR 0x00] (CHR 0x00) (SocksDomain ''a.io'') (CHR 0x01) (CHR 0xBB) @ ''xyz'') [] =
   [EvWrite [CHR 0x05, CHR 0x00], EvWrite (socks_reply (CHR 0x02)), EvClose]"
proof -
  have "px_policy (NewProxy sample_engine NewSecretManager []) = sample_engine"
    by (simp add: NewProxy_def)
  then show ?thesis
    using socks5_connect_session[of "[CHR 0x00]" "SocksDomain ''a.io''" "\<lambda>_ _. False" quiet_net
        "NewProxy sample_engine NewSecretManager []" "CHR 0x00" "CHR 0x01" "CHR 0xBB" "''xyz''" "[]"]
    by (simp add: sample_engine_denies Let_def)
qed

text \<open>C6: A redirected connection is judged by the address and port in its SO_ORIGINAL_DST bytes
  (port in bytes 2 and 3, IPv4 address in bytes 4 to 7): denied, it is closed and nothing is
  dialled; allowed, exactly one address is dialled, the original one, or 127.0.0.1 with the same
  port when the original one is an address of the proxy's machine, and all bytes read so far go
  into the tunnel.\<close>

theorem rawtcp_session:
  assumes "n_orig_dst env = Inr ([f1, f2, hi, lo, a, b, c, d] @ padding)"
  shows "handleRawTCP uf env p inp sb =
    (let host = IP_String [a, b, c, d]; port = itoa (int (256 * byte_val hi + byte_val lo));
         addr = JoinHostPort (if isLocalIP (n_local_ips env) [a, b, c, d] then ''127.0.0.1'' else host) port
     in if fst (Evaluate uf (px_policy p) host port sb) = DecisionDeny then [EvClose]
        else if n_dial_err env addr \<noteq> None then [EvDial addr, EvClose]
        else [EvDial addr, EvTunnel addr inp (px_rawTCPIdleTimeout p)])"
proof -
  have "getOriginalDst (n_orig_dst env) = Inr ([a, b, c, d], 256 * byte_val hi + byte_val lo)"
    using assms by (simp add: getOriginalDst_def be16_eq)
  then show ?thesis
    by (auto simp: handleRawTCP_def Let_def split: prod.split Decision.split option.split
        simp del: of_nat_add of_nat_mult)
qed

theorem rawtcp_session_witness:
  "handleRawTCP (\<lambda>_ _. False)
     (quiet_net\<lparr>n_orig_dst := Inr ([CHR 0x02, CHR 0x00, CHR 0x01, CHR 0xBB, CHR 0x01, CHR 0x02, CHR 0x03, CHR 0x04] @
        replicate 8 (CHR 0x00))\<rparr>)
     (NewProxy sample_engine NewSecretManager []) ''hi'' [] = [EvClose]"
  using rawtcp_session[where env = "quiet_net\<lparr>n_orig_dst := Inr ([CHR 0x02, CHR 0x00, CHR 0x01, CHR 0xBB,
      CHR 0x01, CHR 0x02, CHR 0x03, CHR 0x04] @ replicate 8 (CHR 0x00))\<rparr>"
      and p = "NewProxy sample_engine NewSecretManager []"]
  by (simp add: sample_engine_denies Let_def NewProxy_def)

text \<open>The handler of redirected connections never closes the upstream connection it opened: its
  events contain no upstream close, and in the tunnel the upstream is only half-closed; the
  SOCKS5 handler, by contrast, closes it.\<close>

theorem rawtcp_leaves_upstream_open:
  "EvUpstreamClose \<notin> set (handleRawTCP uf env p inp sb)"
  by (auto simp: handleRawTCP_def Let_def split: sum.split prod.split Decision.split option.split)

text \<open>C23: In every interleaving of the two copying goroutines with whatever the peers do and however
  time passes, at every moment, what was written upstream is a prefix of what the client sent and
  what was written to the client is a prefix of what the upstream sent, the rest being what is on
  its way, in order: nothing is lost, repeated or reordered. The client connection is closed only
  after the upstream-to-client copy has ended, the upstream half-closed only after the other.\<close>

theorem tunnel_copies_in_order:
  assumes "(tunnel_system faults timeout)\<^sup>*\<^sup>* (tunnel_start timeout buffered now) t"
  shows "prefix (t_to_upstream t) (t_client_sent t) \<and> prefix (t_to_client t) (t_upstream_sent t) \<and>
    t_client_sent t = t_to_upstream t @ t_c2u_pending t @ t_client_buf t \<and>
    t_upstream_sent t = t_to_client t @ t_u2c_pending t @ t_upstream_buf t \<and>
    (t_client_closed t \<longrightarrow> t_u2c_done t) \<and> (t_upstream_wclosed t \<longrightarrow> t_c2u_done t)"
proof -
  have i: "tunnel_inv faults timeout t" by (rule tunnel_inv_reachable[OF assms])
  then have "t_client_sent t = t_to_upstream t @ t_c2u_pending t @ t_client_buf t"
    "t_upstream_sent t = t_to_client t @ t_u2c_pending t @ t_upstream_buf t"
    by (simp_all add: tunnel_inv_def)
  moreover from this have "prefix (t_to_upstream t) (t_client_sent t)" "prefix (t_to_client t) (t_upstream_sent t)"
    by (metis prefixI)+
  ultimately show ?thesis using i by (simp add: tunnel_inv_def)
qed

text \<open>A client whose first bytes came with the connection, and an upstream that is slow to take them.\<close>

lemma tunnel_example:
  "\<exists>t. (tunnel_system False 60)\<^sup>*\<^sup>* (tunnel_start 60 ''hi'' 0) t \<and> t_to_upstream t = ''h'' \<and>
     t_c2u_pending t = ''i'' \<and> t_client_sent t = ''hi''"
proof -
  let ?t0 = "tunnel_start 60 ''hi'' 0"
  let ?t1 = "?t0\<lparr>t_client_buf := [], t_c2u_pending := ''hi''\<rparr>"
  let ?t2 = "?t1\<lparr>t_upstream_room := 1\<rparr>"
  let ?t3 = "?t2\<lparr>t_c2u_pending := ''i'', t_to_upstream := ''h'', t_upstream_room := 0\<rparr>"
  have "tunnel_system False 60 ?t0 ?t1"
    using c2u_read[of ?t0 "''hi''" "[]" False 60] by (simp add: tunnel_start_def tunnel_system_def silent_step_def)
  moreover have "tunnel_system False 60 ?t1 ?t2"
    using upstream_takes[of ?t1 1] by (simp add: tunnel_start_def tunnel_system_def)
  moreover have "tunnel_system False 60 ?t2 ?t3"
    using c2u_write[of ?t2 "''h''" "''i''" False 60] by (simp add: tunnel_start_def tunnel_system_def silent_step_def)
  ultimately have "(tunnel_system False 60)\<^sup>*\<^sup>* ?t0 ?t3"
    by (meson rtranclp.rtrancl_into_rtrancl rtranclp.rtrancl_refl)
  then show ?thesis by (intro exI[of _ ?t3]) (simp add: tunnel_start_def)
qed

theorem tunnel_copies_in_order_witness:
  "\<exists>t. (tunnel_system False 60)\<^sup>*\<^sup>* (tunnel_start 60 ''hi'' 0) t \<and> t_to_upstream t = ''h'' \<and>
     prefix (t_to_upstream t) (t_client_sent t) \<and> t_client_sent t = ''hi''"
  using tunnel_example tunnel_copies_in_order by blast

text \<open>C24: When the tunnel ends. The goroutines by themselves cannot run for ever. Take a moment when
  everything read has been written and let both peers be silent from then on, until the
  goroutines can do nothing more. With an idle timeout, once that long has passed both directions
  have ended, the client connection is closed and the upstream half-closed, whether or not a peer
  has finished. Without one (and without faults) the deadline never helps: the upstream-to-client
  direction has ended exactly if the upstream had finished, the other one exactly if one of the
  peers had, so two silent peers hold the tunnel for ever; and all the upstream sent has been
  delivered.\<close>

theorem tunnel_terminates_and_delivers:
  assumes "(tunnel_system faults timeout)\<^sup>*\<^sup>* (tunnel_start timeout buffered now) t0" "caught_up t0"
    and "(silent_step faults timeout)\<^sup>*\<^sup>* t0 t" "\<nexists>t'. tunnel_step faults timeout t t'"
  shows "wf {(t', t). tunnel_step faults timeout t t'} \<and>
    (0 < timeout \<and> t_now t0 + timeout \<le> t_now t \<longrightarrow>
       t_c2u_done t \<and> t_u2c_done t \<and> t_client_closed t \<and> t_upstream_wclosed t) \<and>
    (timeout \<le> 0 \<and> \<not> faults \<longrightarrow>
       t_u2c_done t = t_upstream_eof t0 \<and> t_c2u_done t = (t_client_eof t0 \<or> t_upstream_eof t0) \<and>
       t_to_client t = t_upstream_sent t0)"
proof -
  have i0: "tunnel_inv faults timeout t0" by (rule tunnel_inv_reachable[OF assms(1)])
  from silent_run[OF assms(3,2) i0] have s: "silent_from t0 t" and i: "tunnel_inv faults timeout t" by simp_all
  note w = c2u_waits[OF assms(4)] u2c_waits[OF assms(4)]
  have dl: "0 < timeout \<Longrightarrow> t_now t0 + timeout \<le> t_now t \<Longrightarrow>
      expired (t_c2u_deadline t) (t_now t) \<and> expired (t_u2c_deadline t) (t_now t)"
    using i0 s by (auto simp: tunnel_inv_def silent_from_def expired_def)
  have "0 < timeout \<Longrightarrow> t_now t0 + timeout \<le> t_now t \<Longrightarrow> t_c2u_done t \<and> t_u2c_done t"
    using dl w s by (auto simp: silent_from_def caught_up_def)
  moreover have "timeout \<le> 0 \<Longrightarrow> \<not> faults \<Longrightarrow> t_u2c_done t = t_upstream_eof t0 \<and>
      t_c2u_done t = (t_client_eof t0 \<or> t_upstream_eof t0) \<and> t_to_client t = t_upstream_sent t0"
    using w s i i0 by (auto simp: silent_from_def caught_up_def tunnel_inv_def)
  ultimately show ?thesis using tunnel_step_wf i by (simp add: tunnel_inv_def)
qed

text \<open>Two peers that never say anything: after a minute the tunnel with that timeout has ended, the
  one without a timeout has not.\<close>

lemma silent_minute:
  defines "t1 \<equiv> (tunnel_start 60 [] 0)\<lparr>t_now := 60\<rparr>"
  defines "t3 \<equiv> t1\<lparr>t_c2u_done := True, t_upstream_wclosed := True, t_u2c_done := True, t_client_closed := True\<rparr>"
  shows "(silent_step False 60)\<^sup>*\<^sup>* (tunnel_start 60 [] 0) t3" "\<nexists>t'. tunnel_step False 60 t3 t'" "t_now t3 = 60"
proof -
  let ?t2 = "t1\<lparr>t_c2u_done := True, t_upstream_wclosed := True\<rparr>"
  have "clock_step (tunnel_start 60 [] 0) t1"
    using clock[of 60 "tunnel_start 60 [] 0"] by (simp add: t1_def tunnel_start_def)
  moreover have "tunnel_step False 60 t1 ?t2"
    using c2u_end[of t1 False 60] by (simp add: t1_def tunnel_start_def read_deadline_def expired_def)
  moreover have "tunnel_step False 60 ?t2 t3"
    using u2c_end[of ?t2 False 60] by (simp add: t1_def t3_def tunnel_start_def read_deadline_def expired_def)
  ultimately show "(silent_step False 60)\<^sup>*\<^sup>* (tunnel_start 60 [] 0) t3"
    by (meson silent_step_def rtranclp.rtrancl_into_rtrancl rtranclp.rtrancl_refl)
  show "\<nexists>t'. tunnel_step False 60 t3 t'" by (auto simp: t3_def elim: tunnel_stepE)
  show "t_now t3 = 60" by (simp add: t3_def t1_def)
qed

lemma silent_for_ever:
  "(silent_step False 0)\<^sup>*\<^sup>* (tunnel_start 0 [] 0) ((tunnel_start 0 [] 0)\<lparr>t_now := 60\<rparr>) \<and>
   (\<nexists>t'. tunnel_step False 0 ((tunnel_start 0 [] 0)\<lparr>t_now := 60\<rparr>) t')"
proof
  have "clock_step (tunnel_start 0 [] 0) ((tunnel_start 0 [] 0)\<lparr>t_now := 60\<rparr>)"
    using clock[of 60 "tunnel_start 0 [] 0"] by (simp add: tunnel_start_def)
  then show "(silent_step False 0)\<^sup>*\<^sup>* (tunnel_start 0 [] 0) ((tunnel_start 0 [] 0)\<lparr>t_now := 60\<rparr>)"
    by (auto simp: silent_step_def)
  show "\<nexists>t'. tunnel_step False 0 ((tunnel_start 0 [] 0)\<lparr>t_now := 60\<rparr>) t'"
    by (auto simp: tunnel_start_def read_deadline_def expired_def elim!: tunnel_stepE)
qed

theorem tunnel_terminates_and_delivers_witness:
  "(\<exists>t. (silent_step False 60)\<^sup>*\<^sup>* (tunnel_start 60 [] 0) t \<and> t_c2u_done t \<and> t_u2c_done t \<and> t_client_closed t) \<and>
   (\<exists>t. (silent_step False 0)\<^sup>*\<^sup>* (tunnel_start 0 [] 0) t \<and> t_now t = 60 \<and> \<not> t_c2u_done t \<and> \<not> t_u2c_done t)"
proof
  have c: "caught_up (tunnel_start 60 [] 0)" "caught_up (tunnel_start 0 [] 0)" "t_now (tunnel_start 60 [] 0) = 0"
    "\<not> t_upstream_eof (tunnel_start 0 [] 0)" "\<not> t_client_eof (tunnel_start 0 [] 0)"
    by (simp_all add: caught_up_def tunnel_start_def)
  from tunnel_terminates_and_delivers[OF rtranclp.rtrancl_refl c(1) silent_minute(1,2)] silent_minute(1,3) c(3)
  show "\<exists>t. (silent_step False 60)\<^sup>*\<^sup>* (tunnel_start 60 [] 0) t \<and> t_c2u_done t \<and> t_u2c_done t \<and> t_client_closed t"
    by fastforce
  from tunnel_terminates_and_delivers[OF rtranclp.rtrancl_refl c(2) conjunct1[OF silent_for_ever]
      conjunct2[OF silent_for_ever]] silent_for_ever c(4,5)
  show "\<exists>t. (silent_step False 0)\<^sup>*\<^sup>* (tunnel_start 0 [] 0) t \<and> t_now t = 60 \<and> \<not> t_c2u_done t \<and> \<not> t_u2c_done t"
    by (intro exI[of _ "(tunnel_start 0 [] 0)\<lparr>t_now := 60\<rparr>"]) simp
qed

end
