(* ===== verification/GoBase64.thy ===== *)
theory GoBase64
  imports GoNet
begin

text \<open>
  Go's \<^verbatim>\<open>base64.StdEncoding\<close>: \<^verbatim>\<open>EncodeToString\<close> and \<^verbatim>\<open>DecodeString\<close>. Decoding skips carriage returns
  and newlines, wants the padding and refuses anything behind it, and does not look at the unused
  low bits of a padded group, as Go's decoder does. The theory ends with the round trip.
\<close>

definition b64_alphabet :: string where
  "b64_alphabet = ''ABCDEFGHIJKLMNOPQRSTUVWXYZabcdefghijklmnopqrstuvwxyz0123456789+/''"

definition b64_char :: "nat \<Rightarrow> char" where
  "b64_char d = b64_alphabet ! d"

definition b64_val :: "char \<Rightarrow> nat option" where
  "b64_val c = Index b64_alphabet c"

definition byte_of :: "nat \<Rightarrow> char" where
  "byte_of n = char_of n"

text \<open>Three bytes as one 24-bit number, the number as four six-bit digits, and back.\<close>

definition pack3 :: "nat \<Rightarrow> nat \<Rightarrow> nat \<Rightarrow> nat" where
  "pack3 a b c = a * 65536 + b * 256 + c"

definition pack4 :: "nat \<Rightarrow> nat \<Rightarrow> nat \<Rightarrow> nat \<Rightarrow> nat" where
  "pack4 w x y z = w * 262144 + x * 4096 + y * 64 + z"

definition digit4 :: "nat \<Rightarrow> nat \<Rightarrow> nat" where
  "digit4 i n = n div 64 ^ (3 - i) mod 64"

definition byte3 :: "nat \<Rightarrow> nat \<Rightarrow> nat" where
  "byte3 i n = n div 256 ^ (2 - i) mod 256"

fun b64_encode :: "string \<Rightarrow> string" where
  "b64_encode [] = []"
| "b64_encode [a] =
     (let n = pack3 (byte_val a) 0 0 in
      [b64_char (digit4 0 n), b64_char (digit4 1 n), CHR ''='', CHR ''=''])"
| "b64_encode [a, b] =
     (let n = pack3 (byte_val a) (byte_val b) 0 in
      [b64_char (digit4 0 n), b64_char (digit4 1 n), b64_char (digit4 2 n), CHR ''=''])"
| "b64_encode (a # b # c # s) =
     (let n = pack3 (byte_val a) (byte_val b) (byte_val c) in
      [b64_char (digit4 0 n), b64_char (digit4 1 n), b64_char (digit4 2 n), b64_char (digit4 3 n)]
      @ b64_encode s)"

fun b64_groups :: "string \<Rightarrow> string option" where
  "b64_groups [] = Some []"
| "b64_groups (a # b # c # d # s) =
     (case (b64_val a, b64_val b) of
        (Some w, Some x) \<Rightarrow>
          (if c = CHR ''='' then
             (if d = CHR ''='' \<and> s = [] then Some [byte_of (byte3 0 (pack4 w x 0 0))] else None)
           else (case b64_val c of
                   None \<Rightarrow> None
                 | Some y \<Rightarrow>
                     (if d = CHR ''='' then
                        (let v = pack4 w x y 0 in
                         if s = [] then Some [byte_of (byte3 0 v), byte_of (byte3 1 v)] else None)
                      else (case b64_val d of
                              None \<Rightarrow> None
                            | Some z \<Rightarrow>
                                (let v = pack4 w x y z in
                                 map_option ((@) [byte_of (byte3 0 v), byte_of (byte3 1 v), byte_of (byte3 2 v)])
                                   (b64_groups s))))))
      | _ \<Rightarrow> None)"
| "b64_groups _ = None"

definition b64_decode :: "string \<Rightarrow> string option" where
  "b64_decode s = b64_groups (filter (\<lambda>c. c \<noteq> CHR 0x0D \<and> c \<noteq> CHR 0x0A) s)"

section \<open>Round trip\<close>

lemma Index_nth: "distinct xs \<Longrightarrow> i < length xs \<Longrightarrow> Index xs (xs ! i) = Some i"
proof (induction xs arbitrary: i)
  case Nil
  then show ?case by simp
next
  case (Cons x xs)
  then show ?case by (cases i) (auto simp: nth_mem)
qed

lemma b64_alphabet_facts: "distinct b64_alphabet" "length b64_alphabet = 64"
  "CHR ''='' \<notin> set b64_alphabet" "CHR 0x0D \<notin> set b64_alphabet" "CHR 0x0A \<notin> set b64_alphabet"
  by (simp_all add: b64_alphabet_def)

lemma b64_val_char [simp]: "d < 64 \<Longrightarrow> b64_val (b64_char d) = Some d"
  using Index_nth b64_alphabet_facts by (simp add: b64_val_def b64_char_def)

lemma b64_char_plain:
  assumes "d < 64"
  shows "b64_char d \<noteq> CHR ''=''" "b64_char d \<noteq> CHR 0x0D" "b64_char d \<noteq> CHR 0x0A"
proof -
  have "b64_char d \<in> set b64_alphabet"
    using assms b64_alphabet_facts(2) by (simp add: b64_char_def)
  then show "b64_char d \<noteq> CHR ''=''" "b64_char d \<noteq> CHR 0x0D" "b64_char d \<noteq> CHR 0x0A"
    using b64_alphabet_facts(3-5) by auto
qed

lemma byte_of_byte_val [simp]: "byte_of (byte_val c) = c"
  by (simp add: byte_of_def byte_val_def)

lemma digit4_less [simp]: "digit4 i n < 64"
  by (simp add: digit4_def)

lemma pack4_digit4:
  assumes "n < 16777216"
  shows "pack4 (digit4 0 n) (digit4 (Suc 0) n) (digit4 2 n) (digit4 3 n) = n"
proof -
  have "n div 64 = n div 4096 * 64 + n div 64 mod 64"
    using div_mult_mod_eq[of "n div 64" 64] by (simp add: div_mult2_eq[of n 64 64, simplified])
  moreover have "n div 4096 = n div 262144 * 64 + n div 4096 mod 64"
    using div_mult_mod_eq[of "n div 4096" 64] by (simp add: div_mult2_eq[of n 4096 64, simplified])
  moreover have "n div 262144 < 64" using assms by (simp add: div_less_iff_less_mult)
  moreover have "n = n div 64 * 64 + n mod 64" by simp
  ultimately have "n div 262144 * 262144 + n div 4096 mod 64 * 4096 + n div 64 mod 64 * 64 + n mod 64 = n"
    "n div 262144 mod 64 = n div 262144"
    by linarith (simp add: \<open>n div 262144 < 64\<close>)
  then show ?thesis by (simp add: pack4_def digit4_def)
qed

lemma pack3_less: "a < 256 \<Longrightarrow> b < 256 \<Longrightarrow> c < 256 \<Longrightarrow> pack3 a b c < 16777216"
  by (simp add: pack3_def)

lemma byte3_pack3:
  assumes "a < 256" "b < 256" "c < 256"
  shows "byte3 0 (pack3 a b c) = a" "byte3 (Suc 0) (pack3 a b c) = b" "byte3 2 (pack3 a b c) = c"
proof -
  have "pack3 a b c div 65536 = a"
    using assms by (intro div_nat_eqI) (simp_all add: pack3_def)
  moreover have d: "pack3 a b c div 256 = a * 256 + b"
    using assms by (intro div_nat_eqI) (simp_all add: pack3_def)
  moreover have "pack3 a b c mod 256 = c"
    using assms(3) d minus_div_mult_eq_mod[of "pack3 a b c" 256] by (simp add: pack3_def)
  ultimately show "byte3 0 (pack3 a b c) = a" "byte3 (Suc 0) (pack3 a b c) = b" "byte3 2 (pack3 a b c) = c"
    using assms by (simp_all add: byte3_def)
qed

lemma digit4_pack3_zero: "digit4 3 (pack3 a b 0) = 0" "digit4 2 (pack3 a 0 0) = 0"
proof -
  have "pack3 a b 0 = 64 * (a * 1024 + b * 4)" by (simp add: pack3_def)
  then show "digit4 3 (pack3 a b 0) = 0" by (simp add: digit4_def)
  have "pack3 a 0 0 = 4096 * (a * 16)" by (simp add: pack3_def)
  then have "pack3 a 0 0 div 64 = 64 * (a * 16)" by simp
  then show "digit4 2 (pack3 a 0 0) = 0" by (simp add: digit4_def)
qed

lemma b64_groups_encode: "b64_groups (b64_encode s) = Some s"
proof (induction s rule: b64_encode.induct)
  case 1
  then show ?case by simp
next
  case (2 a)
  have "pack4 (digit4 0 n) (digit4 (Suc 0) n) 0 0 = n" if "n = pack3 (byte_val a) 0 0" for n
    using pack4_digit4[of n] pack3_less[of "byte_val a" 0 0] digit4_pack3_zero that by simp
  then show ?case by (simp add: Let_def byte3_pack3)
next
  case (3 a b)
  have "pack4 (digit4 0 n) (digit4 (Suc 0) n) (digit4 2 n) 0 = n"
    if "n = pack3 (byte_val a) (byte_val b) 0" for n
    using pack4_digit4[of n] pack3_less[of "byte_val a" "byte_val b" 0] digit4_pack3_zero(1) that by simp
  then show ?case by (simp add: Let_def b64_char_plain byte3_pack3)
next
  case (4 a b c s)
  have "pack4 (digit4 0 n) (digit4 (Suc 0) n) (digit4 2 n) (digit4 3 n) = n"
    if "n = pack3 (byte_val a) (byte_val b) (byte_val c)" for n
    using pack4_digit4[of n] pack3_less[of "byte_val a" "byte_val b" "byte_val c"] that by simp
  then show ?case using 4 by (simp add: Let_def b64_char_plain byte3_pack3)
qed

lemma b64_encode_plain: "c \<in> set (b64_encode s) \<Longrightarrow> c \<noteq> CHR 0x0D \<and> c \<noteq> CHR 0x0A"
  by (induction s rule: b64_encode.induct) (auto simp: Let_def b64_char_plain)

lemma b64_decode_encode [simp]: "b64_decode (b64_encode s) = Some s"
proof -
  have "filter (\<lambda>c. c \<noteq> CHR 0x0D \<and> c \<noteq> CHR 0x0A) (b64_encode s) = b64_encode s"
    using b64_encode_plain by (simp add: filter_id_conv)
  then show ?thesis by (simp add: b64_decode_def b64_groups_encode)
qed

end
