(* ===== verification/Container.thy ===== *)
theory Container
  imports GoHttp GoBase64 GoOS
begin

text \<open>
  src/internal/container/container.go: the Docker client of the daemon. The Docker Engine is a
  service outside the program: the record \<open>docker\<close> gives its answers, over the same world \<open>'w\<close> as
  the operating system, together with \<^verbatim>\<open>encoding/json\<close> on the response types (\<open>dk_dec_*\<close>) and
  \<^verbatim>\<open>url.Parse\<close> errors. Every request the manager sends is recorded, so that what an operation
  sends can be stated for every engine. Requests carry their JSON body as a value; marshalling
  these values (maps, lists, strings and booleans) cannot fail in Go. A response that arrives
  carries its whole body; an interrupted body and an expired context are errors of the request.
\<close>

unbundle bit_operations_syntax

section \<open>Data\<close>

record Container =
  c_ID :: string
  c_Name :: string
  c_Image :: string
  c_Status :: string
  c_Running :: bool
  c_Sandbox :: string
  c_Ports :: "string list"
  c_ExitCode :: int
  c_Error :: string

record Manager =
  mg_socketPath :: string
  mg_dockerHost :: string
  mg_dataDir :: string
  mg_networkName :: string

datatype json = JStr string | JBool bool | JList "json list" | JObj "(string \<times> json) list"

record DockerReq =
  d_Method :: string
  d_URL :: string
  d_Header :: Header
  d_Body :: "json option"

record DockerResp =
  d_Status :: int
  d_Text :: string

text \<open>The answers of the engine as the client's structs name their fields.\<close>

record InspectResp =
  i_Id :: string
  i_Name :: string
  i_Image :: string
  i_Status :: string
  i_Running :: bool
  i_ExitCode :: int
  i_Error :: string

record ListEntry =
  l_Id :: string
  l_Names :: "string list"
  l_Image :: string
  l_State :: string
  l_Ports :: "(int \<times> int \<times> string) list"

record 'w docker =
  dk_do :: "DockerReq \<Rightarrow> 'w \<Rightarrow> (goerror + DockerResp) \<times> 'w"
  dk_parse_err :: "string \<Rightarrow> goerror option"
  dk_dec_create :: "string \<Rightarrow> goerror + string"
  dk_dec_inspect :: "string \<Rightarrow> goerror + InspectResp"
  dk_dec_list :: "string \<Rightarrow> goerror + ListEntry list"
  dk_dec_wait :: "string \<Rightarrow> goerror + (int \<times> string)"
  dk_dec_networks :: "string \<Rightarrow> goerror + (string \<times> string) list"

type_synonym 'w dworld = "DockerReq list \<times> 'w"

definition httpClient_Do ::
  "'w docker \<Rightarrow> DockerReq \<Rightarrow> 'w dworld \<Rightarrow> (goerror + DockerResp) \<times> 'w dworld" where
  "httpClient_Do dk r tw =
     (case dk_do dk r (snd tw) of (res, w) \<Rightarrow> (res, (fst tw @ [r], w)))"

definition httpClient_Get ::
  "'w docker \<Rightarrow> string \<Rightarrow> 'w dworld \<Rightarrow> (goerror + DockerResp) \<times> 'w dworld" where
  "httpClient_Get dk url tw =
     httpClient_Do dk \<lparr>d_Method = ''GET'', d_URL = url, d_Header = [], d_Body = None\<rparr> tw"

definition api :: string where
  "api = ''http://localhost/v1.54''"

definition sq :: string where
  "sq = [CHR 0x27]"

definition dq :: string where
  "dq = [CHR 0x22]"

definition json_content :: Header where
  "json_content = [(''Content-Type'', [''application/json''])]"

definition http_failure :: "string \<Rightarrow> DockerResp \<Rightarrow> goerror" where
  "http_failure what resp = what @ '' (HTTP '' @ itoa (d_Status resp) @ ''): '' @ d_Text resp"

definition NewManager :: "string \<Rightarrow> string \<Rightarrow> Manager" where
  "NewManager socketPath dataDir =
     \<lparr>mg_socketPath = socketPath, mg_dockerHost = ''unix://'' @ socketPath, mg_dataDir = dataDir,
      mg_networkName = ''sandbox-net''\<rparr>"

definition DockerSocketPath :: "Manager \<Rightarrow> string" where
  "DockerSocketPath m = mg_socketPath m"

section \<open>Images and networks\<close>

definition imageExists :: "'w docker \<Rightarrow> string \<Rightarrow> 'w dworld \<Rightarrow> (goerror + bool) \<times> 'w dworld" where
  "imageExists dk img tw =
     (case httpClient_Get dk (api @ ''/images/'' @ img @ ''/json'') tw of
        (Inl e, tw1) \<Rightarrow> (Inl e, tw1)
      | (Inr resp, tw1) \<Rightarrow> (Inr (d_Status resp = 200), tw1))"

definition pullImage :: "'w docker \<Rightarrow> string \<Rightarrow> 'w dworld \<Rightarrow> goerror option \<times> 'w dworld" where
  "pullImage dk img tw =
     (case imageExists dk img tw of
        (ex, tw1) \<Rightarrow>
          (if ex = Inr True then (None, tw1)
           else
             (let url = api @ ''/images/create?fromImage='' @ img in
              case dk_parse_err dk url of
                Some e \<Rightarrow> (Some e, tw1)
              | None \<Rightarrow>
                  (case httpClient_Do dk \<lparr>d_Method = ''POST'', d_URL = url, d_Header = [], d_Body = None\<rparr> tw1 of
                     (Inl e, tw2) \<Rightarrow> (Some (''pull image: '' @ e), tw2)
                   | (Inr resp, tw2) \<Rightarrow>
                       (if d_Status resp \<noteq> 200 then (Some (http_failure ''pull image failed'' resp), tw2)
                        else (None, tw2))))))"

definition network_known :: "'w docker \<Rightarrow> Manager \<Rightarrow> DockerResp \<Rightarrow> bool" where
  "network_known dk m resp \<longleftrightarrow>
     d_Status resp = 200 \<and>
     (case dk_dec_networks dk (d_Text resp) of
        Inl _ \<Rightarrow> False
      | Inr networks \<Rightarrow> list_ex (\<lambda>n. snd n = mg_networkName m) networks)"

definition ensureNetwork :: "'w docker \<Rightarrow> Manager \<Rightarrow> 'w dworld \<Rightarrow> goerror option \<times> 'w dworld" where
  "ensureNetwork dk m tw =
     (let listURL = api @ ''/networks?filters={'' @ dq @ ''name'' @ dq @ '':['' @ dq @ mg_networkName m @ dq @ '']}'' in
      case httpClient_Get dk listURL tw of
        (Inl e, tw1) \<Rightarrow> (Some e, tw1)
      | (Inr resp, tw1) \<Rightarrow>
          (if network_known dk m resp then (None, tw1)
           else
             (let createURL = api @ ''/networks/create'';
                  body = JObj [(''Name'', JStr (mg_networkName m)), (''Driver'', JStr ''bridge''),
                    (''IPAM'', JObj [(''Config'', JList [JObj [(''Subnet'', JStr ''172.28.0.0/16'')]])])]
              in case dk_parse_err dk createURL of
                   Some e \<Rightarrow> (Some e, tw1)
                 | None \<Rightarrow>
                     (case httpClient_Do dk \<lparr>d_Method = ''POST'', d_URL = createURL,
                              d_Header = json_content, d_Body = Some body\<rparr> tw1 of
                        (Inl e, tw2) \<Rightarrow> (Some e, tw2)
                      | (Inr resp2, tw2) \<Rightarrow>
                          (if d_Status resp2 \<noteq> 201 \<and> d_Status resp2 \<noteq> 200
                           then (Some (http_failure ''create network failed'' resp2), tw2)
                           else (None, tw2))))))"

section \<open>Creating containers\<close>

definition proxy_env :: "string list" where
  "proxy_env =
     [''HTTP_PROXY=http://host.docker.internal:3128'', ''HTTPS_PROXY=http://host.docker.internal:3128'',
      ''http_proxy=http://host.docker.internal:3128'', ''https_proxy=http://host.docker.internal:3128'',
      ''NO_PROXY=localhost,127.0.0.1,.local'', ''no_proxy=localhost,127.0.0.1,.local'']"

definition read_ca :: "'w os \<Rightarrow> 'w \<Rightarrow> string" where
  "read_ca osx w =
     (let caPath = Getenv osx ''SBXSANDBOX_CA_CERT'' in
      if caPath = [] then []
      else (case ReadFile osx caPath w of Inl _ \<Rightarrow> [] | Inr data \<Rightarrow> data))"

definition init_script :: "string \<Rightarrow> string" where
  "init_script caContent =
     (if caContent = [] then []
      else ''mkdir -p /usr/local/share/ca-certificates && echo '' @ sq @ caContent @ sq @
           '' > /usr/local/share/ca-certificates/sbx-ca.crt && update-ca-certificates 2>/dev/null || true; '') @
     ''iptables -t nat -A OUTPUT -p tcp --dport 3128 -j ACCEPT 2>/dev/null; '' @
     ''iptables -t nat -A OUTPUT -p tcp -d 127.0.0.0/8 -j ACCEPT 2>/dev/null; '' @
     ''iptables -t nat -A OUTPUT -p tcp ! -d 127.0.0.0/8 -j REDIRECT --to-port 3128 2>/dev/null || true; '' @
     ''exec '' @ dq @ ''$@'' @ dq"

definition create_body :: "Manager \<Rightarrow> string \<Rightarrow> string list \<Rightarrow> string list \<Rightarrow> string \<Rightarrow> json" where
  "create_body m img args envVars caContent =
     JObj [(''Image'', JStr img), (''Env'', JList (map JStr (envVars @ proxy_env))),
       (''Cmd'', JList (map JStr args)),
       (''HostConfig'', JObj [(''NetworkMode'', JStr (mg_networkName m)),
          (''ExtraHosts'', JList [JStr ''host.docker.internal:host-gateway'']),
          (''Privileged'', JBool False), (''CapAdd'', JList [JStr ''NET_ADMIN'', JStr ''NET_RAW''])]),
       (''Entrypoint'', JList [JStr ''/bin/sh'', JStr ''-c'', JStr (init_script caContent)])]"

text \<open>The POST that creates a container and the reading of its answer; the two callers differ in
  the text of the transport error.\<close>

definition post_create ::
  "'w docker \<Rightarrow> string \<Rightarrow> string \<Rightarrow> string \<Rightarrow> string \<Rightarrow> string \<Rightarrow> json \<Rightarrow> 'w dworld \<Rightarrow>
     (goerror + Container) \<times> 'w dworld" where
  "post_create dk parse_pre do_pre img containerName sandboxName body tw =
     (let url = api @ ''/containers/create?name='' @ containerName in
      case dk_parse_err dk url of
        Some e \<Rightarrow> (Inl (parse_pre @ e), tw)
      | None \<Rightarrow>
          (case httpClient_Do dk \<lparr>d_Method = ''POST'', d_URL = url, d_Header = json_content,
                   d_Body = Some body\<rparr> tw of
             (Inl e, tw1) \<Rightarrow> (Inl (do_pre @ e), tw1)
           | (Inr resp, tw1) \<Rightarrow>
               (if d_Status resp \<noteq> 201 \<and> d_Status resp \<noteq> 200
                then (Inl (http_failure ''create container failed'' resp), tw1)
                else (case dk_dec_create dk (d_Text resp) of
                        Inl e \<Rightarrow> (Inl (''decode create response: '' @ e), tw1)
                      | Inr cid \<Rightarrow>
                          (Inr \<lparr>c_ID = cid, c_Name = containerName, c_Image = img, c_Status = ''created'',
                                c_Running = False, c_Sandbox = sandboxName, c_Ports = [], c_ExitCode = 0,
                                c_Error = []\<rparr>, tw1)))))"

definition CreateContainer ::
  "'w os \<Rightarrow> 'w docker \<Rightarrow> Manager \<Rightarrow> string \<Rightarrow> string list \<Rightarrow> string list \<Rightarrow> string \<Rightarrow> 'w dworld \<Rightarrow>
     (goerror + Container) \<times> 'w dworld" where
  "CreateContainer osx dk m img args envVars sandboxName tw =
     (case ensureNetwork dk m tw of
        (Some e, tw1) \<Rightarrow> (Inl (''ensure network: '' @ e), tw1)
      | (None, tw1) \<Rightarrow>
          (case pullImage dk img tw1 of
             (Some e, tw2) \<Rightarrow> (Inl (''pull image '' @ img @ '': '' @ e), tw2)
           | (None, tw2) \<Rightarrow>
               post_create dk ''create request: '' ''create container: '' img (''sbx-'' @ sandboxName)
                 sandboxName (create_body m img args envVars (read_ca osx (snd tw2))) tw2))"

section \<open>Container lifecycle\<close>

text \<open>A request with an error text for the transport and a set of accepted status codes.\<close>

definition simple_call ::
  "'w docker \<Rightarrow> string \<Rightarrow> string \<Rightarrow> Header \<Rightarrow> string \<Rightarrow> int list \<Rightarrow> 'w dworld \<Rightarrow> goerror option \<times> 'w dworld" where
  "simple_call dk meth url hdr what accepted tw =
     (case dk_parse_err dk url of
        Some e \<Rightarrow> (Some e, tw)
      | None \<Rightarrow>
          (case httpClient_Do dk \<lparr>d_Method = meth, d_URL = url, d_Header = hdr, d_Body = None\<rparr> tw of
             (Inl e, tw1) \<Rightarrow> (Some (what @ '': '' @ e), tw1)
           | (Inr resp, tw1) \<Rightarrow>
               (if d_Status resp \<notin> set accepted
                then (Some (http_failure (what @ '' failed'') resp), tw1) else (None, tw1))))"

definition StartContainer :: "'w docker \<Rightarrow> string \<Rightarrow> 'w dworld \<Rightarrow> goerror option \<times> 'w dworld" where
  "StartContainer dk containerID tw =
     simple_call dk ''POST'' (api @ ''/containers/'' @ containerID @ ''/start'') json_content
       ''start container'' [204, 200, 304] tw"

definition StopContainer :: "'w docker \<Rightarrow> string \<Rightarrow> 'w dworld \<Rightarrow> goerror option \<times> 'w dworld" where
  "StopContainer dk containerID tw =
     simple_call dk ''POST'' (api @ ''/containers/'' @ containerID @ ''/stop'') []
       ''stop container'' [204, 200, 304] tw"

definition RemoveContainer :: "'w docker \<Rightarrow> string \<Rightarrow> 'w dworld \<Rightarrow> goerror option \<times> 'w dworld" where
  "RemoveContainer dk containerID tw =
     simple_call dk ''DELETE'' (api @ ''/containers/'' @ containerID @ ''?force=true&v=true'') []
       ''remove container'' [204, 200, 404] tw"

definition InspectContainer :: "'w docker \<Rightarrow> string \<Rightarrow> 'w dworld \<Rightarrow> (goerror + Container) \<times> 'w dworld" where
  "InspectContainer dk containerID tw =
     (case httpClient_Get dk (api @ ''/containers/'' @ containerID @ ''/json'') tw of
        (Inl e, tw1) \<Rightarrow> (Inl (''inspect container: '' @ e), tw1)
      | (Inr resp, tw1) \<Rightarrow>
          (if d_Status resp \<noteq> 200 then (Inl (http_failure ''inspect container failed'' resp), tw1)
           else (case dk_dec_inspect dk (d_Text resp) of
                   Inl e \<Rightarrow> (Inl (''decode inspect: '' @ e), tw1)
                 | Inr r \<Rightarrow>
                     (Inr \<lparr>c_ID = i_Id r, c_Name = TrimPrefix (i_Name r) ''/'', c_Image = i_Image r,
                           c_Status = i_Status r, c_Running = i_Running r, c_Sandbox = [], c_Ports = [],
                           c_ExitCode = i_ExitCode r, c_Error = i_Error r\<rparr>, tw1))))"

definition list_container :: "ListEntry \<Rightarrow> Container" where
  "list_container c =
     \<lparr>c_ID = l_Id c,
      c_Name = (case l_Names c of [] \<Rightarrow> [] | n # _ \<Rightarrow> TrimPrefix n ''/''),
      c_Image = l_Image c, c_Status = l_State c, c_Running = (l_State c = ''running''),
      c_Sandbox = [], c_Ports = map (\<lambda>(priv, pub, typ). itoa priv @ ''/'' @ typ) (l_Ports c),
      c_ExitCode = 0, c_Error = []\<rparr>"

definition ListContainers :: "'w docker \<Rightarrow> 'w dworld \<Rightarrow> (goerror + Container list) \<times> 'w dworld" where
  "ListContainers dk tw =
     (case httpClient_Get dk (api @ ''/containers/json?all=true'') tw of
        (Inl e, tw1) \<Rightarrow> (Inl (''list containers: '' @ e), tw1)
      | (Inr resp, tw1) \<Rightarrow>
          (if d_Status resp \<noteq> 200 then (Inl (http_failure ''list containers failed'' resp), tw1)
           else (case dk_dec_list dk (d_Text resp) of
                   Inl e \<Rightarrow> (Inl (''decode list: '' @ e), tw1)
                 | Inr es \<Rightarrow> (Inr (map list_container es), tw1))))"

text \<open>\<open>WaitForContainerExit\<close> returns a code with its error.\<close>

definition WaitForContainerExit ::
  "'w docker \<Rightarrow> string \<Rightarrow> 'w dworld \<Rightarrow> (int \<times> goerror option) \<times> 'w dworld" where
  "WaitForContainerExit dk containerID tw =
     (let url = api @ ''/containers/'' @ containerID @ ''/wait'' in
      case dk_parse_err dk url of
        Some e \<Rightarrow> ((-1, Some e), tw)
      | None \<Rightarrow>
          (case httpClient_Do dk \<lparr>d_Method = ''POST'', d_URL = url, d_Header = [], d_Body = None\<rparr> tw of
             (Inl e, tw1) \<Rightarrow> ((-1, Some (''wait container: '' @ e)), tw1)
           | (Inr resp, tw1) \<Rightarrow>
               (if d_Status resp \<noteq> 200 then ((-1, Some (http_failure ''wait container failed'' resp)), tw1)
                else (case dk_dec_wait dk (d_Text resp) of
                        Inl e \<Rightarrow> ((-1, Some (''decode wait response: '' @ e)), tw1)
                      | Inr (code, msg) \<Rightarrow>
                          (if msg \<noteq> [] then ((code, Some (''container error: '' @ msg)), tw1)
                           else ((code, None), tw1))))))"

section \<open>Logs\<close>

definition frame_size :: "string \<Rightarrow> nat" where
  "frame_size raw =
     byte_val (raw ! 7) OR push_bit 8 (byte_val (raw ! 6)) OR
     push_bit 16 (byte_val (raw ! 5)) OR push_bit 24 (byte_val (raw ! 4))"

text \<open>The loop of \<open>GetContainerLogs\<close> from position \<open>i\<close>: what it still writes to the result.\<close>

function strip_frames :: "string \<Rightarrow> nat \<Rightarrow> string" where
  "strip_frames raw i =
     (if i < length raw then
        (if i + 8 > length raw then []
         else
           (let j = i + 8;
                frameSize = (if j + frame_size raw > length raw then length raw - j else frame_size raw)
            in if frameSize > 0 then take frameSize (drop j raw) @ strip_frames raw (j + frameSize)
               else []))
      else [])"
  by pat_completeness auto
termination
  by (relation "measure (\<lambda>(raw, i). length raw - i)") (auto simp: Let_def)

declare strip_frames.simps [simp del]

definition GetContainerLogs ::
  "'w docker \<Rightarrow> string \<Rightarrow> int \<Rightarrow> 'w dworld \<Rightarrow> (goerror + string) \<times> 'w dworld" where
  "GetContainerLogs dk containerID tail tw =
     (let tail2 = (if tail \<le> 0 then 100 else tail);
          url = api @ ''/containers/'' @ containerID @ ''/logs?stdout=true&stderr=true&tail='' @ itoa tail2
      in case dk_parse_err dk url of
           Some e \<Rightarrow> (Inl e, tw)
         | None \<Rightarrow>
             (case httpClient_Do dk \<lparr>d_Method = ''GET'', d_URL = url,
                      d_Header = [(''Accept'', [''application/json''])], d_Body = None\<rparr> tw of
                (Inl e, tw1) \<Rightarrow> (Inl (''get logs: '' @ e), tw1)
              | (Inr resp, tw1) \<Rightarrow>
                  (if d_Status resp \<noteq> 200 then (Inl (http_failure ''get logs failed'' resp), tw1)
                   else (Inr (strip_frames (d_Text resp) 0), tw1))))"

section \<open>SSH agent forwarding\<close>

definition ssh_script :: "string \<Rightarrow> string" where
  "ssh_script caContent =
     ''mkdir -p /usr/local/share/ca-certificates && echo '' @ sq @ caContent @ sq @
     '' > /usr/local/share/ca-certificates/sbx-ca.crt && update-ca-certificates 2>/dev/null || true && exec '' @
     dq @ ''$@'' @ dq"

definition ssh_body :: "Manager \<Rightarrow> string \<Rightarrow> string list \<Rightarrow> string list \<Rightarrow> string \<Rightarrow> string \<Rightarrow> json" where
  "ssh_body m img args envVars sock caContent =
     JObj ([(''Image'', JStr img),
        (''Env'', JList (map JStr (proxy_env @ [''SSH_AUTH_SOCK=/tmp/ssh-agent.sock''] @ envVars))),
        (''Entrypoint'', JList (map JStr args)),
        (''HostConfig'', JObj [(''NetworkMode'', JStr (mg_networkName m)),
           (''ExtraHosts'', JList [JStr ''host.docker.internal:host-gateway'']),
           (''Privileged'', JBool False), (''Binds'', JList [JStr (sock @ '':/tmp/ssh-agent.sock'')])])] @
       (if caContent = [] then []
        else [(''Cmd'', JList [JStr ''/bin/sh'', JStr ''-c'', JStr (ssh_script caContent)])]))"

definition ForwardSSHAgent ::
  "'w os \<Rightarrow> 'w docker \<Rightarrow> Manager \<Rightarrow> string \<Rightarrow> string list \<Rightarrow> string list \<Rightarrow> string \<Rightarrow> 'w dworld \<Rightarrow>
     (goerror + Container) \<times> 'w dworld" where
  "ForwardSSHAgent osx dk m img args envVars sandboxName tw =
     (let sock = Getenv osx ''SSH_AUTH_SOCK'' in
      if sock = [] then CreateContainer osx dk m img args envVars sandboxName tw
      else post_create dk [] ''create container with SSH: '' img (''sbx-'' @ sandboxName) sandboxName
             (ssh_body m img args envVars sock (read_ca osx (snd tw))) tw)"

section \<open>Helpers\<close>

text \<open>\<open>lookup\<close> is \<^verbatim>\<open>net.LookupHost\<close>.\<close>

fun resolve_first :: "(string \<Rightarrow> goerror + string list) \<Rightarrow> string list \<Rightarrow> string" where
  "resolve_first lookup [] = ''host.docker.internal''"
| "resolve_first lookup (h # hosts) =
     (case lookup h of Inr (a # _) \<Rightarrow> a | _ \<Rightarrow> resolve_first lookup hosts)"

definition ResolveHostIP :: "(string \<Rightarrow> goerror + string list) \<Rightarrow> string" where
  "ResolveHostIP lookup =
     resolve_first lookup [''host.docker.internal'', ''172.17.0.1'', ''172.28.0.1'']"

definition EnsureDataDir :: "'w os \<Rightarrow> string \<Rightarrow> 'w \<Rightarrow> goerror option \<times> 'w" where
  "EnsureDataDir osx dataDir w =
     (if dataDir = [] then
        (case UserHomeDir osx of
           Inl e \<Rightarrow> (Some (''get home dir: '' @ e), w)
         | Inr home \<Rightarrow> MkdirAll osx (Join [home, ''.local'', ''share'', ''sbxsandbox'']) mode_0755 w)
      else MkdirAll osx dataDir mode_0755 w)"

definition SetRequestBody :: "Request \<Rightarrow> string \<Rightarrow> Request" where
  "SetRequestBody r body = r\<lparr>rq_Body := Some body, rq_ContentLength := int (length body)\<rparr>"

definition ParseHostPort :: "string \<Rightarrow> string \<times> string" where
  "ParseHostPort hostPort =
     (case LastIndex hostPort (CHR '':'') of
        Some idx \<Rightarrow> (take idx hostPort, drop (idx + 1) hostPort)
      | None \<Rightarrow> (hostPort, ''80''))"

definition DecodeBase64Header :: "string \<Rightarrow> string" where
  "DecodeBase64Header encoded =
     (case b64_decode encoded of None \<Rightarrow> encoded | Some decoded \<Rightarrow> decoded)"

definition IsClosedConnError :: "goerror option \<Rightarrow> bool" where
  "IsClosedConnError err =
     (case err of
        None \<Rightarrow> False
      | Some s \<Rightarrow>
          Contains s ''use of closed network connection'' \<or> Contains s ''broken pipe'' \<or>
          Contains s ''connection reset'' \<or> Contains s ''http: Server closed'')"

section \<open>Lemmas: request traces\<close>

text \<open>
  The contract of every operation of the manager: it only adds to the trace of requests, and every
  request it adds is one it is entitled to send.
\<close>

locale manager_op =
  fixes run :: "'w dworld \<Rightarrow> 'r \<times> 'w dworld"
    and sends :: "DockerReq \<Rightarrow> bool"
  assumes trace_grows: "\<exists>rs. fst (snd (run tw)) = fst tw @ rs \<and> list_all sends rs"
begin

lemma new_requests: "r \<in> set (fst (snd (run tw))) \<Longrightarrow> r \<in> set (fst tw) \<or> sends r"
  using trace_grows[of tw] by (auto simp: list_all_iff)

lemma keeps_safe:
  "list_all safe (fst tw) \<Longrightarrow> (\<And>r. sends r \<Longrightarrow> safe r) \<Longrightarrow> list_all safe (fst (snd (run tw)))"
  using new_requests[of _ tw] by (auto simp: list_all_iff)

end

lemma trace_Do: "fst (snd (httpClient_Do dk r tw)) = fst tw @ [r]"
  by (simp add: httpClient_Do_def split: prod.split)

lemma httpClient_DoD: "httpClient_Do dk r tw = (x, tw') \<Longrightarrow> fst tw' = fst tw @ [r]"
  using trace_Do[of dk r tw] by simp

abbreviation is_call :: "string \<Rightarrow> string \<Rightarrow> DockerReq \<Rightarrow> bool" where
  "is_call meth url r \<equiv> d_Method r = meth \<and> d_URL r = url"

lemma simple_call_trace:
  "\<exists>rs. fst (snd (simple_call dk meth url hdr what acc tw)) = fst tw @ rs \<and> list_all (is_call meth url) rs"
  by (auto simp: simple_call_def dest!: httpClient_DoD split: option.splits prod.splits sum.splits)

interpretation remove_op: manager_op "RemoveContainer dk cid"
  "is_call ''DELETE'' (api @ ''/containers/'' @ cid @ ''?force=true&v=true'')" for dk cid
  unfolding RemoveContainer_def by unfold_locales (rule simple_call_trace)

interpretation start_op: manager_op "StartContainer dk cid"
  "is_call ''POST'' (api @ ''/containers/'' @ cid @ ''/start'')" for dk cid
  unfolding StartContainer_def by unfold_locales (rule simple_call_trace)

interpretation stop_op: manager_op "StopContainer dk cid"
  "is_call ''POST'' (api @ ''/containers/'' @ cid @ ''/stop'')" for dk cid
  unfolding StopContainer_def by unfold_locales (rule simple_call_trace)

interpretation inspect_op: manager_op "InspectContainer dk cid"
  "is_call ''GET'' (api @ ''/containers/'' @ cid @ ''/json'')" for dk cid
  by unfold_locales (auto simp: InspectContainer_def httpClient_Get_def
      dest!: httpClient_DoD split: prod.splits sum.splits)

interpretation list_op: manager_op "ListContainers dk"
  "is_call ''GET'' (api @ ''/containers/json?all=true'')" for dk
  by unfold_locales (auto simp: ListContainers_def httpClient_Get_def
      dest!: httpClient_DoD split: prod.splits sum.splits)

section \<open>Lemmas: logs\<close>

text \<open>A frame of Docker's multiplexed log stream.\<close>

definition be32_bytes :: "nat \<Rightarrow> string" where
  "be32_bytes n =
     [byte_of (n div 16777216), byte_of (n div 65536 mod 256), byte_of (n div 256 mod 256), byte_of (n mod 256)]"

definition docker_frame :: "char \<Rightarrow> string \<Rightarrow> string" where
  "docker_frame stream payload =
     [stream, CHR 0x00, CHR 0x00, CHR 0x00] @ be32_bytes (length payload) @ payload"

lemma length_docker_frame [simp]: "length (docker_frame k q) = 8 + length q"
  by (simp add: docker_frame_def be32_bytes_def)

lemma byte_val_byte_of [simp]: "n < 256 \<Longrightarrow> byte_val (byte_of n) = n"
  by (simp add: byte_val_def byte_of_def)

lemma frame_size_eq:
  "frame_size raw = byte_val (raw ! 4) * 16777216 + byte_val (raw ! 5) * 65536 +
     byte_val (raw ! 6) * 256 + byte_val (raw ! 7)"
proof -
  let ?a = "byte_val (raw ! 4)" and ?b = "byte_val (raw ! 5)"
  let ?c = "byte_val (raw ! 6)" and ?d = "byte_val (raw ! 7)"
  have lt: "?a < 256" "?b < 256" "?c < 256" "?d < 256" by simp_all
  have cd: "?d OR push_bit 8 ?c = ?c * 256 + ?d"
    using push_bit_or_add[of ?d 8 ?c] lt by (simp add: or.commute)
  have bcd: "(?c * 256 + ?d) OR push_bit 16 ?b = ?b * 65536 + (?c * 256 + ?d)"
    using push_bit_or_add[of "?c * 256 + ?d" 16 ?b] lt by (simp add: or.commute)
  have "(?b * 65536 + (?c * 256 + ?d)) OR push_bit 24 ?a = ?a * 16777216 + (?b * 65536 + (?c * 256 + ?d))"
    using push_bit_or_add[of "?b * 65536 + (?c * 256 + ?d)" 24 ?a] lt by (simp add: or.commute)
  then show ?thesis unfolding frame_size_def or.assoc[symmetric] cd bcd by simp
qed

lemma be32_sum:
  fixes n :: nat
  shows "n div 16777216 * 16777216 + n div 65536 mod 256 * 65536 + n div 256 mod 256 * 256 + n mod 256 = n"
proof -
  have "n div 256 = n div 65536 * 256 + n div 256 mod 256"
    using div_mult_mod_eq[of "n div 256" 256] by (simp add: div_mult2_eq[of n 256 256, simplified])
  moreover have "n div 65536 = n div 16777216 * 256 + n div 65536 mod 256"
    using div_mult_mod_eq[of "n div 65536" 256] by (simp add: div_mult2_eq[of n 65536 256, simplified])
  moreover have "n = n div 256 * 256 + n mod 256" by simp
  ultimately show ?thesis by linarith
qed

lemma frame_size_frame:
  assumes "length q < 4294967296"
  shows "frame_size (docker_frame k q @ rest) = length q"
proof -
  have "length q div 16777216 < 256" using assms by (simp add: div_less_iff_less_mult)
  then show ?thesis
    using be32_sum[of "length q"] by (simp add: frame_size_eq docker_frame_def be32_bytes_def)
qed

lemma strip_frames_step:
  assumes "raw = pre @ docker_frame k q @ rest" "frame_size raw = length q" "q \<noteq> []"
  shows "strip_frames raw (length pre) = q @ strip_frames raw (length pre + 8 + length q)"
proof -
  have hdr: "length ([k, CHR 0x00, CHR 0x00, CHR 0x00] @ be32_bytes (length q)) = 8"
    by (simp add: be32_bytes_def)
  have "drop (length pre + 8) raw = drop 8 (([k, CHR 0x00, CHR 0x00, CHR 0x00] @ be32_bytes (length q)) @ q @ rest)"
    using assms(1) by (simp add: docker_frame_def)
  also have "\<dots> = q @ rest" by (subst hdr[symmetric]) simp
  finally have "take (length q) (drop (length pre + 8) raw) = q" by simp
  moreover have "length pre + 8 + length q \<le> length raw" using assms(1) by simp
  ultimately show ?thesis
    using assms by (subst strip_frames.simps) (simp add: Let_def)
qed

lemma strip_frames_equal:
  "raw = pre @ concat (map (\<lambda>(k, q). docker_frame k q) fs) \<Longrightarrow>
   \<forall>(k, q) \<in> set fs. length q = frame_size raw \<Longrightarrow> 0 < frame_size raw \<Longrightarrow>
     strip_frames raw (length pre) = concat (map snd fs)"
proof (induction fs arbitrary: pre)
  case Nil
  then show ?case by (subst strip_frames.simps) simp
next
  case (Cons f fs)
  obtain k q where f: "f = (k, q)" by (cases f)
  have "strip_frames raw (length pre) = q @ strip_frames raw (length pre + 8 + length q)"
    using Cons.prems f by (intro strip_frames_step) auto
  moreover have "strip_frames raw (length (pre @ docker_frame k q)) = concat (map snd fs)"
    using Cons.prems f by (intro Cons.IH) auto
  ultimately show ?case using f by (simp add: add.assoc)
qed

text \<open>The first two frames of a stream: both contribute as many bytes as the first payload has.\<close>

lemma strip_two_frames:
  assumes "0 < length q1" "length q1 < 4294967296" "q2 \<noteq> []"
  shows "strip_frames (docker_frame k1 q1 @ docker_frame k2 q2 @ rest) 0 = q1 @ take (length q1) (q2 @ rest) @
    strip_frames (docker_frame k1 q1 @ docker_frame k2 q2 @ rest)
      (8 + length q1 + 8 + min (length q1) (length (q2 @ rest)))"
proof -
  let ?raw = "docker_frame k1 q1 @ docker_frame k2 q2 @ rest" and ?n = "length q1"
  let ?i = "8 + ?n" and ?m = "min ?n (length (q2 @ rest))"
  have fs: "frame_size ?raw = ?n" by (rule frame_size_frame[OF assms(2)])
  have 1: "strip_frames ?raw 0 = q1 @ strip_frames ?raw ?i"
    using strip_frames_step[of ?raw "[]" k1 q1 "docker_frame k2 q2 @ rest"] fs assms(1) by simp
  have d: "drop (?i + 8) ?raw = q2 @ rest"
  proof -
    have "drop (?i + 8) ?raw = drop 8 (docker_frame k2 q2) @ rest"
      using length_docker_frame[of k1 q1] by (simp add: ac_simps)
    then show ?thesis by (simp add: docker_frame_def be32_bytes_def)
  qed
  have m: "(if ?i + 8 + ?n > length ?raw then length ?raw - (?i + 8) else ?n) = ?m" "0 < ?m"
    using assms(1,3) by auto
  have "strip_frames ?raw ?i = take ?m (q2 @ rest) @ strip_frames ?raw (?i + 8 + ?m)"
    by (subst strip_frames.simps) (use d fs m assms(3) in \<open>simp add: Let_def\<close>)
  moreover have "take ?m (q2 @ rest) = take ?n (q2 @ rest)" by (simp add: min_def)
  ultimately show ?thesis using 1 by (simp add: ac_simps)
qed

text \<open>Of what is left at least a header is dropped.\<close>

lemma strip_frames_length: "length (strip_frames raw i) \<le> length raw - i - 8"
proof (induction raw i rule: strip_frames.induct)
  case (1 raw i)
  show ?case
  proof (cases "i < length raw \<and> i + 8 \<le> length raw")
    case True
    let ?f = "if i + 8 + frame_size raw > length raw then length raw - (i + 8) else frame_size raw"
    have le: "i + 8 + ?f \<le> length raw" using True by simp
    show ?thesis
    proof (cases "0 < ?f")
      case f: True
      have "length (strip_frames raw (i + 8 + ?f)) \<le> length raw - (i + 8 + ?f) - 8"
        using 1[of "i + 8" ?f] True f by (simp add: Let_def)
      moreover have "strip_frames raw i = take ?f (drop (i + 8) raw) @ strip_frames raw (i + 8 + ?f)"
        by (subst strip_frames.simps) (use True f in \<open>simp add: Let_def\<close>)
      ultimately show ?thesis using le by simp
    next
      case False
      then have "strip_frames raw i = []" by (subst strip_frames.simps) (use True in \<open>simp add: Let_def\<close>)
      then show ?thesis by simp
    qed
  next
    case False
    then have "strip_frames raw i = []" by (subst strip_frames.simps) auto
    then show ?thesis by simp
  qed
qed

section \<open>Properties\<close>

text \<open>C39: When all frames of a log stream have the same non-empty payload length, the log text is the
  concatenation of the payloads.\<close>

theorem logs_equal_frames:
  assumes "fs \<noteq> []" "\<forall>(k, q) \<in> set fs. length q = n" "0 < n" "n < 4294967296"
  shows "strip_frames (concat (map (\<lambda>(k, q). docker_frame k q) fs)) 0 = concat (map snd fs)"
proof -
  obtain k q gs where fs: "fs = (k, q) # gs" using assms(1) by (cases fs) auto
  then have "frame_size (concat (map (\<lambda>(k, q). docker_frame k q) fs)) = n"
    using assms frame_size_frame[of q k] by simp
  then show ?thesis
    using strip_frames_equal[of _ "[]" fs] assms by simp
qed

theorem logs_equal_frames_witness:
  "strip_frames (concat (map (\<lambda>(k, q). docker_frame k q) [(CHR 0x01, ''ab''), (CHR 0x02, ''cd'')])) 0 =
   concat (map snd [(CHR 0x01, ''ab''), (CHR 0x02, ''cd'')])"
  by (rule logs_equal_frames[where n = 2]) simp_all

text \<open>C40: The size of every frame is read from the header of the first one (bytes 4 to 7 of the whole
  response), so the second frame contributes as many bytes as the first one has, whatever its own
  header says. When its payload is longer than the first one and the stream ends there, text is
  lost; when it is shorter and another frame follows, the text goes on with that frame's header.\<close>

theorem logs_unequal_frames_garbled:
  assumes "0 < length q1" "length q1 < 4294967296" "q2 \<noteq> []"
  shows "(\<exists>more. strip_frames (docker_frame k1 q1 @ docker_frame k2 q2 @ rest) 0 =
       q1 @ take (length q1) (q2 @ rest) @ more) \<and>
    (length q1 < length q2 \<longrightarrow>
       length (strip_frames (docker_frame k1 q1 @ docker_frame k2 q2) 0) < length (q1 @ q2)) \<and>
    (length q2 < length q1 \<longrightarrow>
       (\<exists>more. strip_frames (docker_frame k1 q1 @ docker_frame k2 q2 @ docker_frame k3 q3) 0 = q1 @ q2 @ k3 # more))"
proof (intro conjI impI)
  let ?n = "length q1"
  note two = strip_two_frames[OF assms, of k1 k2]
  show "\<exists>more. strip_frames (docker_frame k1 q1 @ docker_frame k2 q2 @ rest) 0 = q1 @ take ?n (q2 @ rest) @ more"
    using two by blast
  {
    assume "?n < length q2"
    then show "length (strip_frames (docker_frame k1 q1 @ docker_frame k2 q2) 0) < length (q1 @ q2)"
      using two[of "[]"] strip_frames_length[of "docker_frame k1 q1 @ docker_frame k2 q2" "8 + ?n + 8 + ?n"]
      by simp
  }
  assume l: "length q2 < ?n"
  have "take ?n (q2 @ docker_frame k3 q3) = q2 @ k3 # take (?n - length q2 - 1) (tl (docker_frame k3 q3))"
    using l by (cases "?n - length q2") (simp_all add: docker_frame_def)
  then show "\<exists>more. strip_frames (docker_frame k1 q1 @ docker_frame k2 q2 @ docker_frame k3 q3) 0 = q1 @ q2 @ k3 # more"
    using two[of "docker_frame k3 q3"] by simp
qed

theorem logs_unequal_frames_garbled_witness:
  "\<exists>more. strip_frames (docker_frame (CHR 0x01) ''ab'' @ docker_frame (CHR 0x01) ''c'' @ docker_frame (CHR 0x02) ''de'') 0 =
     ''abc'' @ CHR 0x02 # more"
  using logs_unequal_frames_garbled[of "''ab''" "''c''" "CHR 0x01" "CHR 0x01" "[]" "CHR 0x02" "''de''"] by simp

end
