(* ===== verification/ProxyHttp.thy ===== *)
theory ProxyHttp
  imports Tunnel Container
begin

text \<open>
  src/internal/proxy/proxy.go, second part: the handlers of HTTP requests and of CONNECT tunnels
  with their TLS interception, and the response writer over a raw connection. A handler takes the
  parsed request and gives its events and the new proxy state (counters and the table of blocked
  hosts). \<^verbatim>\<open>httpConnResponseWriter\<close> is always a Hijacker whose Hijack returns no error, so these two
  branches of handleCONNECT are not taken.
\<close>

section \<open>The response writer\<close>

record Writer =
  w_header :: Header
  w_code :: int
  w_wroteHeader :: bool

definition newWriter :: Writer where
  "newWriter = \<lparr>w_header = [], w_code = 0, w_wroteHeader = False\<rparr>"

definition WriteHeader :: "int \<Rightarrow> Writer \<Rightarrow> event list \<times> Writer" where
  "WriteHeader code w =
     (if w_wroteHeader w then ([], w)
      else
        (let statusText = (if StatusText code = [] then ''status code '' @ itoa code else StatusText code) in
         ([EvWrite (''HTTP/1.1 '' @ itoa code @ '' '' @ statusText @ crlf)] @
          concat (map (\<lambda>(k, vals). map (\<lambda>v. EvWrite (k @ '': '' @ v @ crlf)) vals) (w_header w)) @
          [EvWrite crlf],
          w\<lparr>w_wroteHeader := True, w_code := code\<rparr>)))"

definition Write :: "string \<Rightarrow> Writer \<Rightarrow> event list \<times> Writer" where
  "Write b w =
     (if w_wroteHeader w then ([EvWrite b], w)
      else (case WriteHeader 200 w of (evs, w1) \<Rightarrow> (evs @ [EvWrite b], w1)))"

text \<open>\<^verbatim>\<open>http.Error\<close>\<close>

definition http_Error :: "Writer \<Rightarrow> string \<Rightarrow> int \<Rightarrow> event list" where
  "http_Error w msg code =
     (let h = header_Set (header_Set (header_Del (w_header w) ''Content-Length'')
                ''Content-Type'' ''text/plain; charset=utf-8'') ''X-Content-Type-Options'' ''nosniff'' in
      case WriteHeader code (w\<lparr>w_header := h\<rparr>) of
        (evs, w1) \<Rightarrow> evs @ fst (Write (msg @ newline) w1))"

section \<open>Sentinels\<close>

definition replaceSentinelsInRequest :: "Proxy \<Rightarrow> Request \<Rightarrow> Header \<times> string" where
  "replaceSentinelsInRequest p r =
     (ReplaceSentinelsInHeaders (px_secrets p) (rq_Header r),
      (case rq_Body r of
         None \<Rightarrow> []
       | Some body \<Rightarrow> ReplaceSentinelsInBody (px_secrets p) body))"

definition replaceSentinelsInResponse :: "Proxy \<Rightarrow> Response \<Rightarrow> string option" where
  "replaceSentinelsInResponse p resp =
     map_option (ReplaceSentinelsInBody (px_secrets p)) (rs_Body resp)"

section \<open>Plain HTTP\<close>

definition blocked_msg :: "string \<Rightarrow> string" where
  "blocked_msg ruleID = ''Blocked by policy (rule: '' @ ruleID @ '')''"

definition block :: "netenv \<Rightarrow> string \<Rightarrow> string \<Rightarrow> Proxy \<Rightarrow> Proxy" where
  "block env host port p =
     incDenied (p\<lparr>px_blockedHosts := (px_blockedHosts p)(host @ '':'' @ port \<mapsto> n_now env)\<rparr>)"

text \<open>The response headers as they are copied to the client.\<close>

definition copy_headers :: "SecretManager \<Rightarrow> Header \<Rightarrow> Header \<Rightarrow> Header" where
  "copy_headers sm from into =
     foldl (\<lambda>h (k, v). header_Add h k (RedactSecretsInHeader sm v)) into
       (concat (map (\<lambda>(k, vals). map (\<lambda>v. (k, v)) vals) from))"

definition http_upstream :: "Proxy \<Rightarrow> Request \<Rightarrow> string \<Rightarrow> string \<Rightarrow> Request" where
  "http_upstream p r host port =
     (case replaceSentinelsInRequest p r of
        (headers, bodyBytes) \<Rightarrow>
          (SetRequestBody (r\<lparr>rq_Header := headers\<rparr>) bodyBytes)
            \<lparr>rq_URL := \<lparr>u_Scheme = ''http'', u_Host = host @ '':'' @ port, u_Path = u_Path (rq_URL r),
                       u_RawQuery = u_RawQuery (rq_URL r)\<rparr>,
             rq_RequestURI := []\<rparr>)"

definition handleHTTP ::
  "unifold \<Rightarrow> netenv \<Rightarrow> Writer \<Rightarrow> Request \<Rightarrow> string \<Rightarrow> string \<Rightarrow> string \<Rightarrow> Proxy \<Rightarrow> event list \<times> Proxy" where
  "handleHTTP uf env w r host port sandboxName p =
     (case Evaluate uf (px_policy p) host port sandboxName of
        (DecisionDeny, ruleID) \<Rightarrow> (http_Error w (blocked_msg ruleID) 403, block env host port p)
      | (DecisionAllow, ruleID) \<Rightarrow>
          (let r1 = http_upstream p r host port in
           case n_roundtrip env 0 r1 of
             Inl e \<Rightarrow> (EvRoundTrip r1 # http_Error w ''Bad Gateway'' 502, p)
           | Inr resp \<Rightarrow>
               (let respBody = replaceSentinelsInResponse p resp;
                    w1 = w\<lparr>w_header := copy_headers (px_secrets p) (rs_Header resp) (w_header w)\<rparr>
                in case WriteHeader (rs_StatusCode resp) w1 of
                     (evs, w2) \<Rightarrow>
                       (EvRoundTrip r1 # evs @
                        (case respBody of Some b \<Rightarrow> fst (Write b w2) | None \<Rightarrow> []), p))))"

section \<open>CONNECT\<close>

definition mitm_upstream :: "Proxy \<Rightarrow> Request \<Rightarrow> string \<Rightarrow> string \<Rightarrow> Request \<Rightarrow> Request" where
  "mitm_upstream p r host port req =
     (case replaceSentinelsInRequest p req of
        (headers, bodyBytes) \<Rightarrow>
          (SetRequestBody (req\<lparr>rq_Header := headers\<rparr>) bodyBytes)
            \<lparr>rq_URL := \<lparr>u_Scheme = ''https'', u_Host = host @ '':'' @ port, u_Path = u_Path (rq_URL req),
                       u_RawQuery = u_RawQuery (rq_URL req)\<rparr>,
             rq_RequestURI := [], rq_RemoteAddr := rq_RemoteAddr r\<rparr>)"

definition bad_gateway :: Response where
  "bad_gateway =
     \<lparr>rs_StatusCode = 502, rs_Header = [], rs_Body = Some (''Bad Gateway'' @ newline), rs_ContentLength = 0\<rparr>"

definition mitm_response :: "Proxy \<Rightarrow> Response \<Rightarrow> Response" where
  "mitm_response p resp =
     (case replaceSentinelsInResponse p resp of
        None \<Rightarrow> resp
      | Some body \<Rightarrow> resp\<lparr>rs_Body := Some body, rs_ContentLength := int (length body)\<rparr>)"

text \<open>The request loop inside the TLS session; \<open>n\<close> numbers the requests.\<close>

fun mitm_loop ::
  "netenv \<Rightarrow> Proxy \<Rightarrow> Request \<Rightarrow> string \<Rightarrow> string \<Rightarrow> nat \<Rightarrow> (goerror + Request) list \<Rightarrow> event list" where
  "mitm_loop env p r host port n [] = []"
| "mitm_loop env p r host port n (Inl e # reqs) = []"
| "mitm_loop env p r host port n (Inr req # reqs) =
     (let req1 = mitm_upstream p r host port req in
      EvRoundTrip req1 #
      (case n_roundtrip env n req1 of
         Inl e \<Rightarrow> EvTLSWrite bad_gateway
       | Inr resp \<Rightarrow> EvTLSWrite (mitm_response p resp)) #
      mitm_loop env p r host port (Suc n) reqs)"

definition established :: string where
  "established = ''HTTP/1.1 200 Connection established'' @ crlf @ crlf"

definition handleCONNECT ::
  "unifold \<Rightarrow> netenv \<Rightarrow> Writer \<Rightarrow> Request \<Rightarrow> string \<Rightarrow> string \<Rightarrow> string \<Rightarrow> Proxy \<Rightarrow> event list \<times> Proxy" where
  "handleCONNECT uf env w r host port sandboxName p =
     (case Evaluate uf (px_policy p) host port sandboxName of
        (DecisionDeny, ruleID) \<Rightarrow> (http_Error w (blocked_msg ruleID) 403, block env host port p)
      | (DecisionAllow, ruleID) \<Rightarrow>
          (EvWrite established #
           (case n_established_err env of
              Some e \<Rightarrow> [EvClose]
            | None \<Rightarrow>
                EvHandshake #
                (case n_handshake_err env of
                   Some e \<Rightarrow> [EvClose]
                 | None \<Rightarrow> mitm_loop env p r host port 0 (n_mitm env) @ [EvTLSClose])), p))"

section \<open>The entry points\<close>

definition handleProxy ::
  "unifold \<Rightarrow> netenv \<Rightarrow> Writer \<Rightarrow> Request \<Rightarrow> Proxy \<Rightarrow> event list \<times> Proxy" where
  "handleProxy uf env w r p =
     (let (host, port) = (case SplitHostPort (rq_Host r) of
            Inr (h, q) \<Rightarrow> (h, q) | Inl _ \<Rightarrow> (rq_Host r, ''80''));
          sandboxName = header_Get (rq_Header r) ''X-Sandbox-Name'';
          r1 = (if sandboxName \<noteq> [] then r\<lparr>rq_Header := header_Del (rq_Header r) ''X-Sandbox-Name''\<rparr> else r)
      in if rq_Method r = ''CONNECT''
         then handleCONNECT uf env w r1 host port sandboxName (incConn ''connect'' p)
         else handleHTTP uf env w r1 host port sandboxName (incConn ''http'' p))"

definition handleHTTPFromReader ::
  "unifold \<Rightarrow> netenv \<Rightarrow> string \<Rightarrow> string \<Rightarrow> Proxy \<Rightarrow> event list \<times> Proxy" where
  "handleHTTPFromReader uf env inp sandboxName p =
     (case n_ReadRequest env inp of
        Inl e \<Rightarrow> ([EvClose], p)
      | Inr req \<Rightarrow>
          (let req1 = (if sandboxName \<noteq> []
                       then req\<lparr>rq_Header := header_Set (rq_Header req) ''X-Sandbox-Name'' sandboxName\<rparr>
                       else req)
           in handleProxy uf env newWriter req1 p))"

definition isClosedConnError :: "goerror option \<Rightarrow> bool" where
  "isClosedConnError err =
     (case err of
        None \<Rightarrow> False
      | Some s \<Rightarrow>
          Contains s ''use of closed network connection'' \<or> Contains s ''broken pipe'' \<or>
          Contains s ''connection reset'' \<or> Contains s ''http: Server closed'' \<or>
          Contains s ''tls: '' \<and> Contains s ''closed'')"

section \<open>Lemmas: effects of the writer\<close>

lemma WriteHeader_no_out: "mediated pm rc (fst (WriteHeader code w))"
  by (auto simp: WriteHeader_def Let_def mediated_def)

lemma Write_no_out: "mediated pm rc (fst (Write b w))"
  using WriteHeader_no_out[of pm rc 200 w] by (auto simp: Write_def split: prod.split)

lemma http_Error_no_out: "mediated pm rc (http_Error w msg code)"
proof -
  obtain evs w1 where "WriteHeader code (w\<lparr>w_header := header_Set (header_Set (header_Del (w_header w) ''Content-Length'')
      ''Content-Type'' ''text/plain; charset=utf-8'') ''X-Content-Type-Options'' ''nosniff''\<rparr>) = (evs, w1)"
    by fastforce
  then show ?thesis
    using WriteHeader_no_out[of pm rc code] Write_no_out[of pm rc _ w1]
    by (simp add: http_Error_def) (metis fst_conv)
qed

lemma http_upstream_host: "u_Host (rq_URL (http_upstream p r host port)) = host @ '':'' @ port"
  by (simp add: http_upstream_def replaceSentinelsInRequest_def)

lemma mitm_upstream_host: "u_Host (rq_URL (mitm_upstream p r host port req)) = host @ '':'' @ port"
  by (simp add: mitm_upstream_def replaceSentinelsInRequest_def)

lemma mitm_loop_out:
  "e \<in> set (mitm_loop env p r host port n reqs) \<Longrightarrow> outbound e = Some a \<Longrightarrow> a = host @ '':'' @ port"
  by (induction env p r host port n reqs rule: mitm_loop.induct)
    (auto simp: Let_def mitm_upstream_host split: sum.splits)

section \<open>Lemmas: mediation\<close>

lemma permitted_out: "permitted uf p sb host port \<Longrightarrow> out_ok (permitted uf p sb) (reach env) (host @ CHR '':'' # port)"
  using out_okI[of "permitted uf p sb" host port _ "reach env"] by simp

lemma handleHTTP_mediated:
  "mediated (permitted uf p sb) (reach env) (fst (handleHTTP uf env w r host port sb p))"
proof (cases "fst (Evaluate uf (px_policy p) host port sb)")
  case DecisionAllow
  then have ok: "out_ok (permitted uf p sb) (reach env) (u_Host (rq_URL (http_upstream p r host port)))"
    using permitted_out[of uf p sb host port env] by (simp add: permitted_def http_upstream_host)
  obtain i where ev: "Evaluate uf (px_policy p) host port sb = (DecisionAllow, i)"
    using DecisionAllow by (metis prod.collapse)
  show ?thesis
  proof (cases "n_roundtrip env 0 (http_upstream p r host port)")
    case (Inl e)
    then show ?thesis using ev ok http_Error_no_out by (simp add: handleHTTP_def Let_def)
  next
    case (Inr resp)
    let ?w1 = "w\<lparr>w_header := copy_headers (px_secrets p) (rs_Header resp) (w_header w)\<rparr>"
    obtain evs w2 where wh: "WriteHeader (rs_StatusCode resp) ?w1 = (evs, w2)" by fastforce
    then have "mediated (permitted uf p sb) (reach env) evs"
      using WriteHeader_no_out[of _ _ "rs_StatusCode resp" ?w1] by simp
    then show ?thesis
      using ev ok Inr wh Write_no_out by (auto simp: handleHTTP_def Let_def split: option.split)
  qed
next
  case DecisionDeny
  then show ?thesis
    using http_Error_no_out by (auto simp: handleHTTP_def split: prod.split)
qed

lemma handleCONNECT_mediated:
  "mediated (permitted uf p sb) (reach env) (fst (handleCONNECT uf env w r host port sb p))"
proof (cases "fst (Evaluate uf (px_policy p) host port sb)")
  case DecisionAllow
  then have "out_ok (permitted uf p sb) (reach env) (host @ CHR '':'' # port)"
    using permitted_out[of uf p sb host port env] by (simp add: permitted_def)
  then have "mediated (permitted uf p sb) (reach env) (mitm_loop env p r host port 0 (n_mitm env))"
    using mitm_loop_out by (fastforce simp: mediated_def)
  then show ?thesis
    using DecisionAllow by (auto simp: handleCONNECT_def split: prod.split option.split)
next
  case DecisionDeny
  then show ?thesis
    using http_Error_no_out by (auto simp: handleCONNECT_def split: prod.split)
qed

lemma permitted_incConn [simp]: "permitted uf (incConn pr p) = permitted uf p"
  by (simp add: permitted_def fun_eq_iff)

lemma handleProxy_mediated:
  "mediated (permitted uf p (header_Get (rq_Header r) ''X-Sandbox-Name'')) (reach env)
     (fst (handleProxy uf env w r p))"
  using handleHTTP_mediated[of uf "incConn ''http'' p"] handleCONNECT_mediated[of uf "incConn ''connect'' p"]
  by (auto simp: handleProxy_def Let_def split: sum.split prod.split)

text \<open>The sandbox name in force for an HTTP connection: the proxy's own when it has one, else what
  the client's header says.\<close>

definition http_scope :: "netenv \<Rightarrow> string \<Rightarrow> string \<Rightarrow> string" where
  "http_scope env inp sandboxName =
     (if sandboxName \<noteq> [] then sandboxName
      else (case n_ReadRequest env inp of
              Inl _ \<Rightarrow> [] | Inr req \<Rightarrow> header_Get (rq_Header req) ''X-Sandbox-Name''))"

lemma handleHTTPFromReader_mediated:
  "mediated (permitted uf p (http_scope env inp sb)) (reach env)
     (fst (handleHTTPFromReader uf env inp sb p))"
proof (cases "n_ReadRequest env inp")
  case (Inl e)
  then show ?thesis by (simp add: handleHTTPFromReader_def)
next
  case (Inr req)
  let ?req = "req\<lparr>rq_Header := header_Set (rq_Header req) ''X-Sandbox-Name'' sb\<rparr>"
  show ?thesis
  proof (cases "sb = []")
    case True
    then show ?thesis
      using Inr handleProxy_mediated[of uf p req env newWriter]
      by (simp add: handleHTTPFromReader_def http_scope_def)
  next
    case False
    then show ?thesis
      using Inr handleProxy_mediated[of uf p ?req env newWriter]
      by (simp add: handleHTTPFromReader_def http_scope_def)
  qed
qed

interpretation http: mediated_handler
  "\<lambda>(uf, env, p, inp, sb). fst (handleHTTPFromReader uf env inp sb p)"
  "\<lambda>(uf, env, p, inp, sb). permitted uf p (http_scope env inp sb)"
  "\<lambda>(uf, env, p, inp, sb). reach env"
  by unfold_locales (auto simp: handleHTTPFromReader_mediated)

section \<open>Lemmas: frames\<close>

lemma mitm_loop_env [simp]:
  "mitm_loop (env\<lparr>n_ReadRequest := f\<rparr>) p r host port n reqs = mitm_loop env p r host port n reqs"
  by (induction env p r host port n reqs rule: mitm_loop.induct) (simp_all add: Let_def)

lemma block_env [simp]: "block (env\<lparr>n_ReadRequest := f\<rparr>) host port p = block env host port p"
  by (simp add: block_def)

lemma handleHTTP_env [simp]:
  "handleHTTP uf (env\<lparr>n_ReadRequest := f\<rparr>) w r host port sb p = handleHTTP uf env w r host port sb p"
  by (auto simp: handleHTTP_def Let_def split: prod.split Decision.split)

lemma handleCONNECT_env [simp]:
  "handleCONNECT uf (env\<lparr>n_ReadRequest := f\<rparr>) w r host port sb p = handleCONNECT uf env w r host port sb p"
  by (auto simp: handleCONNECT_def split: prod.split Decision.split option.split)

lemma header_Del_Del [simp]: "header_Del (header_Del h k) k = header_Del h k"
  by (simp add: header_Del_def)

lemma header_Del_distinct [simp]: "distinct (map fst h) \<Longrightarrow> distinct (map fst (header_Del h k))"
  by (simp add: header_Del_def distinct_map_filter)

definition only_writes :: "event list \<Rightarrow> bool" where
  "only_writes evs \<longleftrightarrow> list_all (\<lambda>e. case e of EvWrite _ \<Rightarrow> True | _ \<Rightarrow> False) evs"

lemma WriteHeader_only_writes: "only_writes (fst (WriteHeader code w))"
  by (auto simp: WriteHeader_def Let_def only_writes_def list_all_iff)

lemma WriteHeader_wrote: "w_wroteHeader (snd (WriteHeader code w))"
  by (simp add: WriteHeader_def Let_def)

lemma Write_after_header: "w_wroteHeader w \<Longrightarrow> Write b w = ([EvWrite b], w)"
  by (simp add: Write_def)

lemma http_Error_shape:
  assumes "\<not> w_wroteHeader w" "StatusText code \<noteq> []"
  shows "\<exists>hs. http_Error w msg code =
    EvWrite (''HTTP/1.1 '' @ itoa code @ '' '' @ StatusText code @ crlf) # hs @ [EvWrite (msg @ newline)] \<and>
    only_writes hs"
proof -
  define h where "h = header_Set (header_Set (header_Del (w_header w) ''Content-Length'')
      ''Content-Type'' ''text/plain; charset=utf-8'') ''X-Content-Type-Options'' ''nosniff''"
  have "http_Error w msg code =
     EvWrite (''HTTP/1.1 '' @ itoa code @ '' '' @ StatusText code @ crlf) #
     (concat (map (\<lambda>(k, vals). map (\<lambda>v. EvWrite (k @ '': '' @ v @ crlf)) vals) h) @ [EvWrite crlf]) @
     [EvWrite (msg @ newline)]"
    using assms by (simp add: http_Error_def WriteHeader_def Write_def Let_def h_def)
  moreover have "only_writes (concat (map (\<lambda>(k, vals). map (\<lambda>v. EvWrite (k @ '': '' @ v @ crlf)) vals) h) @ [EvWrite crlf])"
    by (auto simp: only_writes_def list_all_iff)
  ultimately show ?thesis by blast
qed

lemma only_writes_no_out: "only_writes evs \<Longrightarrow> e \<in> set evs \<Longrightarrow> outbound e = None \<and> e \<noteq> EvClose"
  by (cases e) (auto simp: only_writes_def list_all_iff)

lemma StatusText_403: "StatusText 403 = ''Forbidden''"
  by (simp add: StatusText_def status_texts_def)

lemma mitm_loop_pairs:
  "mitm_loop env p r host port n reqs =
     concat (map (\<lambda>(k, req).
        let q = mitm_upstream p r host port req in
        [EvRoundTrip q,
         EvTLSWrite (case n_roundtrip env k q of Inl e \<Rightarrow> bad_gateway | Inr resp \<Rightarrow> mitm_response p resp)])
       (enumerate n (map projr (takeWhile (\<lambda>x. \<not> isl x) reqs))))"
  by (induction env p r host port n reqs rule: mitm_loop.induct)
    (auto simp: Let_def split: sum.split)

section \<open>Properties\<close>

text \<open>C7: When the proxy has a sandbox name, an HTTP client cannot choose the scope its requests are
  judged in: the events and the new state are the same whether or not the request carries an
  X-Sandbox-Name header.\<close>

theorem http_scope_not_spoofable:
  assumes "sb \<noteq> []" "distinct (map fst (rq_Header req))"
  shows "handleHTTPFromReader uf (env\<lparr>n_ReadRequest := \<lambda>_. Inr req\<rparr>) inp sb p =
    handleHTTPFromReader uf (env\<lparr>n_ReadRequest := \<lambda>_. Inr
      (req\<lparr>rq_Header := header_Del (rq_Header req) ''X-Sandbox-Name''\<rparr>)\<rparr>) inp sb p"
  using assms
  by (auto simp: handleHTTPFromReader_def handleProxy_def Let_def split: sum.split prod.split)

theorem http_scope_not_spoofable_witness:
  "let req = \<lparr>rq_Method = ''GET'', rq_Host = ''a.io'', rq_Header = [(''X-Sandbox-Name'', [''other''])],
      rq_Body = None, rq_ContentLength = 0, rq_URL = \<lparr>u_Scheme = ''http'', u_Host = ''a.io'', u_Path = ''/'',
      u_RawQuery = []\<rparr>, rq_RequestURI = [], rq_RemoteAddr = []\<rparr> in
   handleHTTPFromReader (\<lambda>_ _. False) (quiet_net\<lparr>n_ReadRequest := \<lambda>_. Inr req\<rparr>) ''GET'' ''box''
     (NewProxy sample_engine NewSecretManager []) =
   handleHTTPFromReader (\<lambda>_ _. False) (quiet_net\<lparr>n_ReadRequest := \<lambda>_. Inr
      (req\<lparr>rq_Header := header_Del (rq_Header req) ''X-Sandbox-Name''\<rparr>)\<rparr>) ''GET'' ''box''
     (NewProxy sample_engine NewSecretManager [])"
  unfolding Let_def by (rule http_scope_not_spoofable) simp_all

text \<open>C8: A request or a CONNECT that the policy denies is answered with a 403 status line and the
  rule's id, nothing leaves the proxy, the denial is counted once and the host and port are
  entered in the table of blocked hosts with the current time.\<close>

theorem denied_http_is_blocked:
  assumes "Evaluate uf (px_policy p) host port sb = (DecisionDeny, i)"
    and "run = handleHTTP uf env newWriter r host port sb p \<or> run = handleCONNECT uf env newWriter r host port sb p"
  shows "case run of (evs, p') \<Rightarrow>
    hd evs = EvWrite (''HTTP/1.1 403 Forbidden'' @ crlf) \<and> last evs = EvWrite (blocked_msg i @ newline) \<and>
    only_writes evs \<and> px_deniedTotal p' = int64 (px_deniedTotal p + 1) \<and>
    px_blockedHosts p' = (px_blockedHosts p)(host @ '':'' @ port \<mapsto> n_now env)"
proof -
  have "itoa 403 = ''403''" by (simp add: itoa_def nat_dec.simps digit_def)
  moreover have "\<not> w_wroteHeader newWriter" by (simp add: newWriter_def)
  ultimately obtain hs where hs: "http_Error newWriter (blocked_msg i) 403 =
      EvWrite (''HTTP/1.1 403 Forbidden'' @ crlf) # hs @ [EvWrite (blocked_msg i @ newline)]" "only_writes hs"
    using http_Error_shape[of newWriter 403 "blocked_msg i"] StatusText_403 by auto
  have "run = (http_Error newWriter (blocked_msg i) 403, block env host port p)"
    using assms by (auto simp: handleHTTP_def handleCONNECT_def)
  then show ?thesis
    using hs by (simp add: block_def incDenied_def only_writes_def)
qed

theorem denied_http_is_blocked_witness:
  "\<exists>i. case handleCONNECT (\<lambda>_ _. False) quiet_net newWriter
     \<lparr>rq_Method = ''CONNECT'', rq_Host = ''a.io:443'', rq_Header = [], rq_Body = None, rq_ContentLength = 0,
      rq_URL = \<lparr>u_Scheme = [], u_Host = [], u_Path = [], u_RawQuery = []\<rparr>, rq_RequestURI = [], rq_RemoteAddr = []\<rparr>
     ''a.io'' ''443'' [] (NewProxy sample_engine NewSecretManager []) of (evs, p') \<Rightarrow>
    hd evs = EvWrite (''HTTP/1.1 403 Forbidden'' @ crlf) \<and> last evs = EvWrite (blocked_msg i @ newline) \<and>
    only_writes evs \<and> px_deniedTotal p' = 1"
proof -
  let ?p = "NewProxy sample_engine NewSecretManager []"
  have pol: "px_policy ?p = sample_engine" "px_deniedTotal ?p = 0" by (simp_all add: NewProxy_def)
  obtain i where "Evaluate (\<lambda>_ _. False) (px_policy ?p) ''a.io'' ''443'' [] = (DecisionDeny, i)"
    using sample_engine_denies[of "\<lambda>_ _. False" "''a.io''" "''443''" "[]"] pol by (metis prod.collapse)
  from denied_http_is_blocked[OF this disjI2[OF refl], of quiet_net
      "\<lparr>rq_Method = ''CONNECT'', rq_Host = ''a.io:443'', rq_Header = [], rq_Body = None, rq_ContentLength = 0,
      rq_URL = \<lparr>u_Scheme = [], u_Host = [], u_Path = [], u_RawQuery = []\<rparr>, rq_RequestURI = [], rq_RemoteAddr = []\<rparr>"]
  show ?thesis using pol by (auto simp: int64_def split: prod.splits)
qed

text \<open>Every request that leaves the proxy over HTTP or inside a CONNECT tunnel carries the
  client's headers with all sentinels replaced, the client's body with all sentinels replaced,
  and a content length equal to the length of that body.\<close>

theorem upstream_requests_carry_secrets:
  "rq_Header (http_upstream p r host port) = ReplaceSentinelsInHeaders (px_secrets p) (rq_Header r) \<and>
   rq_Body (http_upstream p r host port) =
     Some (case rq_Body r of None \<Rightarrow> [] | Some b \<Rightarrow> ReplaceSentinelsInBody (px_secrets p) b) \<and>
   rq_ContentLength (http_upstream p r host port) = int (length (the (rq_Body (http_upstream p r host port)))) \<and>
   rq_Header (mitm_upstream p r host port req) = ReplaceSentinelsInHeaders (px_secrets p) (rq_Header req) \<and>
   rq_Body (mitm_upstream p r host port req) =
     Some (case rq_Body req of None \<Rightarrow> [] | Some b \<Rightarrow> ReplaceSentinelsInBody (px_secrets p) b) \<and>
   rq_ContentLength (mitm_upstream p r host port req) =
     int (length (the (rq_Body (mitm_upstream p r host port req))))"
  by (simp add: http_upstream_def mitm_upstream_def replaceSentinelsInRequest_def SetRequestBody_def)

text \<open>C27: The body a client receives for an allowed plain request is the upstream's body with every
  sentinel replaced by the secret's value: an upstream that echoes a sentinel hands the secret
  itself to the sandbox.\<close>

theorem response_body_exposes_values:
  assumes "Evaluate uf (px_policy p) host port sb = (DecisionAllow, i)"
    and "n_roundtrip env 0 (http_upstream p r host port) = Inr resp" "rs_Body resp = Some b"
  shows "last (fst (handleHTTP uf env w r host port sb p)) = EvWrite (ReplaceSentinelsInBody (px_secrets p) b)"
proof -
  let ?w1 = "w\<lparr>w_header := copy_headers (px_secrets p) (rs_Header resp) (w_header w)\<rparr>"
  obtain evs w2 where wh: "WriteHeader (rs_StatusCode resp) ?w1 = (evs, w2)" by fastforce
  then have "Write b' w2 = ([EvWrite b'], w2)" for b'
    using WriteHeader_wrote[of "rs_StatusCode resp" ?w1] Write_after_header by simp
  then show ?thesis
    using assms wh by (simp add: handleHTTP_def Let_def replaceSentinelsInResponse_def)
qed

definition sample_request :: Request where
  "sample_request =
     \<lparr>rq_Method = ''GET'', rq_Host = ''a.io'', rq_Header = [], rq_Body = None, rq_ContentLength = 0,
      rq_URL = \<lparr>u_Scheme = ''http'', u_Host = ''a.io'', u_Path = ''/'', u_RawQuery = []\<rparr>,
      rq_RequestURI = [], rq_RemoteAddr = []\<rparr>"

definition sample_secrets :: SecretManager where
  "sample_secrets = SetSecrets
     [\<lparr>s_Target = ''a.io'', s_EnvName = ''K'', s_Sentinel = ''KEY'', s_Value = ''s3cret''\<rparr>] NewSecretManager"

definition echo_net :: netenv where
  "echo_net = quiet_net\<lparr>n_roundtrip := \<lambda>_ _. Inr
     \<lparr>rs_StatusCode = 200, rs_Header = [], rs_Body = Some ''is KEY'', rs_ContentLength = 6\<rparr>\<rparr>"

lemma sample_secrets_replaced: "ReplaceSentinelsInBody sample_secrets ''is KEY'' = ''is s3cret''"
  by code_simp

theorem response_body_exposes_values_witness:
  "last (fst (handleHTTP (\<lambda>_ _. False) echo_net newWriter sample_request ''a.io'' ''80'' []
      (NewProxy open_engine sample_secrets []))) = EvWrite ''is s3cret''"
proof -
  let ?p = "NewProxy open_engine sample_secrets []"
  have "Evaluate (\<lambda>_ _. False) (px_policy ?p) ''a.io'' ''80'' [] = (DecisionAllow, ''default-allow'')"
    by (simp add: NewProxy_def open_engine_allows)
  from response_body_exposes_values[OF this, where env = echo_net and b = "''is KEY''" and r = sample_request
      and w = newWriter]
  show ?thesis by (simp add: echo_net_def NewProxy_def sample_secrets_replaced)
qed

text \<open>C26: An allowed CONNECT tunnel whose client completes the TLS handshake is answered request by request,
  in order, until the first request that cannot be read, and then closed. For each request read
  there is exactly one round trip: to https at the host and port the tunnel was allowed for,
  whatever the request itself names, with the request's method, path and query, the sentinels in
  its headers and body replaced by the secret values, and the length of the new body. It is followed
  by exactly one response: a 502 if the round trip failed, else the upstream's with the sentinels of
  its body replaced and the length set accordingly.\<close>

theorem mitm_session_answers_in_order:
  assumes "fst (Evaluate uf (px_policy p) host port sb) = DecisionAllow"
    and "n_established_err env = None" "n_handshake_err env = None"
  shows "handleCONNECT uf env w r host port sb p =
    ([EvWrite (''HTTP/1.1 200 Connection established'' @ crlf @ crlf), EvHandshake] @
     concat (map (\<lambda>(k, req).
       let body = (case rq_Body req of None \<Rightarrow> [] | Some b \<Rightarrow> ReplaceSentinelsInBody (px_secrets p) b);
           q = req\<lparr>rq_Header := ReplaceSentinelsInHeaders (px_secrets p) (rq_Header req), rq_Body := Some body,
                   rq_ContentLength := int (length body),
                   rq_URL := \<lparr>u_Scheme = ''https'', u_Host = host @ '':'' @ port, u_Path = u_Path (rq_URL req),
                             u_RawQuery = u_RawQuery (rq_URL req)\<rparr>,
                   rq_RequestURI := [], rq_RemoteAddr := rq_RemoteAddr r\<rparr>
       in [EvRoundTrip q,
           EvTLSWrite (case n_roundtrip env k q of
              Inl e \<Rightarrow> \<lparr>rs_StatusCode = 502, rs_Header = [], rs_Body = Some (''Bad Gateway'' @ newline), rs_ContentLength = 0\<rparr>
            | Inr resp \<Rightarrow>
                (case rs_Body resp of
                   None \<Rightarrow> resp
                 | Some b \<Rightarrow> resp\<lparr>rs_Body := Some (ReplaceSentinelsInBody (px_secrets p) b),
                     rs_ContentLength := int (length (ReplaceSentinelsInBody (px_secrets p) b))\<rparr>))])
       (enumerate 0 (map projr (takeWhile (\<lambda>x. \<not> isl x) (n_mitm env))))) @
     [EvTLSClose], p)"
proof -
  obtain i where e: "Evaluate uf (px_policy p) host port sb = (DecisionAllow, i)"
    using assms(1) by (metis prod.collapse)
  have q: "mitm_upstream p r host port req =
      req\<lparr>rq_Header := ReplaceSentinelsInHeaders (px_secrets p) (rq_Header req),
          rq_Body := Some (case rq_Body req of None \<Rightarrow> [] | Some b \<Rightarrow> ReplaceSentinelsInBody (px_secrets p) b),
          rq_ContentLength := int (length (case rq_Body req of None \<Rightarrow> [] | Some b \<Rightarrow> ReplaceSentinelsInBody (px_secrets p) b)),
          rq_URL := \<lparr>u_Scheme = ''https'', u_Host = host @ '':'' @ port, u_Path = u_Path (rq_URL req),
                    u_RawQuery = u_RawQuery (rq_URL req)\<rparr>,
          rq_RequestURI := [], rq_RemoteAddr := rq_RemoteAddr r\<rparr>" for req
    by (simp add: mitm_upstream_def replaceSentinelsInRequest_def SetRequestBody_def)
  have a: "mitm_response p resp =
      (case rs_Body resp of
         None \<Rightarrow> resp
       | Some b \<Rightarrow> resp\<lparr>rs_Body := Some (ReplaceSentinelsInBody (px_secrets p) b),
           rs_ContentLength := int (length (ReplaceSentinelsInBody (px_secrets p) b))\<rparr>)" for resp
    by (simp add: mitm_response_def replaceSentinelsInResponse_def split: option.split)
  have "handleCONNECT uf env w r host port sb p =
      ([EvWrite established, EvHandshake] @ mitm_loop env p r host port 0 (n_mitm env) @ [EvTLSClose], p)"
    using e assms(2,3) by (simp add: handleCONNECT_def)
  then show ?thesis unfolding mitm_loop_pairs established_def q a bad_gateway_def Let_def append_assoc .
qed

theorem mitm_session_answers_in_order_witness:
  "\<exists>q evs. fst (handleCONNECT (\<lambda>_ _. False) (echo_net\<lparr>n_mitm := [Inr sample_request, Inl ''EOF'']\<rparr>) newWriter sample_request
      ''b.io'' ''443'' [] (NewProxy open_engine sample_secrets [])) =
    evs @ [EvRoundTrip q, EvTLSWrite \<lparr>rs_StatusCode = 200, rs_Header = [], rs_Body = Some ''is s3cret'', rs_ContentLength = 9\<rparr>,
       EvTLSClose] \<and> u_Host (rq_URL q) = ''b.io:443''"
proof -
  let ?p = "NewProxy open_engine sample_secrets []" and ?env = "echo_net\<lparr>n_mitm := [Inr sample_request, Inl ''EOF'']\<rparr>"
  have "fst (Evaluate (\<lambda>_ _. False) (px_policy ?p) ''b.io'' ''443'' []) = DecisionAllow"
    by (simp add: NewProxy_def open_engine_allows)
  moreover have "n_established_err ?env = None" "n_handshake_err ?env = None" by (simp_all add: echo_net_def quiet_net_def)
  moreover have "px_secrets ?p = sample_secrets" by (simp add: NewProxy_def)
  ultimately show ?thesis
    using mitm_session_answers_in_order[of "\<lambda>_ _. False" ?p "''b.io''" "''443''" "[]" ?env newWriter sample_request]
    by (simp add: echo_net_def sample_secrets_replaced Let_def)
qed

text \<open>On the path of plain HTTP requests the client connection is never closed by the proxy: no
  event of handleProxy on a request other than CONNECT is a close.\<close>

theorem http_connection_not_closed:
  assumes "rq_Method r \<noteq> ''CONNECT''"
  shows "EvClose \<notin> set (fst (handleProxy uf env w r p))"
proof -
  have wh: "EvClose \<notin> set (fst (WriteHeader code v))" for code v
    using WriteHeader_only_writes only_writes_no_out by blast
  have wr: "EvClose \<notin> set (fst (Write b v))" for b v
    using wh[of 200 v] by (auto simp: Write_def split: prod.splits)
  have er: "EvClose \<notin> set (http_Error v msg code)" for v msg code
    using wh[of code] wr by (auto simp: http_Error_def Let_def split: prod.splits) (metis fst_conv wh)+
  have "EvClose \<notin> set (fst (handleHTTP uf env w q host port sb pp))" for q host port sb pp
    using wh wr er by (auto simp: handleHTTP_def Let_def split: prod.splits Decision.splits sum.splits option.splits)
      (metis fst_conv wh)+
  then show ?thesis using assms by (auto simp: handleProxy_def Let_def split: prod.splits)
qed

theorem http_connection_not_closed_witness:
  "rq_Method sample_request \<noteq> ''CONNECT'' \<and>
   EvClose \<notin> set (fst (handleProxy (\<lambda>_ _. False) echo_net newWriter sample_request
     (NewProxy open_engine sample_secrets [])))"
proof -
  have "rq_Method sample_request \<noteq> ''CONNECT''" by (simp add: sample_request_def)
  then show ?thesis using http_connection_not_closed by blast
qed

end
