(* ===== verification/Dispatch.thy ===== *)
theory Dispatch
  imports ProxyHttp
begin

text \<open>
  src/internal/proxy/proxy.go, third part: \<open>dispatch\<close>, run in one goroutine per accepted
  connection. It applies the connection limit, looks at the first byte and calls the handler of
  SOCKS5, HTTP or redirected TCP. \<open>dispatch\<close> is the whole call on a connection whose client sends
  \<open>inp\<close> (nothing at all stands for a failing \<^verbatim>\<open>Peek\<close>: end of file or the 5 second deadline). The
  relation \<open>limit_step\<close> interleaves the two atomic updates of \<^verbatim>\<open>activeConns\<close> of many such
  goroutines.

  The lemmas give complete mediation over all three protocols, the effect of the toggles, what is
  counted, and that the limit holds in every interleaving.
\<close>

section \<open>Dispatch\<close>

definition is_method_byte :: "char \<Rightarrow> bool" where
  "is_method_byte b \<longleftrightarrow> byte_val (CHR ''A'') \<le> byte_val b \<and> byte_val b \<le> byte_val (CHR ''Z'')"

definition dispatch_protocol :: "unifold \<Rightarrow> netenv \<Rightarrow> string \<Rightarrow> Proxy \<Rightarrow> event list \<times> Proxy" where
  "dispatch_protocol uf env inp p =
     (case inp of
        [] \<Rightarrow> ([EvClose], p)
      | b # _ \<Rightarrow>
          (let sandboxName = px_sandboxName p in
           if b = CHR 0x05 then
             (if \<not> px_socks5Enabled p then ([EvClose], incDenied p)
              else (handleSOCKS5 uf env (incConn ''socks5'' p) inp sandboxName, incConn ''socks5'' p))
           else if is_method_byte b then handleHTTPFromReader uf env inp sandboxName p
           else
             (if \<not> px_rawTCPEnabled p then ([EvClose], incDenied p)
              else (handleRawTCP uf env (incConn ''rawtcp'' p) inp sandboxName, incConn ''rawtcp'' p))))"

text \<open>The two atomic updates of the counter of active connections.\<close>

definition enter :: "Proxy \<Rightarrow> int \<times> Proxy" where
  "enter p = (let cur = int64 (px_activeConns p + 1) in (cur, p\<lparr>px_activeConns := cur\<rparr>))"

definition leave :: "Proxy \<Rightarrow> Proxy" where
  "leave p = p\<lparr>px_activeConns := int64 (px_activeConns p - 1)\<rparr>"

definition dispatch :: "unifold \<Rightarrow> netenv \<Rightarrow> string \<Rightarrow> Proxy \<Rightarrow> event list \<times> Proxy" where
  "dispatch uf env inp p =
     (let maxConns = px_maxConnections p in
      if maxConns > 0 then
        (case enter p of
           (cur, p1) \<Rightarrow>
             (if cur > maxConns then ([EvClose], leave p1)
              else (case dispatch_protocol uf env inp p1 of (evs, p2) \<Rightarrow> (evs, leave p2))))
      else dispatch_protocol uf env inp p)"

text \<open>
  Many goroutines and one limit \<open>m > 0\<close>. The list holds, in the order of their arrival, the
  connections that have passed \<open>enter\<close> and not yet \<open>leave\<close>: the value of the counter each one saw,
  and whether it was admitted. \<open>other\<close> is everything else a goroutine does to the proxy. The
  machine holds fewer than \<open>2^63 - 1\<close> connections at any time.
\<close>

inductive limit_step :: "int \<Rightarrow> Proxy \<times> (int \<times> bool) list \<Rightarrow> Proxy \<times> (int \<times> bool) list \<Rightarrow> bool"
  for m :: int where
  arrive: "int (length live) < 2 ^ 63 - 1 \<Longrightarrow> enter p = (cur, p') \<Longrightarrow>
     limit_step m (p, live) (p', live @ [(cur, False)])"
| admit: "\<not> cur > m \<Longrightarrow>
     limit_step m (p, xs @ (cur, False) # ys) (p, xs @ (cur, True) # ys)"
| reject: "cur > m \<Longrightarrow>
     limit_step m (p, xs @ (cur, False) # ys) (leave p, xs @ ys)"
| finish: "limit_step m (p, xs @ (cur, True) # ys) (leave p, xs @ ys)"
| other: "px_activeConns p' = px_activeConns p \<Longrightarrow> limit_step m (p, live) (p', live)"

section \<open>Lemmas: frames\<close>

lemma enter_frame [simp]:
  "px_policy (snd (enter p)) = px_policy p"
  "px_sandboxName (snd (enter p)) = px_sandboxName p"
  "px_activeConns (snd (enter p)) = int64 (px_activeConns p + 1)"
  by (simp_all add: enter_def Let_def)

lemma block_frame [simp]:
  "px_activeConns (block env host port p) = px_activeConns p"
  "px_policy (block env host port p) = px_policy p"
  by (simp_all add: block_def)

lemma handleHTTP_frame [simp]:
  "px_activeConns (snd (handleHTTP uf env w r host port sb p)) = px_activeConns p"
  by (auto simp: handleHTTP_def Let_def split: prod.split Decision.split sum.split)

lemma handleCONNECT_frame [simp]:
  "px_activeConns (snd (handleCONNECT uf env w r host port sb p)) = px_activeConns p"
  by (auto simp: handleCONNECT_def split: prod.split Decision.split)

lemma handleHTTPFromReader_frame [simp]:
  "px_activeConns (snd (handleHTTPFromReader uf env inp sb p)) = px_activeConns p"
  by (auto simp: handleHTTPFromReader_def handleProxy_def Let_def split: sum.split prod.split)

lemma dispatch_protocol_frame [simp]:
  "px_activeConns (snd (dispatch_protocol uf env inp p)) = px_activeConns p"
  by (auto simp: dispatch_protocol_def Let_def split: list.split)

lemma int64_diff: "int64 (int64 x - y) = int64 (x - y)"
proof -
  have "int64 (int64 x - y) = ((x + 2 ^ 63) mod 2 ^ 64 - y) mod 2 ^ 64 - 2 ^ 63"
    by (simp add: int64_def)
  also have "\<dots> = (x + 2 ^ 63 - y) mod 2 ^ 64 - 2 ^ 63"
    by (simp only: mod_diff_left_eq)
  also have "\<dots> = int64 (x - y)"
    by (simp add: int64_def algebra_simps)
  finally show ?thesis .
qed

lemma int64_back: "is_int64 n \<Longrightarrow> int64 (int64 (n + 1) - 1) = n"
  by (simp add: int64_diff int64_id)

section \<open>Lemmas: mediation\<close>

definition dispatch_scope :: "netenv \<Rightarrow> string \<Rightarrow> Proxy \<Rightarrow> string" where
  "dispatch_scope env inp p =
     (case inp of
        b # _ \<Rightarrow> (if b \<noteq> CHR 0x05 \<and> is_method_byte b then http_scope env inp (px_sandboxName p)
                 else px_sandboxName p)
      | [] \<Rightarrow> px_sandboxName p)"

lemma dispatch_protocol_mediated:
  "mediated (permitted uf p (dispatch_scope env inp p)) (reach env) (fst (dispatch_protocol uf env inp p))"
  using handleSOCKS5_mediated[of uf "incConn ''socks5'' p"] handleRawTCP_mediated[of uf "incConn ''rawtcp'' p"]
    handleHTTPFromReader_mediated
  by (auto simp: dispatch_protocol_def dispatch_scope_def Let_def split: list.split)

lemma permitted_enter [simp]: "permitted uf (snd (enter p)) = permitted uf p"
  by (simp add: permitted_def fun_eq_iff)

lemma dispatch_scope_enter [simp]: "dispatch_scope env inp (snd (enter p)) = dispatch_scope env inp p"
  by (simp add: dispatch_scope_def split: list.split)

lemma dispatch_mediated:
  "mediated (permitted uf p (dispatch_scope env inp p)) (reach env) (fst (dispatch uf env inp p))"
  using dispatch_protocol_mediated[of uf p env inp] dispatch_protocol_mediated[of uf "snd (enter p)" env inp]
  by (auto simp: dispatch_def Let_def split: prod.split)

interpretation dispatcher: mediated_handler
  "\<lambda>(uf, env, p, inp). fst (dispatch uf env inp p)"
  "\<lambda>(uf, env, p, inp). permitted uf p (dispatch_scope env inp p)"
  "\<lambda>(uf, env, p, inp). reach env"
  by unfold_locales (auto simp: dispatch_mediated)

section \<open>Lemmas: the connection limit\<close>

text \<open>The k-th connection of the list saw a counter of at least k + 1, and the counter is the length
  of the list.\<close>

definition limit_inv :: "int \<Rightarrow> Proxy \<times> (int \<times> bool) list \<Rightarrow> bool" where
  "limit_inv m s = (case s of (p, live) \<Rightarrow>
     px_activeConns p = int (length live) \<and> int (length live) < 2 ^ 63 \<and>
     (\<forall>k < length live. int k < fst (live ! k)) \<and>
     (\<forall>x \<in> set live. snd x \<longrightarrow> fst x \<le> m))"

lemma limit_inv_start: "px_activeConns p = 0 \<Longrightarrow> limit_inv m (p, [])"
  by (simp add: limit_inv_def)

lemma nth_seen_drop:
  assumes "\<forall>k < length (xs @ x # ys). int k < fst ((xs @ x # ys) ! k)"
  shows "\<forall>k < length (xs @ ys). int k < fst ((xs @ ys) ! k)"
proof (intro allI impI)
  fix k assume k: "k < length (xs @ ys)"
  show "int k < fst ((xs @ ys) ! k)"
  proof (cases "k < length xs")
    case True
    then show ?thesis using assms[rule_format, of k] k by (simp add: nth_append)
  next
    case False
    then have "Suc k - length xs = Suc (k - length xs)" by simp
    then show ?thesis using assms[rule_format, of "Suc k"] k False by (simp add: nth_append)
  qed
qed

lemma leave_active: "px_activeConns p = int (Suc n) \<Longrightarrow> int (Suc n) < 2 ^ 63 \<Longrightarrow> px_activeConns (leave p) = int n"
  by (simp add: leave_def int64_id is_int64_def)

lemma limit_inv_step:
  "limit_step m s s' \<Longrightarrow> limit_inv m s \<Longrightarrow> limit_inv m s'"
proof (induction rule: limit_step.induct)
  case (arrive live p cur p')
  then have p: "cur = int (length live) + 1" "px_activeConns p' = cur"
    by (auto simp: limit_inv_def enter_def Let_def int64_id is_int64_def)
  then show ?case
    using arrive by (auto simp: limit_inv_def nth_append less_Suc_eq)
next
  case (admit cur p xs ys)
  then show ?case by (auto simp: limit_inv_def nth_append nth_Cons split: if_splits nat.splits)
next
  case (reject cur p xs ys)
  then show ?case
    using nth_seen_drop[of xs "(cur, False)" ys] leave_active[of p "length (xs @ ys)"]
    by (auto simp: limit_inv_def)
next
  case (finish p xs cur ys)
  then show ?case
    using nth_seen_drop[of xs "(cur, True)" ys] leave_active[of p "length (xs @ ys)"]
    by (auto simp: limit_inv_def)
next
  case (other p' p live)
  then show ?case by (simp add: limit_inv_def)
qed

lemma limit_inv_reachable:
  "(limit_step m)\<^sup>*\<^sup>* s s' \<Longrightarrow> limit_inv m s \<Longrightarrow> limit_inv m s'"
  by (induction rule: rtranclp_induct) (auto intro: limit_inv_step)

lemma admitted_le:
  assumes "\<forall>k < length live. int k < fst (live ! k)" "\<forall>x \<in> set live. snd x \<longrightarrow> fst x \<le> m" "0 \<le> m"
  shows "int (length (filter snd live)) \<le> m"
  using assms
proof (induction live rule: rev_induct)
  case (snoc x live)
  show ?case
  proof (cases "snd x")
    case True
    then have "int (length live) < m"
      using snoc.prems(1)[rule_format, of "length live"] snoc.prems(2) by fastforce
    then have "1 + int (length (filter snd live)) \<le> m"
      using length_filter_le[of snd live] by linarith
    then show ?thesis using True by simp
  next
    case False
    have "\<forall>k < length live. int k < fst (live ! k)"
      using snoc.prems(1) by (auto simp: nth_append less_Suc_eq split: if_splits)
    then show ?thesis using snoc False by simp
  qed
qed simp

section \<open>Properties\<close>

text \<open>C1: Complete mediation. Whatever bytes a client sends and whatever the network answers, every
  address the proxy dials or sends a request to on behalf of that client, over SOCKS5, HTTP,
  CONNECT or redirected TCP, is that of a host and port which the policy engine allows in the
  scope of the connection (the proxy's sandbox name when it has one); raw TCP reaches a local
  destination by the loopback address.\<close>

theorem dispatch_complete_mediation:
  assumes "e \<in> set (fst (dispatch uf env inp p))" "outbound e = Some addr"
  shows "\<exists>host port. fst (Evaluate uf (px_policy p) host port (dispatch_scope env inp p)) = DecisionAllow \<and>
    addr \<in> reach env host port \<and> (px_sandboxName p \<noteq> [] \<longrightarrow> dispatch_scope env inp p = px_sandboxName p)"
proof -
  have "out_ok (permitted uf p (dispatch_scope env inp p)) (reach env) addr"
    using dispatcher.handler_mediated[of "(uf, env, p, inp)"] assms by (auto simp: mediated_def)
  moreover have "px_sandboxName p \<noteq> [] \<longrightarrow> dispatch_scope env inp p = px_sandboxName p"
    by (auto simp: dispatch_scope_def http_scope_def split: list.split)
  ultimately show ?thesis by (auto simp: out_ok_def permitted_def)
qed

text \<open>A redirected connection to 1.2.3.4, port 443, for concrete statements.\<close>

definition redirect_net :: netenv where
  "redirect_net = quiet_net\<lparr>n_orig_dst := Inr ([CHR 0x02, CHR 0x00, CHR 0x01, CHR 0xBB,
     CHR 0x01, CHR 0x02, CHR 0x03, CHR 0x04] @ replicate 8 (CHR 0x00))\<rparr>"

definition open_proxy :: Proxy where
  "open_proxy = NewProxy open_engine NewSecretManager []"

lemma redirect_dials: "EvDial ''1.2.3.4:443'' \<in> set (fst (dispatch (\<lambda>_ _. False) redirect_net ''x'' open_proxy))"
  by code_simp

theorem dispatch_complete_mediation_witness:
  "\<exists>host port. fst (Evaluate (\<lambda>_ _. False) (px_policy open_proxy) host port
       (dispatch_scope redirect_net ''x'' open_proxy)) = DecisionAllow \<and> ''1.2.3.4:443'' \<in> reach redirect_net host port"
  using dispatch_complete_mediation[OF redirect_dials, of "''1.2.3.4:443''"] by auto

text \<open>A proxy with a freshly created policy engine lets nothing out, on any input and in any
  network, with any secrets and any address.\<close>

theorem fresh_proxy_lets_nothing_out:
  assumes "fst (NewEngine osx jm dir w) = Inr pe"
    and "e \<in> set (fst (dispatch uf env inp (NewProxy pe sec addr)))"
  shows "outbound e = None"
proof -
  have "fst (Evaluate uf pe host port sb) = DecisionDeny" for host port sb
    using assms(1) defaultRules_deny
    by (auto simp: NewEngine_def newEngine_at_def Let_def split: if_splits sum.splits prod.splits option.splits)
  then show ?thesis
    using dispatcher.nothing_permitted_nothing_out[of "(uf, env, NewProxy pe sec addr, inp)" e] assms(2)
    by (auto simp: permitted_def NewProxy_def)
qed

theorem fresh_proxy_lets_nothing_out_witness:
  "fst (NewEngine mem_os (\<lambda>_. Inr []) ''/p'' Map.empty) = Inr sample_engine \<and>
   EvClose \<in> set (fst (dispatch (\<lambda>_ _. False) redirect_net ''x'' (NewProxy sample_engine NewSecretManager []))) \<and>
   outbound EvClose = None"
proof -
  have 1: "fst (NewEngine mem_os (\<lambda>_. Inr []) ''/p'' Map.empty) = Inr sample_engine" by code_simp
  have 2: "EvClose \<in> set (fst (dispatch (\<lambda>_ _. False) redirect_net ''x'' (NewProxy sample_engine NewSecretManager [])))"
    by code_simp
  show ?thesis using 1 2 fresh_proxy_lets_nothing_out[OF 1 2] by blast
qed

text \<open>C25: The counter of active connections is back at its old value when a connection has been
  handled, on every path (rejected by the limit, protocol disabled, error, served), and a
  connection beyond the limit is closed without reading a byte and without an answer, whatever
  protocol its client speaks. The design (docs/design/universal-proxy.md, 11.3) wanted SOCKS5
  clients to get a server failure reply first; at that point the protocol is not yet known.\<close>

theorem dispatch_restores_activeConns:
  assumes "is_int64 (px_activeConns p)"
  shows "px_activeConns (snd (dispatch uf env inp p)) = px_activeConns p \<and>
    (0 < px_maxConnections p \<and> px_maxConnections p \<le> px_activeConns p \<and> px_activeConns p < 2 ^ 63 - 1 \<longrightarrow>
       dispatch uf env inp p = ([EvClose], p))"
proof -
  obtain cur p1 where e: "enter p = (cur, p1)" by fastforce
  then have "px_activeConns p1 = int64 (px_activeConns p + 1)" "cur = int64 (px_activeConns p + 1)"
    "p1 = p\<lparr>px_activeConns := cur\<rparr>"
    by (auto simp: enter_def Let_def)
  moreover obtain evs p2 where d: "dispatch_protocol uf env inp p1 = (evs, p2)" by fastforce
  then have "px_activeConns p2 = px_activeConns p1"
    using dispatch_protocol_frame[of uf env inp p1] by simp
  ultimately show ?thesis
    using assms e d int64_back[OF assms] int64_id[of "px_activeConns p + 1"]
    by (auto simp: dispatch_def Let_def leave_def is_int64_def)
qed

theorem dispatch_restores_activeConns_witness:
  "px_activeConns (snd (dispatch (\<lambda>_ _. False) redirect_net ''x'' (SetMaxConnections 1 open_proxy))) = 0"
proof -
  have "px_activeConns (SetMaxConnections 1 open_proxy) = 0"
    by (simp add: SetMaxConnections_def open_proxy_def NewProxy_def)
  then show ?thesis
    using dispatch_restores_activeConns[of "SetMaxConnections 1 open_proxy"] by (simp add: is_int64_def)
qed

text \<open>C10: In every interleaving of any number of connections, from a proxy with no active connection
  and with a limit of m, at most m connections are admitted at the same time, and the counter is
  the number of connections between their two updates; when all have left it is 0 again.\<close>

theorem connection_limit_holds:
  assumes "0 < m" "px_activeConns p = 0" "(limit_step m)\<^sup>*\<^sup>* (p, []) (p', live)"
  shows "int (length (filter snd live)) \<le> m \<and> px_activeConns p' = int (length live)"
  using limit_inv_reachable[OF assms(3)] limit_inv_start[OF assms(2)] assms(1) admitted_le[of live m]
  by (auto simp: limit_inv_def)

theorem connection_limit_holds_witness:
  "\<exists>p'. (limit_step 1)\<^sup>*\<^sup>* (open_proxy, []) (p', [(1, True), (2, False)]) \<and> px_activeConns p' = 2"
proof -
  define p1 where "p1 = open_proxy\<lparr>px_activeConns := 1\<rparr>"
  define p2 where "p2 = open_proxy\<lparr>px_activeConns := 2\<rparr>"
  have z: "px_activeConns open_proxy = 0" by (simp add: open_proxy_def NewProxy_def)
  have e1: "enter open_proxy = (1, p1)" and e2: "enter p1 = (2, p2)"
    by (simp_all add: enter_def Let_def int64_def p1_def p2_def z)
  have "limit_step 1 (open_proxy, []) (p1, [(1, False)])"
    using arrive[of "[]" open_proxy 1 p1 1] e1 by simp
  moreover have "limit_step 1 (p1, [(1, False)]) (p2, [(1, False), (2, False)])"
    using arrive[of "[(1, False)]" p1 2 p2 1] e2 by simp
  moreover have "limit_step 1 (p2, [(1, False), (2, False)]) (p2, [(1, True), (2, False)])"
    using admit[of 1 1 p2 "[]" "[(2, False)]"] by simp
  ultimately have r: "(limit_step 1)\<^sup>*\<^sup>* (open_proxy, []) (p2, [(1, True), (2, False)])"
    by (meson converse_rtranclp_into_rtranclp rtranclp.rtrancl_refl)
  then show ?thesis using connection_limit_holds[OF _ z r] by auto
qed

text \<open>A SOCKS5 or redirected connection that the policy refuses is not counted as denied: when
  the protocol is enabled, dispatch leaves the counter of denials as it is, whatever the
  decision.\<close>

theorem tunnel_denials_not_counted:
  assumes "inp = b # rest" "b = CHR 0x05 \<and> px_socks5Enabled p \<or>
      b \<noteq> CHR 0x05 \<and> \<not> is_method_byte b \<and> px_rawTCPEnabled p"
  shows "px_deniedTotal (snd (dispatch uf env inp p)) = px_deniedTotal p"
  using assms
  by (auto simp: dispatch_def dispatch_protocol_def enter_def leave_def incConn_def Let_def)

theorem tunnel_denials_not_counted_witness:
  "fst (dispatch (\<lambda>_ _. False) redirect_net ''x'' (NewProxy sample_engine NewSecretManager [])) = [EvClose] \<and>
   px_deniedTotal (snd (dispatch (\<lambda>_ _. False) redirect_net ''x'' (NewProxy sample_engine NewSecretManager []))) = 0"
proof
  show "fst (dispatch (\<lambda>_ _. False) redirect_net ''x'' (NewProxy sample_engine NewSecretManager [])) = [EvClose]"
    by code_simp
  have "px_rawTCPEnabled (NewProxy sample_engine NewSecretManager [])" "\<not> is_method_byte (CHR ''x'')"
    "px_deniedTotal (NewProxy sample_engine NewSecretManager []) = 0"
    by (simp_all add: NewProxy_def is_method_byte_def byte_val_def)
  then show "px_deniedTotal (snd (dispatch (\<lambda>_ _. False) redirect_net ''x''
      (NewProxy sample_engine NewSecretManager []))) = 0"
    using tunnel_denials_not_counted[of "''x''" "CHR ''x''" "[]" "NewProxy sample_engine NewSecretManager []"
        "\<lambda>_ _. False" redirect_net] by simp
qed

text \<open>With SOCKS5 disabled a connection that starts with the SOCKS version byte, and with raw TCP
  disabled one that starts with neither that byte nor a capital letter, is closed at once: no
  other event, and one more denial counted.\<close>

theorem disabled_protocol_closed:
  assumes "px_maxConnections p = 0" "inp = b # rest" "b = CHR 0x05 \<and> \<not> px_socks5Enabled p \<or>
      b \<noteq> CHR 0x05 \<and> \<not> is_method_byte b \<and> \<not> px_rawTCPEnabled p"
  shows "dispatch uf env inp p = ([EvClose], p\<lparr>px_deniedTotal := int64 (px_deniedTotal p + 1)\<rparr>)"
  using assms by (auto simp: dispatch_def dispatch_protocol_def incDenied_def Let_def)

theorem disabled_protocol_closed_witness:
  "dispatch (\<lambda>_ _. False) redirect_net ''x'' (SetRawTCPEnabled False open_proxy) =
     ([EvClose], (SetRawTCPEnabled False open_proxy)\<lparr>px_deniedTotal := 1\<rparr>)"
proof -
  let ?p = "SetRawTCPEnabled False open_proxy"
  have "\<not> px_rawTCPEnabled ?p" "px_maxConnections ?p = 0" "px_deniedTotal ?p = 0" "\<not> is_method_byte (CHR ''x'')"
    by (simp_all add: SetRawTCPEnabled_def open_proxy_def NewProxy_def is_method_byte_def byte_val_def)
  then show ?thesis
    using disabled_protocol_closed[of ?p "''x''" "CHR ''x''" "[]" "\<lambda>_ _. False" redirect_net]
    by (simp add: int64_def)
qed

end
