(* ===== verification/GoIP.thy ===== *)
theory GoIP
  imports GoNet GoBase64
begin

text \<open>
  Go's \<^verbatim>\<open>net.ParseIP\<close>: dotted IPv4 (four decimal fields up to 255, no leading zero) and IPv6 (hex
  groups, one ellipsis, an IPv4 address at the end). The result is the 16-byte form. A zone makes
  \<^verbatim>\<open>ParseIP\<close> return nil; here the percent sign fits no rule. The main lemma is that the printed
  form of an IPv4 address parses to that address.
\<close>

section \<open>IPv4\<close>

fun split_on :: "char \<Rightarrow> string \<Rightarrow> string list" where
  "split_on d [] = [[]]"
| "split_on d (c # s) =
     (if c = d then [] # split_on d s
      else (case split_on d s of [] \<Rightarrow> [[c]] | e # es \<Rightarrow> (c # e) # es))"

definition v4_field :: "string \<Rightarrow> char option" where
  "v4_field f =
     (if f = [] \<or> \<not> list_all is_digit f \<or> (1 < length f \<and> hd f = CHR ''0'') \<or> 255 < digits_val f then None
      else Some (byte_of (digits_val f)))"

definition v4_prefix :: string where
  "v4_prefix = replicate 10 (CHR 0x00) @ [CHR 0xFF, CHR 0xFF]"

definition parseIPv4 :: "string \<Rightarrow> string option" where
  "parseIPv4 s =
     (let fs = map v4_field (split_on (CHR ''.'') s) in
      if length fs = 4 \<and> None \<notin> set fs then Some (map the fs) else None)"

section \<open>IPv6\<close>

definition hex_val :: "char \<Rightarrow> nat option" where
  "hex_val c =
     (case Index ''0123456789abcdef'' c of
        Some d \<Rightarrow> Some d
      | None \<Rightarrow> map_option (\<lambda>d. d + 10) (Index ''ABCDEF'' c))"

definition is_hex :: "char \<Rightarrow> bool" where
  "is_hex c = (hex_val c \<noteq> None)"

definition hex_num :: "string \<Rightarrow> nat" where
  "hex_num ds = foldl (\<lambda>a c. 16 * a + the (hex_val c)) 0 ds"

text \<open>The loop over the groups; \<open>n\<close> is how many more fit. The result is the bytes, the position of
  the ellipsis and the unread rest.\<close>

fun v6_loop :: "nat \<Rightarrow> string \<Rightarrow> string \<Rightarrow> nat option \<Rightarrow> (string \<times> nat option \<times> string) option" where
  "v6_loop 0 s ip ell = Some (ip, ell, s)"
| "v6_loop (Suc n) s ip ell =
     (let h = takeWhile is_hex s; rest = dropWhile is_hex s in
      if h = [] \<or> 4 < length h then None
      else if HasPrefix rest ''.'' then
        (if ell = None \<and> length ip \<noteq> 12 \<or> 16 < length ip + 4 then None
         else map_option (\<lambda>v4. (ip @ v4, ell, [])) (parseIPv4 s))
      else
        (let ip1 = ip @ [byte_of (hex_num h div 256), byte_of (hex_num h mod 256)] in
         case rest of
           [] \<Rightarrow> Some (ip1, ell, [])
         | c # rest1 \<Rightarrow>
             (if c \<noteq> CHR '':'' \<or> rest1 = [] then None
              else if hd rest1 = CHR '':'' then
                (if ell \<noteq> None then None
                 else if tl rest1 = [] then Some (ip1, Some (length ip1), [])
                 else v6_loop n (tl rest1) ip1 (Some (length ip1)))
              else v6_loop n rest1 ip1 ell)))"

definition v6_expand :: "string \<times> nat option \<times> string \<Rightarrow> string option" where
  "v6_expand r =
     (case r of (ip, ell, rest) \<Rightarrow>
        if rest \<noteq> [] then None
        else if length ip < 16 then
          (case ell of
             None \<Rightarrow> None
           | Some k \<Rightarrow> Some (take k ip @ replicate (16 - length ip) (CHR 0x00) @ drop k ip))
        else if ell \<noteq> None then None
        else Some ip)"

definition parseIPv6 :: "string \<Rightarrow> string option" where
  "parseIPv6 s =
     (if HasPrefix s ''::'' then
        (if drop 2 s = [] then Some (replicate 16 (CHR 0x00))
         else Option.bind (v6_loop 8 (drop 2 s) [] (Some 0)) v6_expand)
      else Option.bind (v6_loop 8 s [] None) v6_expand)"

definition ParseIP :: "string \<Rightarrow> string option" where
  "ParseIP s =
     (case find (\<lambda>c. c = CHR ''.'' \<or> c = CHR '':'' \<or> c = CHR ''%'') s of
        None \<Rightarrow> None
      | Some c \<Rightarrow>
          (if c = CHR ''.'' then map_option ((@) v4_prefix) (parseIPv4 s)
           else if c = CHR '':'' then parseIPv6 s
           else None))"

section \<open>The round trip of IPv4\<close>

lemma split_on_none: "d \<notin> set s \<Longrightarrow> split_on d s = [s]"
  by (induction s) auto

lemma split_on_append: "d \<notin> set s \<Longrightarrow> split_on d (s @ d # t) = s # split_on d t"
  by (induction s) auto

lemma nat_dec_no_dot [simp]: "CHR ''.'' \<notin> set (nat_dec n)"
proof -
  have "\<not> is_digit (CHR ''.'')" by (simp add: is_digit_def)
  then show ?thesis using nat_dec_digits[of n] by blast
qed

lemma digit_zero: "d < 10 \<Longrightarrow> digit d = CHR ''0'' \<Longrightarrow> d = 0"
  by (simp add: digit_def less_Suc_eq numeral_eq_Suc) (elim disjE; simp)

lemma nat_dec_no_leading_zero: "1 < length (nat_dec n) \<Longrightarrow> hd (nat_dec n) \<noteq> CHR ''0''"
proof (induction n rule: nat_dec.induct)
  case (1 n)
  show ?case
  proof (cases "n < 10")
    case True
    then show ?thesis using 1(2) by (simp add: nat_dec.simps)
  next
    case False
    have eq: "nat_dec n = nat_dec (n div 10) @ [digit (n mod 10)]"
      using False by (simp add: nat_dec.simps[of n])
    show ?thesis
    proof (cases "n div 10 < 10")
      case True
      then have "nat_dec (n div 10) = [digit (n div 10)]" by (simp add: nat_dec.simps[of "n div 10"])
      then show ?thesis using eq True digit_zero[of "n div 10"] False by auto
    next
      case False
      then have "1 < length (nat_dec (n div 10))"
        by (subst nat_dec.simps) (simp add: Suc_lessI)
      then show ?thesis using 1(1) eq \<open>\<not> n < 10\<close> by simp
    qed
  qed
qed

lemma v4_field_nat_dec [simp]: "v4_field (nat_dec (byte_val b)) = Some b"
proof -
  have "\<not> 255 < byte_val b" using byte_val_less[of b] by linarith
  then show ?thesis
    using nat_dec_digits[of "byte_val b"] nat_dec_no_leading_zero[of "byte_val b"]
    by (auto simp: v4_field_def list_all_iff)
qed

lemma dotted4: "dotted [a, b, c, d] = nat_dec (byte_val a) @ CHR ''.'' # nat_dec (byte_val b) @ CHR ''.'' #
    nat_dec (byte_val c) @ CHR ''.'' # nat_dec (byte_val d)"
  by simp

lemma parseIPv4_dotted: "parseIPv4 (dotted [a, b, c, d]) = Some [a, b, c, d]"
  unfolding dotted4 by (simp add: parseIPv4_def split_on_append split_on_none)

lemma find_dot_dotted:
  "find (\<lambda>x. x = CHR ''.'' \<or> x = CHR '':'' \<or> x = CHR ''%'') (dotted [a, b, c, d]) = Some (CHR ''.'')"
proof -
  have skip: "find P (xs @ ys) = find P ys" if "\<forall>x \<in> set xs. \<not> P x" for P and xs ys :: string
    using that by (induction xs) auto
  have "\<not> is_digit (CHR ''.'')" "\<not> is_digit (CHR '':'')" "\<not> is_digit (CHR ''%'')"
    by (simp_all add: is_digit_def)
  then have "\<forall>x \<in> set (nat_dec (byte_val a)). \<not> (x = CHR ''.'' \<or> x = CHR '':'' \<or> x = CHR ''%'')"
    using nat_dec_digits by blast
  then show ?thesis unfolding dotted4 by (simp add: skip)
qed

lemma ParseIP_IPv4: "length ip = 4 \<Longrightarrow> ParseIP (IP_String ip) = Some (v4_prefix @ ip)"
proof -
  assume "length ip = 4"
  then obtain a b c d where ip: "ip = [a, b, c, d]"
    by (auto simp: numeral_eq_Suc length_Suc_conv)
  then have "IP_String ip = dotted [a, b, c, d]" by (simp add: IP_String_def)
  then show ?thesis
    using ip by (simp add: ParseIP_def find_dot_dotted parseIPv4_dotted del: dotted.simps)
qed

end
