(* ===== verification/CA.thy ===== *)
theory CA
  imports GoOS GoIP
begin

text \<open>
  src/internal/ca/ca.go: the certificate authority of the proxy. RSA, X.509, PEM and the random
  source are the parameter \<open>x509lib\<close> over a world \<open>'w\<close> (so that two calls may give different
  results); keys and parsed certificates are opaque types \<open>'k\<close> and \<open>'c\<close>, a TLS key pair is \<open>'t\<close>.
  What the package itself does is modelled: where the files are, when a CA is loaded and when it
  is created, the templates of both kinds of certificates, the alternative names, the cache.
  Instants and durations are in seconds.

  The lemmas give: a created CA is loaded again by the next start and a failing load is followed
  by a new CA; which names a certificate gets; what concurrent handshakes are answered. A handshake
  looks into the cache and stores into it in two critical sections and generates in between without
  a lock, so handshakes are a step relation in which these three are steps of their own.
\<close>

section \<open>Data\<close>

record template =
  tp_SerialNumber :: nat
  tp_CommonName :: string
  tp_Organization :: "string list"
  tp_NotBefore :: int
  tp_NotAfter :: int
  tp_KeyUsage :: nat
  tp_ServerAuth :: bool
  tp_BasicConstraintsValid :: bool
  tp_IsCA :: bool
  tp_MaxPathLenZero :: bool
  tp_IPAddresses :: "string list"
  tp_DNSNames :: "string list"

text \<open>The issuer of a certificate is the template itself or a parsed certificate.\<close>

record ('c, 'k, 't, 'w) x509lib =
  x_Now :: "'w \<Rightarrow> int"
  x_RandInt :: "nat \<Rightarrow> 'w \<Rightarrow> (goerror + nat) \<times> 'w"
  x_GenerateKey :: "int \<Rightarrow> 'w \<Rightarrow> (goerror + 'k) \<times> 'w"
  x_CreateCertificate :: "template \<Rightarrow> template + 'c \<Rightarrow> 'k \<Rightarrow> 'k \<Rightarrow> 'w \<Rightarrow> (goerror + string) \<times> 'w"
  x_ParseCertificate :: "string \<Rightarrow> goerror + 'c"
  x_ParsePKCS8 :: "string \<Rightarrow> goerror + 'k"
  x_MarshalPKCS8 :: "'k \<Rightarrow> goerror + string"
  x_pemEncode :: "string \<Rightarrow> string \<Rightarrow> string"
  x_pemDecode :: "string \<Rightarrow> string option"
  x_KeyPair :: "string \<Rightarrow> string \<Rightarrow> goerror + 't"
  x_sha1 :: "string \<Rightarrow> string"
  x_Raw :: "'c \<Rightarrow> string"

record ('c, 'k, 't) CACertManager =
  ca_caCert :: "'c option"
  ca_caKey :: "'k option"
  ca_caCertPEM :: string
  ca_caKeyPEM :: string
  ca_certPath :: string
  ca_keyPath :: string
  ca_certPool :: "string list"
  ca_certCache :: "string \<Rightarrow> 't option"
  ca_caKeySize :: int

abbreviation (input) KeyUsageDigitalSignature :: nat where "KeyUsageDigitalSignature \<equiv> 1"
abbreviation (input) KeyUsageKeyEncipherment :: nat where "KeyUsageKeyEncipherment \<equiv> 4"
abbreviation (input) KeyUsageCertSign :: nat where "KeyUsageCertSign \<equiv> 32"

section \<open>Loading, creating, saving\<close>

definition loadCA ::
  "('c, 'k, 't, 'w) x509lib \<Rightarrow> 'w os \<Rightarrow> ('c, 'k, 't) CACertManager \<Rightarrow> 'w \<Rightarrow> goerror + ('c, 'k, 't) CACertManager" where
  "loadCA x osx m w =
     (case ReadFile osx (ca_certPath m) w of
        Inl e \<Rightarrow> Inl e
      | Inr certPEM \<Rightarrow>
     (case ReadFile osx (ca_keyPath m) w of
        Inl e \<Rightarrow> Inl e
      | Inr keyPEM \<Rightarrow>
     (case x_pemDecode x certPEM of
        None \<Rightarrow> Inl ''failed to decode CA cert PEM''
      | Some block \<Rightarrow>
     (case x_ParseCertificate x block of
        Inl e \<Rightarrow> Inl e
      | Inr cert \<Rightarrow>
     (case x_pemDecode x keyPEM of
        None \<Rightarrow> Inl ''failed to decode CA key PEM''
      | Some keyBlock \<Rightarrow>
     (case x_ParsePKCS8 x keyBlock of
        Inl e \<Rightarrow> Inl (''parse CA key: '' @ e)
      | Inr key \<Rightarrow>
          Inr (m\<lparr>ca_caCert := Some cert, ca_caKey := Some key,
                 ca_caCertPEM := certPEM, ca_caKeyPEM := keyPEM\<rparr>)))))))"

definition ca_template :: "nat \<Rightarrow> int \<Rightarrow> template" where
  "ca_template serial now =
     \<lparr>tp_SerialNumber = serial, tp_CommonName = ''dandbox CA'', tp_Organization = [''dandbox''],
      tp_NotBefore = now - 24 * 3600, tp_NotAfter = now + 10 * 365 * 24 * 3600,
      tp_KeyUsage = KeyUsageCertSign OR KeyUsageKeyEncipherment OR KeyUsageDigitalSignature,
      tp_ServerAuth = False, tp_BasicConstraintsValid = True, tp_IsCA = True, tp_MaxPathLenZero = True,
      tp_IPAddresses = [], tp_DNSNames = []\<rparr>"

definition createCA ::
  "('c, 'k, 't, 'w) x509lib \<Rightarrow> ('c, 'k, 't) CACertManager \<Rightarrow> 'w \<Rightarrow> (goerror + ('c, 'k, 't) CACertManager) \<times> 'w" where
  "createCA x m w =
     (let keySize = (if ca_caKeySize m = 0 then 4096 else ca_caKeySize m) in
      case x_GenerateKey x keySize w of
        (Inl e, w1) \<Rightarrow> (Inl (''generate CA key: '' @ e), w1)
      | (Inr key, w1) \<Rightarrow>
     (case x_RandInt x (2 ^ 128) w1 of
        (Inl e, w2) \<Rightarrow> (Inl (''generate serial: '' @ e), w2)
      | (Inr serial, w2) \<Rightarrow>
     (let tmpl = ca_template serial (x_Now x w2) in
      case x_CreateCertificate x tmpl (Inl tmpl) key key w2 of
        (Inl e, w3) \<Rightarrow> (Inl (''create CA cert: '' @ e), w3)
      | (Inr certDER, w3) \<Rightarrow>
     (case x_ParseCertificate x certDER of
        Inl e \<Rightarrow> (Inl (''parse CA cert: '' @ e), w3)
      | Inr cert \<Rightarrow>
     (case x_MarshalPKCS8 x key of
        Inl e \<Rightarrow> (Inl (''marshal CA key: '' @ e), w3)
      | Inr keyBytes \<Rightarrow>
          (Inr (m\<lparr>ca_caCert := Some cert, ca_caKey := Some key,
                  ca_caCertPEM := x_pemEncode x ''CERTIFICATE'' certDER,
                  ca_caKeyPEM := x_pemEncode x ''PRIVATE KEY'' keyBytes\<rparr>), w3))))))"

definition saveCA :: "'w os \<Rightarrow> ('c, 'k, 't) CACertManager \<Rightarrow> 'w \<Rightarrow> goerror option \<times> 'w" where
  "saveCA osx m w =
     (case WriteFile osx (ca_certPath m) (ca_caCertPEM m) mode_0644 w of
        (Some e, w1) \<Rightarrow> (Some e, w1)
      | (None, w1) \<Rightarrow> WriteFile osx (ca_keyPath m) (ca_caKeyPEM m) mode_0600 w1)"

definition newCA_at ::
  "('c, 'k, 't, 'w) x509lib \<Rightarrow> 'w os \<Rightarrow> string \<Rightarrow> int \<Rightarrow> 'w \<Rightarrow> (goerror + ('c, 'k, 't) CACertManager) \<times> 'w" where
  "newCA_at x osx caDir keySize w =
     (case MkdirAll osx caDir mode_0700 w of
        (Some e, w1) \<Rightarrow> (Inl (''create CA dir: '' @ e), w1)
      | (None, w1) \<Rightarrow>
     (let m = \<lparr>ca_caCert = None, ca_caKey = None, ca_caCertPEM = [], ca_caKeyPEM = [],
               ca_certPath = Join [caDir, ''ca-cert.pem''], ca_keyPath = Join [caDir, ''ca-key.pem''],
               ca_certPool = [], ca_certCache = Map.empty, ca_caKeySize = keySize\<rparr>;
          pool = (\<lambda>m. m\<lparr>ca_certPool := [ca_caCertPEM m]\<rparr>)
      in case loadCA x osx m w1 of
           Inr m1 \<Rightarrow> (Inr (pool m1), w1)
         | Inl _ \<Rightarrow>
             (case createCA x m w1 of
                (Inl e, w2) \<Rightarrow> (Inl (''create CA: '' @ e), w2)
              | (Inr m2, w2) \<Rightarrow>
                  (case saveCA osx m2 w2 of
                     (Some e, w3) \<Rightarrow> (Inl (''save CA: '' @ e), w3)
                   | (None, w3) \<Rightarrow> (Inr (pool m2), w3)))))"

definition NewCACertManagerWithKeySize ::
  "('c, 'k, 't, 'w) x509lib \<Rightarrow> 'w os \<Rightarrow> string \<Rightarrow> int \<Rightarrow> 'w \<Rightarrow> (goerror + ('c, 'k, 't) CACertManager) \<times> 'w" where
  "NewCACertManagerWithKeySize x osx caDir keySize w =
     (if caDir = [] then
        (case UserHomeDir osx of
           Inl e \<Rightarrow> (Inl (''get home dir: '' @ e), w)
         | Inr home \<Rightarrow> newCA_at x osx (Join [home, ''.config'', ''sbxsandbox'', ''ca'']) keySize w)
      else newCA_at x osx caDir keySize w)"

definition NewCACertManager ::
  "('c, 'k, 't, 'w) x509lib \<Rightarrow> 'w os \<Rightarrow> string \<Rightarrow> 'w \<Rightarrow> (goerror + ('c, 'k, 't) CACertManager) \<times> 'w" where
  "NewCACertManager x osx caDir w = NewCACertManagerWithKeySize x osx caDir 4096 w"

section \<open>Accessors\<close>

definition CertPath :: "('c, 'k, 't) CACertManager \<Rightarrow> string" where
  "CertPath m = ca_certPath m"

definition CACertPEM :: "('c, 'k, 't) CACertManager \<Rightarrow> string" where
  "CACertPEM m = ca_caCertPEM m"

definition CertPool :: "('c, 'k, 't) CACertManager \<Rightarrow> string list" where
  "CertPool m = ca_certPool m"

definition Fingerprint :: "('c, 'k, 't, 'w) x509lib \<Rightarrow> ('c, 'k, 't) CACertManager \<Rightarrow> string" where
  "Fingerprint x m =
     (case ca_caCert m of None \<Rightarrow> [] | Some cert \<Rightarrow> hexString (x_sha1 x (x_Raw x cert)))"

section \<open>Certificates per host\<close>

definition parseHosts :: "string \<Rightarrow> string list" where
  "parseHosts host0 =
     (let host = (case SplitHostPort host0 of Inr (h, _) \<Rightarrow> h | Inl _ \<Rightarrow> host0) in
      host #
      (if HasPrefix host ''*.'' then [drop 2 host]
       else if \<not> Contains host ''*'' then [''*.'' @ host]
       else []))"

definition host_template :: "nat \<Rightarrow> int \<Rightarrow> string \<Rightarrow> template" where
  "host_template serial now host =
     foldl (\<lambda>t h. case ParseIP h of
              Some ip \<Rightarrow> t\<lparr>tp_IPAddresses := tp_IPAddresses t @ [ip]\<rparr>
            | None \<Rightarrow> t\<lparr>tp_DNSNames := tp_DNSNames t @ [h]\<rparr>)
       \<lparr>tp_SerialNumber = serial, tp_CommonName = host, tp_Organization = [''dandbox''],
        tp_NotBefore = now - 3600, tp_NotAfter = now + 24 * 3600,
        tp_KeyUsage = KeyUsageKeyEncipherment OR KeyUsageDigitalSignature,
        tp_ServerAuth = True, tp_BasicConstraintsValid = True, tp_IsCA = False, tp_MaxPathLenZero = False,
        tp_IPAddresses = [], tp_DNSNames = []\<rparr>
       (parseHosts host)"

text \<open>Without a CA certificate and key \<^verbatim>\<open>generateCert\<close> would dereference nil; the constructor returns
  a manager only with both. The error of marshalling the key is ignored, the bytes are then nil.\<close>

definition generateCert ::
  "('c, 'k, 't, 'w) x509lib \<Rightarrow> ('c, 'k, 't) CACertManager \<Rightarrow> string \<Rightarrow> 'w \<Rightarrow> (goerror + 't) \<times> 'w" where
  "generateCert x m host w =
     (case x_RandInt x (2 ^ 128) w of
        (Inl e, w1) \<Rightarrow> (Inl (''generate serial: '' @ e), w1)
      | (Inr serial, w1) \<Rightarrow>
     (case x_GenerateKey x 2048 w1 of
        (Inl e, w2) \<Rightarrow> (Inl (''generate key: '' @ e), w2)
      | (Inr key, w2) \<Rightarrow>
     (case (ca_caCert m, ca_caKey m) of
        (Some caCert, Some caKey) \<Rightarrow>
          (case x_CreateCertificate x (host_template serial (x_Now x w2) host) (Inr caCert) key caKey w2 of
             (Inl e, w3) \<Rightarrow> (Inl (''create cert: '' @ e), w3)
           | (Inr certDER, w3) \<Rightarrow>
               (let certPEM = x_pemEncode x ''CERTIFICATE'' certDER;
                    keyBytes = (case x_MarshalPKCS8 x key of Inl _ \<Rightarrow> [] | Inr b \<Rightarrow> b);
                    keyPEM = x_pemEncode x ''PRIVATE KEY'' keyBytes
                in case x_KeyPair x certPEM keyPEM of
                     Inl e \<Rightarrow> (Inl (''parse key pair: '' @ e), w3)
                   | Inr tlsCert \<Rightarrow> (Inr tlsCert, w3)))
      | _ \<Rightarrow> (Inl ''nil CA'', w2))))"

text \<open>The two critical sections of \<^verbatim>\<open>getCert\<close>: the lookup under the read lock, the store under the
  write lock.\<close>

definition cert_host :: "string \<Rightarrow> string" where
  "cert_host serverName = (if serverName = [] then ''localhost'' else serverName)"

definition cert_lookup :: "('c, 'k, 't) CACertManager \<Rightarrow> string \<Rightarrow> 't option" where
  "cert_lookup m host = ca_certCache m host"

definition cert_store :: "string \<Rightarrow> 't \<Rightarrow> ('c, 'k, 't) CACertManager \<Rightarrow> ('c, 'k, 't) CACertManager" where
  "cert_store host cert m = m\<lparr>ca_certCache := (ca_certCache m)(host \<mapsto> cert)\<rparr>"

text \<open>Where a handshake is in \<^verbatim>\<open>getCert\<close>: before the lookup, before the generation (the lookup was a
  miss), before the store, returned.\<close>

datatype 't handshake =
    Looking string
  | Generating string
  | Storing string 't
  | Answered string "goerror + 't"

record ('c, 'k, 't, 'w) ca_system =
  cy_mgr :: "('c, 'k, 't) CACertManager"
  cy_world :: 'w
  cy_hs :: "nat \<Rightarrow> 't handshake option"

text \<open>The steps of any number of handshakes, and of the rest of the world (the clock, the source of
  randomness), which changes in any way at any time.\<close>

inductive getCert_step :: "('c, 'k, 't, 'w) x509lib \<Rightarrow> ('c, 'k, 't, 'w) ca_system \<Rightarrow> ('c, 'k, 't, 'w) ca_system \<Rightarrow> bool"
  for x :: "('c, 'k, 't, 'w) x509lib" where
  hello: "cy_hs s i = None \<Longrightarrow>
     getCert_step x s (s\<lparr>cy_hs := (cy_hs s)(i \<mapsto> Looking (cert_host serverName))\<rparr>)"
| cache_hit: "cy_hs s i = Some (Looking host) \<Longrightarrow> cert_lookup (cy_mgr s) host = Some cached \<Longrightarrow>
     getCert_step x s (s\<lparr>cy_hs := (cy_hs s)(i \<mapsto> Answered host (Inr cached))\<rparr>)"
| cache_miss: "cy_hs s i = Some (Looking host) \<Longrightarrow> cert_lookup (cy_mgr s) host = None \<Longrightarrow>
     getCert_step x s (s\<lparr>cy_hs := (cy_hs s)(i \<mapsto> Generating host)\<rparr>)"
| generated: "cy_hs s i = Some (Generating host) \<Longrightarrow> generateCert x (cy_mgr s) host (cy_world s) = (Inr cert, w) \<Longrightarrow>
     getCert_step x s (s\<lparr>cy_world := w, cy_hs := (cy_hs s)(i \<mapsto> Storing host cert)\<rparr>)"
| failed: "cy_hs s i = Some (Generating host) \<Longrightarrow> generateCert x (cy_mgr s) host (cy_world s) = (Inl e, w) \<Longrightarrow>
     getCert_step x s (s\<lparr>cy_world := w, cy_hs := (cy_hs s)(i \<mapsto> Answered host (Inl e))\<rparr>)"
| stored: "cy_hs s i = Some (Storing host cert) \<Longrightarrow>
     getCert_step x s (s\<lparr>cy_mgr := cert_store host cert (cy_mgr s),
       cy_hs := (cy_hs s)(i \<mapsto> Answered host (Inr cert))\<rparr>)"
| elapse: "getCert_step x s (s\<lparr>cy_world := w\<rparr>)"

text \<open>A handshake that no other one overlaps with: the same sections one after the other.\<close>

definition cert_alone ::
  "('c, 'k, 't, 'w) x509lib \<Rightarrow> string \<Rightarrow> ('c, 'k, 't) CACertManager \<times> 'w \<Rightarrow>
     (goerror + 't) \<times> ('c, 'k, 't) CACertManager \<times> 'w" where
  "cert_alone x host s =
     (case s of (m, w) \<Rightarrow>
        (case cert_lookup m host of
           Some cached \<Rightarrow> (Inr cached, m, w)
         | None \<Rightarrow>
             (case generateCert x m host w of
                (Inl e, w1) \<Rightarrow> (Inl e, m, w1)
              | (Inr cert, w1) \<Rightarrow> (Inr cert, cert_store host cert m, w1))))"

definition getCert_alone ::
  "('c, 'k, 't, 'w) x509lib \<Rightarrow> string \<Rightarrow> ('c, 'k, 't) CACertManager \<times> 'w \<Rightarrow>
     (goerror + 't) \<times> ('c, 'k, 't) CACertManager \<times> 'w" where
  "getCert_alone x serverName s = cert_alone x (cert_host serverName) s"

section \<open>The cache as an interface\<close>

text \<open>A table of which a lookup gives what was stored last under that key.\<close>

locale lookup_store =
  fixes lookup :: "'m \<Rightarrow> 'key \<Rightarrow> 'v option"
    and store :: "'key \<Rightarrow> 'v \<Rightarrow> 'm \<Rightarrow> 'm"
  assumes lookup_store: "lookup (store k v m) k' = (if k' = k then Some v else lookup m k')"
begin

lemma lookup_same: "lookup (store k v m) k = Some v"
  by (simp add: lookup_store)

lemma lookup_kept: "lookup m k = Some v \<Longrightarrow> k' \<noteq> k \<Longrightarrow> lookup (store k' v' m) k = Some v"
  by (simp add: lookup_store)

lemma lookup_all: "(\<And>k v. lookup m k = Some v \<Longrightarrow> P k v) \<Longrightarrow> P k v \<Longrightarrow> lookup (store k v m) k' = Some v' \<Longrightarrow> P k' v'"
  by (auto simp: lookup_store split: if_splits)

end

interpretation certs: lookup_store cert_lookup cert_store
  by unfold_locales (simp add: cert_lookup_def cert_store_def)

section \<open>Lemmas: handshakes\<close>

lemma cert_store_frame [simp]:
  "ca_caCert (cert_store h c m) = ca_caCert m" "ca_caKey (cert_store h c m) = ca_caKey m"
  by (simp_all add: cert_store_def)

text \<open>A handshake alone is a run of the steps.\<close>

lemma getCert_alone_is_run:
  assumes "cy_hs s i = None" "getCert_alone x sn (cy_mgr s, cy_world s) = (r, m, w)"
  shows "(getCert_step x)\<^sup>*\<^sup>* s (s\<lparr>cy_mgr := m, cy_world := w, cy_hs := (cy_hs s)(i \<mapsto> Answered (cert_host sn) r)\<rparr>)"
proof -
  let ?h = "cert_host sn"
  obtain m0 w0 hs where s: "s = \<lparr>cy_mgr = m0, cy_world = w0, cy_hs = hs\<rparr>" by (cases s)
  define at where "at = (\<lambda>m w p. s\<lparr>cy_mgr := m, cy_world := w, cy_hs := hs(i \<mapsto> p)\<rparr>)"
  have look: "getCert_step x s (at m0 w0 (Looking ?h))" using hello[OF assms(1)] by (simp add: at_def s)
  have hit: "cert_lookup m0 ?h = Some c \<Longrightarrow> getCert_step x (at m0 w0 (Looking ?h)) (at m0 w0 (Answered ?h (Inr c)))" for c
    using cache_hit[of "at m0 w0 (Looking ?h)" i ?h c x] by (simp add: at_def s)
  have miss: "cert_lookup m0 ?h = None \<Longrightarrow> getCert_step x (at m0 w0 (Looking ?h)) (at m0 w0 (Generating ?h))"
    using cache_miss[of "at m0 w0 (Looking ?h)" i ?h x] by (simp add: at_def s)
  have err: "generateCert x m0 ?h w0 = (Inl e, w1) \<Longrightarrow>
      getCert_step x (at m0 w0 (Generating ?h)) (at m0 w1 (Answered ?h (Inl e)))" for e w1
    using failed[of "at m0 w0 (Generating ?h)" i ?h x e w1] by (simp add: at_def s)
  have gen: "generateCert x m0 ?h w0 = (Inr c, w1) \<Longrightarrow>
      getCert_step x (at m0 w0 (Generating ?h)) (at m0 w1 (Storing ?h c))" for c w1
    using generated[of "at m0 w0 (Generating ?h)" i ?h x c w1] by (simp add: at_def s)
  have sto: "getCert_step x (at m0 w1 (Storing ?h c)) (at (cert_store ?h c m0) w1 (Answered ?h (Inr c)))" for c w1
    using stored[of "at m0 w1 (Storing ?h c)" i ?h c x] by (simp add: at_def s)
  have "(getCert_step x)\<^sup>*\<^sup>* s (at m w (Answered ?h r))"
  proof (cases "cert_lookup m0 ?h")
    case (Some c)
    then have "r = Inr c" "m = m0" "w = w0" using assms(2) s by (simp_all add: getCert_alone_def cert_alone_def)
    then show ?thesis using look hit[OF Some] by (meson rtranclp.rtrancl_into_rtrancl rtranclp.rtrancl_refl)
  next
    case None
    obtain q w1 where g: "generateCert x m0 ?h w0 = (q, w1)" by fastforce
    have r: "(r, m, w) = (case q of Inl e \<Rightarrow> (Inl e, m0, w1) | Inr c \<Rightarrow> (Inr c, cert_store ?h c m0, w1))"
      using assms(2) s None g by (simp add: getCert_alone_def cert_alone_def split: sum.splits)
    have 2: "(getCert_step x)\<^sup>*\<^sup>* s (at m0 w0 (Generating ?h))"
      using look miss[OF None] by (meson rtranclp.rtrancl_into_rtrancl rtranclp.rtrancl_refl)
    show ?thesis
    proof (cases q)
      case (Inl e)
      then show ?thesis using 2 err g r by (simp add: rtranclp.rtrancl_into_rtrancl)
    next
      case (Inr c)
      then have "(getCert_step x)\<^sup>*\<^sup>* s (at m0 w1 (Storing ?h c))"
        using 2 gen g by (simp add: rtranclp.rtrancl_into_rtrancl)
      then show ?thesis using sto[of w1 c] r Inr by (simp add: rtranclp.rtrancl_into_rtrancl)
    qed
  qed
  then show ?thesis using s by (simp add: at_def s)
qed

text \<open>A certificate for \<open>h\<close>: signed with the CA's key on the template for \<open>h\<close>.\<close>

definition made_for :: "('c, 'k, 't, 'w) x509lib \<Rightarrow> 'c option \<Rightarrow> 'k option \<Rightarrow> string \<Rightarrow> 't \<Rightarrow> bool" where
  "made_for x caCert caKey h c \<longleftrightarrow>
     (\<exists>ac ak key serial w w' der pem. caCert = Some ac \<and> caKey = Some ak \<and>
        x_CreateCertificate x (host_template serial (x_Now x w) h) (Inr ac) key ak w = (Inr der, w') \<and>
        x_KeyPair x (x_pemEncode x ''CERTIFICATE'' der) pem = Inr c)"

lemma generateCert_made:
  "generateCert x m h w = (Inr c, w') \<Longrightarrow> made_for x (ca_caCert m) (ca_caKey m) h c"
  unfolding generateCert_def made_for_def Let_def
  by (simp split: prod.splits sum.splits option.splits) blast+

text \<open>Every certificate in the cache or in a handshake was made for its host.\<close>

definition handshakes_ok :: "('c, 'k, 't, 'w) x509lib \<Rightarrow> 'c option \<Rightarrow> 'k option \<Rightarrow> ('c, 'k, 't, 'w) ca_system \<Rightarrow> bool" where
  "handshakes_ok x ac ak s \<longleftrightarrow>
     ca_caCert (cy_mgr s) = ac \<and> ca_caKey (cy_mgr s) = ak \<and>
     (\<forall>h c. cert_lookup (cy_mgr s) h = Some c \<longrightarrow> made_for x ac ak h c) \<and>
     (\<forall>i h c. cy_hs s i \<in> {Some (Storing h c), Some (Answered h (Inr c))} \<longrightarrow> made_for x ac ak h c)"

lemma handshakes_ok_step: "getCert_step x s s' \<Longrightarrow> handshakes_ok x ac ak s \<Longrightarrow> handshakes_ok x ac ak s'"
proof (induction rule: getCert_step.induct)
  case (generated s i host cert w)
  then show ?case using generateCert_made[of x "cy_mgr s" host "cy_world s" cert w] by (auto simp: handshakes_ok_def)
next
  case (stored s i host cert)
  then have "made_for x ac ak host cert" by (auto simp: handshakes_ok_def)
  with stored show ?case by (auto simp: handshakes_ok_def certs.lookup_store)
qed (auto simp: handshakes_ok_def)

lemma handshakes_ok_run: "(getCert_step x)\<^sup>*\<^sup>* s s' \<Longrightarrow> handshakes_ok x ac ak s \<Longrightarrow> handshakes_ok x ac ak s'"
  by (induction rule: rtranclp_induct) (auto intro: handshakes_ok_step)

text \<open>The cache holds \<open>c\<close> for \<open>h\<close> and no handshake for \<open>h\<close> is between its lookup and its store.\<close>

definition settled :: "string \<Rightarrow> 't \<Rightarrow> ('c, 'k, 't, 'w) ca_system \<Rightarrow> bool" where
  "settled h c s \<longleftrightarrow> cert_lookup (cy_mgr s) h = Some c \<and>
     (\<forall>i c'. cy_hs s i \<noteq> Some (Generating h) \<and> cy_hs s i \<noteq> Some (Storing h c'))"

lemma settled_step: "getCert_step x s s' \<Longrightarrow> settled h c s \<Longrightarrow> settled h c s'"
proof (induction rule: getCert_step.induct)
  case (stored s i host cert)
  then have "host \<noteq> h" by (auto simp: settled_def)
  then show ?case using stored certs.lookup_kept[of "cy_mgr s" h c host cert] by (auto simp: settled_def)
qed (auto simp: settled_def)

lemma settled_answers:
  "getCert_step x s s' \<Longrightarrow> settled h c s \<Longrightarrow> cy_hs s' i = Some (Answered h r) \<Longrightarrow>
     cy_hs s i = Some (Answered h r) \<or> r = Inr c"
  by (induction rule: getCert_step.induct) (auto simp: settled_def split: if_splits)

lemma settled_run:
  "(getCert_step x)\<^sup>*\<^sup>* s s' \<Longrightarrow> settled h c s \<Longrightarrow>
     settled h c s' \<and> (\<forall>i r. cy_hs s' i = Some (Answered h r) \<longrightarrow> cy_hs s i = Some (Answered h r) \<or> r = Inr c)"
proof (induction rule: rtranclp_induct)
  case base
  then show ?case by simp
next
  case (step s1 s2)
  then show ?case using settled_step[OF step.hyps(2)] settled_answers[OF step.hyps(2)] by blast
qed

section \<open>Lemmas: paths\<close>

lemma clean_elems_snoc:
  "e \<notin> {[], ''.'', ''..''} \<Longrightarrow> clean_elems rooted acc (es @ [e]) = clean_elems rooted acc es @ [e]"
  by (induction rooted acc es rule: clean_elems.induct) (auto split: list.split)

lemma join_with_snoc: "\<exists>pre. \<forall>e. join_with sep (es @ [e]) = pre @ e"
proof (induction es)
  case (Cons a es)
  then obtain pre where pre: "\<And>e. join_with sep (es @ [e]) = pre @ e" by blast
  have "join_with sep ((a # es) @ [e]) = (a @ sep @ pre) @ e" for e
    using pre[of e] by (cases "es @ [e]") auto
  then show ?case by blast
qed auto

lemma split_slash_no_slash: "CHR ''/'' \<notin> set f \<Longrightarrow> split_slash f = [f]"
  by (induction f) auto

lemma split_slash_append: "CHR ''/'' \<notin> set f \<Longrightarrow> split_slash (d @ CHR ''/'' # f) = split_slash d @ [f]"
  by (induction d) (auto simp: split_slash_no_slash split: list.split)

text \<open>Two different plain file names give different paths in the same directory.\<close>

lemma Join_file_inject:
  assumes "d \<noteq> []" "CHR ''/'' \<notin> set f" "CHR ''/'' \<notin> set g"
    "f \<notin> {[], ''.'', ''..''}" "g \<notin> {[], ''.'', ''..''}" "f \<noteq> g"
  shows "Join [d, f] \<noteq> Join [d, g]"
proof -
  let ?es = "clean_elems (prefix ''/'' (d @ ''/'')) [] (split_slash d)"
  obtain pre where pre: "\<And>e. join_with ''/'' (?es @ [e]) = pre @ e" using join_with_snoc by blast
  have root: "prefix ''/'' (d @ ''/'' @ h) = prefix ''/'' (d @ ''/'')" for h
    using assms(1) by (cases d) auto
  have J: "Join [d, h] = (if prefix ''/'' (d @ ''/'') then ''/'' @ pre @ h else pre @ h)"
    if "CHR ''/'' \<notin> set h" "h \<notin> {[], ''.'', ''..''}" for h
    using that assms(1) root[of h] clean_elems_snoc[of h] pre[of h]
    by (cases "prefix ''/'' d") (simp_all add: Join_def Clean_def Let_def split_slash_append)
  show ?thesis using J[OF assms(2,4)] J[OF assms(3,5)] assms(6) by auto
qed

lemma ca_paths_differ: "d \<noteq> [] \<Longrightarrow> Join [d, ''ca-cert.pem''] \<noteq> Join [d, ''ca-key.pem'']"
  by (rule Join_file_inject) simp_all

section \<open>Lemmas: names\<close>

lemma ParseIP_star: "ParseIP (''*.'' @ h) = None"
proof -
  have "split_on (CHR ''.'') (''*.'' @ h) = ''*'' # split_on (CHR ''.'') h" by simp
  moreover have "v4_field ''*'' = None" by (simp add: v4_field_def is_digit_def)
  ultimately have "parseIPv4 (''*.'' @ h) = None" by (simp add: parseIPv4_def Let_def)
  then show ?thesis by (simp add: ParseIP_def)
qed

lemma SplitHostPort_no_colon: "CHR '':'' \<notin> set h \<Longrightarrow> SplitHostPort h = Inl MissingPort"
proof -
  assume "CHR '':'' \<notin> set h"
  then have "LastIndex h (CHR '':'') = None" by simp
  then show ?thesis unfolding SplitHostPort_def by (simp only: option.case)
qed

lemma sublist_single: "sublist [c] s \<longleftrightarrow> c \<in> set s"
  by (metis in_set_conv_decomp sublist_def append_Cons append_Nil list.set_intros(1)
      set_mono_sublist subsetD)

lemma dotted_no_star: "CHR ''*'' \<notin> set (dotted bs)"
proof -
  have "\<not> is_digit (CHR ''*'')" by (simp add: is_digit_def)
  then have "CHR ''*'' \<notin> set (nat_dec n)" for n using nat_dec_digits[of n] by blast
  then show ?thesis by (induction bs rule: dotted.induct) auto
qed

lemma parseHosts_plain:
  "CHR '':'' \<notin> set h \<Longrightarrow> CHR ''*'' \<notin> set h \<Longrightarrow> parseHosts h = [h, ''*.'' @ h]"
  by (auto simp: parseHosts_def SplitHostPort_no_colon sublist_single dest: set_mono_prefix)

lemma host_template_frame:
  "tp_CommonName (host_template n now h) = h" "tp_NotBefore (host_template n now h) = now - 3600"
  "tp_NotAfter (host_template n now h) = now + 86400"
proof -
  have "tp_CommonName (foldl (\<lambda>t h. case ParseIP h of
              Some ip \<Rightarrow> t\<lparr>tp_IPAddresses := tp_IPAddresses t @ [ip]\<rparr>
            | None \<Rightarrow> t\<lparr>tp_DNSNames := tp_DNSNames t @ [h]\<rparr>) t hs) = tp_CommonName t \<and>
     tp_NotBefore (foldl (\<lambda>t h. case ParseIP h of
              Some ip \<Rightarrow> t\<lparr>tp_IPAddresses := tp_IPAddresses t @ [ip]\<rparr>
            | None \<Rightarrow> t\<lparr>tp_DNSNames := tp_DNSNames t @ [h]\<rparr>) t hs) = tp_NotBefore t \<and>
     tp_NotAfter (foldl (\<lambda>t h. case ParseIP h of
              Some ip \<Rightarrow> t\<lparr>tp_IPAddresses := tp_IPAddresses t @ [ip]\<rparr>
            | None \<Rightarrow> t\<lparr>tp_DNSNames := tp_DNSNames t @ [h]\<rparr>) t hs) = tp_NotAfter t" for t :: template and hs
    by (induction hs arbitrary: t) (auto split: option.split)
  then show "tp_CommonName (host_template n now h) = h" "tp_NotBefore (host_template n now h) = now - 3600"
    "tp_NotAfter (host_template n now h) = now + 86400"
    by (simp_all add: host_template_def)
qed

section \<open>Lemmas: load after create\<close>

text \<open>
  What is relied on: written files are read back and other files stay, creating a directory
  succeeds and keeps the files; PEM and PKCS#8 are inverted by their decoders.
\<close>

definition os_files :: "'w os \<Rightarrow> bool" where
  "os_files osx \<longleftrightarrow>
     (\<forall>f data mode w w'. WriteFile osx f data mode w = (None, w') \<longrightarrow>
        ReadFile osx f w' = Inr data \<and> (\<forall>g. g \<noteq> f \<longrightarrow> ReadFile osx g w' = ReadFile osx g w)) \<and>
     (\<forall>d mode w. fst (MkdirAll osx d mode w) = None \<and>
        (\<forall>g. ReadFile osx g (snd (MkdirAll osx d mode w)) = ReadFile osx g w))"

definition codecs_invert :: "('c, 'k, 't, 'w) x509lib \<Rightarrow> bool" where
  "codecs_invert x \<longleftrightarrow>
     (\<forall>ty b. x_pemDecode x (x_pemEncode x ty b) = Some b) \<and>
     (\<forall>k b. x_MarshalPKCS8 x k = Inr b \<longrightarrow> x_ParsePKCS8 x b = Inr k)"

text \<open>The files hold the CA of the manager.\<close>

definition on_disk :: "('c, 'k, 't, 'w) x509lib \<Rightarrow> 'w os \<Rightarrow> ('c, 'k, 't) CACertManager \<Rightarrow> 'w \<Rightarrow> bool" where
  "on_disk x osx m w \<longleftrightarrow>
     ReadFile osx (ca_certPath m) w = Inr (ca_caCertPEM m) \<and>
     ReadFile osx (ca_keyPath m) w = Inr (ca_caKeyPEM m) \<and>
     (\<exists>b c. x_pemDecode x (ca_caCertPEM m) = Some b \<and> x_ParseCertificate x b = Inr c \<and> ca_caCert m = Some c) \<and>
     (\<exists>b k. x_pemDecode x (ca_caKeyPEM m) = Some b \<and> x_ParsePKCS8 x b = Inr k \<and> ca_caKey m = Some k)"

lemma loadCA_on_disk: "loadCA x osx m w = Inr m' \<Longrightarrow> on_disk x osx m' w"
  by (auto simp: loadCA_def on_disk_def split: sum.splits option.splits)

lemma loadCA_paths:
  "loadCA x osx m w = Inr m' \<Longrightarrow> ca_certPath m' = ca_certPath m \<and> ca_keyPath m' = ca_keyPath m"
  by (auto simp: loadCA_def split: sum.splits option.splits)

lemma loadCA_of_disk:
  "on_disk x osx m' w \<Longrightarrow> ca_certPath m = ca_certPath m' \<Longrightarrow> ca_keyPath m = ca_keyPath m' \<Longrightarrow>
     loadCA x osx m w = Inr (m\<lparr>ca_caCert := ca_caCert m', ca_caKey := ca_caKey m',
       ca_caCertPEM := ca_caCertPEM m', ca_caKeyPEM := ca_caKeyPEM m'\<rparr>)"
  by (auto simp: loadCA_def on_disk_def)

lemma createCA_parsed:
  assumes "createCA x m w = (Inr m', w')" "codecs_invert x"
  shows "(\<exists>b c. x_pemDecode x (ca_caCertPEM m') = Some b \<and> x_ParseCertificate x b = Inr c \<and> ca_caCert m' = Some c) \<and>
     (\<exists>b k. x_pemDecode x (ca_caKeyPEM m') = Some b \<and> x_ParsePKCS8 x b = Inr k \<and> ca_caKey m' = Some k) \<and>
     ca_certPath m' = ca_certPath m \<and> ca_keyPath m' = ca_keyPath m"
  using assms by (auto simp: createCA_def codecs_invert_def Let_def split: prod.splits sum.splits)

lemma saveCA_reads:
  assumes "saveCA osx m w = (None, w')" "os_files osx" "ca_certPath m \<noteq> ca_keyPath m"
  shows "ReadFile osx (ca_certPath m) w' = Inr (ca_caCertPEM m) \<and> ReadFile osx (ca_keyPath m) w' = Inr (ca_caKeyPEM m)"
proof -
  obtain w1 where "WriteFile osx (ca_certPath m) (ca_caCertPEM m) mode_0644 w = (None, w1)"
    "WriteFile osx (ca_keyPath m) (ca_caKeyPEM m) mode_0600 w1 = (None, w')"
    using assms(1) by (auto simp: saveCA_def split: prod.splits option.splits)
  then show ?thesis using assms(2,3) unfolding os_files_def by metis
qed

lemma on_disk_mkdir: "os_files osx \<Longrightarrow> on_disk x osx m (snd (MkdirAll osx d mode w)) = on_disk x osx m w"
  by (simp add: on_disk_def os_files_def)

lemma on_disk_pool [simp]: "on_disk x osx (m\<lparr>ca_certPool := l\<rparr>) w = on_disk x osx m w"
  by (simp add: on_disk_def)

lemma newCA_at_on_disk:
  assumes "newCA_at x osx d k w = (Inr m, w')" "os_files osx" "codecs_invert x" "d \<noteq> []"
  shows "on_disk x osx m w' \<and> ca_certPath m = Join [d, ''ca-cert.pem''] \<and> ca_keyPath m = Join [d, ''ca-key.pem'']"
proof -
  obtain w1 where mk: "MkdirAll osx d mode_0700 w = (None, w1)"
    using assms(1) by (auto simp: newCA_at_def split: prod.splits option.splits)
  define m0 :: "('a, 'b, 'c) CACertManager" where
    "m0 = \<lparr>ca_caCert = None, ca_caKey = None, ca_caCertPEM = [], ca_caKeyPEM = [],
           ca_certPath = Join [d, ''ca-cert.pem''], ca_keyPath = Join [d, ''ca-key.pem''],
           ca_certPool = [], ca_certCache = Map.empty, ca_caKeySize = k\<rparr>"
  have paths: "ca_certPath m0 = Join [d, ''ca-cert.pem'']" "ca_keyPath m0 = Join [d, ''ca-key.pem'']"
    by (simp_all add: m0_def)
  show ?thesis
  proof (cases "loadCA x osx m0 w1")
    case (Inr m1)
    then have "m = m1\<lparr>ca_certPool := [ca_caCertPEM m1]\<rparr>" "w' = w1"
      using assms(1) mk by (auto simp: newCA_at_def m0_def Let_def)
    then show ?thesis using loadCA_on_disk[OF Inr] loadCA_paths[OF Inr] paths by simp
  next
    case (Inl e)
    obtain m2 w2 where cr: "createCA x m0 w1 = (Inr m2, w2)" and sv: "saveCA osx m2 w2 = (None, w')"
      and m: "m = m2\<lparr>ca_certPool := [ca_caCertPEM m2]\<rparr>"
      using assms(1) mk Inl
      by (auto simp: newCA_at_def m0_def Let_def split: prod.splits sum.splits option.splits)
    note c = createCA_parsed[OF cr assms(3)]
    have "ca_certPath m2 \<noteq> ca_keyPath m2" using c paths ca_paths_differ[OF assms(4)] by simp
    from saveCA_reads[OF sv assms(2) this] show ?thesis
      using c m paths by (simp add: on_disk_def)
  qed
qed

section \<open>Properties\<close>

text \<open>C28: The CA is created once. After a start that returned a manager, the next start in the same
  directory, with whatever key size, returns a manager with the same certificate and the same
  key, and writes no file: certificates a sandbox was told to trust stay valid over restarts.\<close>

theorem CA_survives_restart:
  assumes "os_files osx" "codecs_invert x" "dir \<noteq> []"
    and "NewCACertManagerWithKeySize x osx dir k w = (Inr m, w')"
  shows "\<exists>m'. NewCACertManagerWithKeySize x osx dir k' w' = (Inr m', snd (MkdirAll osx dir mode_0700 w')) \<and>
    ca_caCert m' = ca_caCert m \<and> ca_caKey m' = ca_caKey m \<and> CACertPEM m' = CACertPEM m \<and>
    CertPath m' = CertPath m \<and> CertPool m' = [CACertPEM m]"
proof -
  have "newCA_at x osx dir k w = (Inr m, w')"
    using assms(3,4) by (simp add: NewCACertManagerWithKeySize_def)
  note d = newCA_at_on_disk[OF this assms(1,2,3)]
  obtain w1 where mk: "MkdirAll osx dir mode_0700 w' = (None, w1)"
    using assms(1) unfolding os_files_def by (metis prod.collapse)
  then have "on_disk x osx m w1"
    using d on_disk_mkdir[OF assms(1), of x m dir mode_0700 w'] by simp
  then show ?thesis
    using assms(3) d mk
    by (simp add: NewCACertManagerWithKeySize_def newCA_at_def Let_def loadCA_of_disk CACertPEM_def
        CertPath_def CertPool_def)
qed

text \<open>Transparent codecs, for concrete statements.\<close>

definition clear_x509 :: "(string, string, string \<times> string, string \<Rightarrow> string option) x509lib" where
  "clear_x509 =
     \<lparr>x_Now = (\<lambda>_. 0), x_RandInt = (\<lambda>_ w. (Inr 7, w)), x_GenerateKey = (\<lambda>_ w. (Inr ''key'', w)),
      x_CreateCertificate = (\<lambda>t _ _ _ w. (Inr (tp_CommonName t), w)),
      x_ParseCertificate = Inr, x_ParsePKCS8 = Inr, x_MarshalPKCS8 = Inr,
      x_pemEncode = (\<lambda>_ b. b), x_pemDecode = Some, x_KeyPair = (\<lambda>c k. Inr (c, k)),
      x_sha1 = (\<lambda>b. b), x_Raw = (\<lambda>c. c)\<rparr>"

lemma mem_os_files: "os_files mem_os"
  by (auto simp: os_files_def mem_os_def)

lemma clear_x509_codecs: "codecs_invert clear_x509"
  by (simp add: codecs_invert_def clear_x509_def)

lemma clear_start: "\<exists>m w'. NewCACertManagerWithKeySize clear_x509 mem_os ''/ca'' k Map.empty = (Inr m, w')
    \<and> ca_caKey m = Some ''key'' \<and> CACertPEM m = ''dandbox CA''"
proof -
  have "Join [''/ca'', ''ca-cert.pem''] \<noteq> Join [''/ca'', ''ca-key.pem'']" by (rule ca_paths_differ) simp
  then show ?thesis
    by (simp add: NewCACertManagerWithKeySize_def newCA_at_def loadCA_def createCA_def saveCA_def mem_os_def
        clear_x509_def CACertPEM_def ca_template_def Let_def)
qed

theorem CA_survives_restart_witness:
  "\<exists>m w' m' w''. NewCACertManagerWithKeySize clear_x509 mem_os ''/ca'' 2048 Map.empty = (Inr m, w') \<and>
     NewCACertManagerWithKeySize clear_x509 mem_os ''/ca'' 4096 w' = (Inr m', w'') \<and>
     ca_caKey m' = Some ''key'' \<and> CACertPEM m' = ''dandbox CA''"
proof -
  obtain m w' where s: "NewCACertManagerWithKeySize clear_x509 mem_os ''/ca'' 2048 Map.empty = (Inr m, w')"
    and m: "ca_caKey m = Some ''key''" "CACertPEM m = ''dandbox CA''"
    using clear_start by blast
  show ?thesis
    using s m CA_survives_restart[OF mem_os_files clear_x509_codecs _ s, of 4096] by auto
qed

text \<open>C29: The alternative names of a certificate. For an IPv4 literal the certificate has exactly that
  address as an IP name and, although no host can have it, the wildcard of the literal as a DNS
  name; for a host name without colon and star that is no IP address it has exactly the name
  and its wildcard, and no IP name.\<close>

theorem certificate_names:
  "(length ip = 4 \<longrightarrow>
     tp_IPAddresses (host_template n now (IP_String ip)) = [v4_prefix @ ip] \<and>
     tp_DNSNames (host_template n now (IP_String ip)) = [''*.'' @ IP_String ip]) \<and>
   (CHR '':'' \<notin> set h \<and> CHR ''*'' \<notin> set h \<and> ParseIP h = None \<longrightarrow>
     tp_IPAddresses (host_template n now h) = [] \<and> tp_DNSNames (host_template n now h) = [h, ''*.'' @ h])"
proof (intro conjI impI)
  assume l: "length ip = 4"
  have "CHR '':'' \<notin> set (IP_String ip)" using l dotted_no_colon by (simp add: IP_String_def)
  moreover have "CHR ''*'' \<notin> set (IP_String ip)"
    using l dotted_no_star by (simp add: IP_String_def)
  ultimately have "parseHosts (IP_String ip) = [IP_String ip, ''*.'' @ IP_String ip]"
    by (rule parseHosts_plain)
  then show "tp_IPAddresses (host_template n now (IP_String ip)) = [v4_prefix @ ip]"
    "tp_DNSNames (host_template n now (IP_String ip)) = [''*.'' @ IP_String ip]"
    using ParseIP_IPv4[OF l] ParseIP_star[of "IP_String ip"] by (simp_all add: host_template_def)
next
  assume h: "CHR '':'' \<notin> set h \<and> CHR ''*'' \<notin> set h \<and> ParseIP h = None"
  then have "parseHosts h = [h, ''*.'' @ h]" using parseHosts_plain by blast
  then show "tp_IPAddresses (host_template n now h) = []" "tp_DNSNames (host_template n now h) = [h, ''*.'' @ h]"
    using h ParseIP_star[of h] by (simp_all add: host_template_def)
qed

theorem certificate_names_witness:
  "tp_IPAddresses (host_template 7 0 (IP_String [CHR 0x01, CHR 0x02, CHR 0x03, CHR 0x04])) =
     [v4_prefix @ [CHR 0x01, CHR 0x02, CHR 0x03, CHR 0x04]] \<and>
   tp_DNSNames (host_template 7 0 ''a.io'') = [''a.io'', ''*.a.io'']"
proof -
  have "ParseIP ''a.io'' = None" by code_simp
  then show ?thesis
    using certificate_names[of "[CHR 0x01, CHR 0x02, CHR 0x03, CHR 0x04]" 7 0 "''a.io''"] by simp
qed

text \<open>A manager with a CA and an empty cache, and no handshake yet.\<close>

definition ca_start :: "'c \<Rightarrow> 'k \<Rightarrow> 'w \<Rightarrow> ('c, 'k, 't, 'w) ca_system" where
  "ca_start caCert caKey w =
     \<lparr>cy_mgr = \<lparr>ca_caCert = Some caCert, ca_caKey = Some caKey, ca_caCertPEM = [], ca_caKeyPEM = [],
        ca_certPath = [], ca_keyPath = [], ca_certPool = [], ca_certCache = Map.empty, ca_caKeySize = 4096\<rparr>,
      cy_world = w, cy_hs = Map.empty\<rparr>"

definition clear_start_state :: "(string, string, string \<times> string, string \<Rightarrow> string option) ca_system" where
  "clear_start_state = ca_start ''CA'' ''key'' Map.empty"

definition clear_answered :: "(string, string, string \<times> string, string \<Rightarrow> string option) ca_system" where
  "clear_answered = clear_start_state
     \<lparr>cy_mgr := cert_store ''a.io'' (''a.io'', ''key'') (cy_mgr clear_start_state),
      cy_hs := [0 \<mapsto> Answered ''a.io'' (Inr (''a.io'', ''key''))]\<rparr>"

lemma clear_start_state_simps [simp]:
  "ca_certCache (cy_mgr clear_start_state) = Map.empty" "cy_hs clear_start_state = Map.empty"
  "ca_caCert (cy_mgr clear_start_state) = Some ''CA''" "ca_caKey (cy_mgr clear_start_state) = Some ''key''"
  by (simp_all add: clear_start_state_def ca_start_def)

lemma generateCert_clear:
  "ca_caCert m = Some ac \<Longrightarrow> ca_caKey m = Some ak \<Longrightarrow> generateCert clear_x509 m h w = (Inr (h, ''key''), w)"
  by (simp add: generateCert_def clear_x509_def Let_def host_template_frame)

lemma clear_run: "(getCert_step clear_x509)\<^sup>*\<^sup>* clear_start_state clear_answered"
proof -
  have "getCert_alone clear_x509 ''a.io'' (cy_mgr clear_start_state, cy_world clear_start_state) =
      (Inr (''a.io'', ''key''), cert_store ''a.io'' (''a.io'', ''key'') (cy_mgr clear_start_state), cy_world clear_start_state)"
    by (simp add: getCert_alone_def cert_host_def cert_alone_def cert_lookup_def generateCert_clear)
  from getCert_alone_is_run[OF _ this, of 0] show ?thesis by (simp add: cert_host_def clear_answered_def)
qed

text \<open>C30: Certificates go to the host they were made for. However handshakes interleave, a handshake that
  is answered with a certificate gets one that was signed with the key of the CA, on the template
  of exactly the server name it asked for (localhost when it named none), valid from an hour
  before to a day after the moment it was made; the cache never mixes up hosts.\<close>

theorem certificate_made_for_host:
  assumes "ca_certCache (cy_mgr s0) = Map.empty" "cy_hs s0 = Map.empty"
    and "(getCert_step x)\<^sup>*\<^sup>* s0 s" "cy_hs s i = Some (Answered h (Inr c))"
  shows "\<exists>ac ak key serial w w' der pem. ca_caCert (cy_mgr s0) = Some ac \<and> ca_caKey (cy_mgr s0) = Some ak \<and>
    x_CreateCertificate x (host_template serial (x_Now x w) h) (Inr ac) key ak w = (Inr der, w') \<and>
    x_KeyPair x (x_pemEncode x ''CERTIFICATE'' der) pem = Inr c \<and>
    tp_CommonName (host_template serial (x_Now x w) h) = h \<and>
    tp_NotBefore (host_template serial (x_Now x w) h) = x_Now x w - 3600 \<and>
    tp_NotAfter (host_template serial (x_Now x w) h) = x_Now x w + 86400"
proof -
  have "handshakes_ok x (ca_caCert (cy_mgr s0)) (ca_caKey (cy_mgr s0)) s0"
    using assms(1,2) by (simp add: handshakes_ok_def cert_lookup_def)
  from handshakes_ok_run[OF assms(3) this] have "made_for x (ca_caCert (cy_mgr s0)) (ca_caKey (cy_mgr s0)) h c"
    using assms(4) by (auto simp: handshakes_ok_def)
  then show ?thesis by (auto simp: made_for_def host_template_frame)
qed

theorem certificate_made_for_host_witness:
  "\<exists>s. (getCert_step clear_x509)\<^sup>*\<^sup>* clear_start_state s \<and>
     (\<exists>key serial w w' der. x_CreateCertificate clear_x509 (host_template serial (x_Now clear_x509 w) ''a.io'') (Inr ''CA'')
        key ''key'' w = (Inr der, w'))"
proof -
  have "cy_hs clear_answered 0 = Some (Answered ''a.io'' (Inr (''a.io'', ''key'')))" by (simp add: clear_answered_def)
  from certificate_made_for_host[OF _ _ clear_run this] clear_run show ?thesis
    by fastforce
qed

text \<open>C31: Nothing renews a certificate. From a moment when the cache holds a certificate for a host and
  no handshake for that host is between its lookup and its store, whatever handshakes come and
  however far time moves, the cache keeps that certificate and every handshake for that host that is
  answered from then on gets it, although it is valid for 24 hours only.\<close>

theorem certificate_never_renewed:
  assumes "cert_lookup (cy_mgr s) h = Some c"
    and "\<forall>i c'. cy_hs s i \<noteq> Some (Generating h) \<and> cy_hs s i \<noteq> Some (Storing h c')"
    and "(getCert_step x)\<^sup>*\<^sup>* s s'"
  shows "cert_lookup (cy_mgr s') h = Some c \<and>
    (\<forall>i r. cy_hs s' i = Some (Answered h r) \<and> cy_hs s i \<noteq> Some (Answered h r) \<longrightarrow> r = Inr c)"
proof -
  have "settled h c s" using assms(1,2) by (simp add: settled_def)
  from settled_run[OF assms(3) this] show ?thesis by (auto simp: settled_def)
qed

theorem certificate_never_renewed_witness:
  "\<exists>s'. (getCert_step clear_x509)\<^sup>*\<^sup>* clear_answered s' \<and> cy_world s' = [''clock'' \<mapsto> ''next year''] \<and>
     cy_hs s' 1 = Some (Answered ''a.io'' (Inr (''a.io'', ''key''))) \<and>
     cert_lookup (cy_mgr s') ''a.io'' = Some (''a.io'', ''key'')"
proof -
  let ?s1 = "clear_answered\<lparr>cy_world := [''clock'' \<mapsto> ''next year'']\<rparr>"
  have l: "cert_lookup (cy_mgr clear_answered) ''a.io'' = Some (''a.io'', ''key'')"
    by (simp add: clear_answered_def certs.lookup_same)
  have "getCert_alone clear_x509 ''a.io'' (cy_mgr ?s1, cy_world ?s1) = (Inr (''a.io'', ''key''), cy_mgr ?s1, cy_world ?s1)"
    using l by (simp add: getCert_alone_def cert_host_def cert_alone_def)
  moreover have "cy_hs ?s1 1 = None" by (simp add: clear_answered_def)
  ultimately have "(getCert_step clear_x509)\<^sup>*\<^sup>* ?s1 (?s1\<lparr>cy_hs := (cy_hs ?s1)(1 \<mapsto> Answered ''a.io'' (Inr (''a.io'', ''key'')))\<rparr>)"
    using getCert_alone_is_run[of ?s1 1 clear_x509 "''a.io''"] by (simp add: cert_host_def)
  then have run: "(getCert_step clear_x509)\<^sup>*\<^sup>* clear_answered
      (?s1\<lparr>cy_hs := (cy_hs ?s1)(1 \<mapsto> Answered ''a.io'' (Inr (''a.io'', ''key'')))\<rparr>)"
    using elapse[of clear_x509 clear_answered] by (meson converse_rtranclp_into_rtranclp)
  have "\<forall>i c'. cy_hs clear_answered i \<noteq> Some (Generating ''a.io'') \<and> cy_hs clear_answered i \<noteq> Some (Storing ''a.io'' c')"
    by (simp add: clear_answered_def)
  from certificate_never_renewed[OF l this run] run show ?thesis by (intro exI conjI) auto
qed

end
