(* ===== verification/Sidecar.thy ===== *)
theory Sidecar
  imports Dispatch CA
begin

text \<open>
  src/cmd/proxy-sidecar/main.go: the program that runs the proxy beside a sandbox. Its start
  (directories, CA, policy, initial rules and secrets, the proxy's settings), the handlers of its
  loopback server, and its signals. The parsed command line is a record; \<open>dec_rules\<close> and
  \<open>dec_secrets\<close> are \<^verbatim>\<open>json.Unmarshal\<close> on the two list types; a request body arrives decoded. The
  proxy, the policy engine and the secret manager are shared pointers in the program: here they
  are the fields of the proxy.
\<close>

section \<open>Start\<close>

record flags =
  fl_proxyAddr :: string
  fl_caDir :: string
  fl_policyDir :: string
  fl_secretsFile :: string
  fl_sandbox :: string
  fl_maxConns :: int
  fl_rawTCPIdleTimeout :: int

definition ca_dir :: "'w os \<Rightarrow> flags \<Rightarrow> string" where
  "ca_dir osx fl =
     (let d = (if fl_caDir fl = [] then Getenv osx ''PROXY_CA_DIR'' else fl_caDir fl) in
      if d = [] then Join [''/etc'', ''sbxsandbox'', ''ca''] else d)"

definition policy_dir :: "'w os \<Rightarrow> flags \<Rightarrow> string" where
  "policy_dir osx fl =
     (let d = (if fl_policyDir fl = [] then Getenv osx ''PROXY_POLICY_DIR'' else fl_policyDir fl) in
      if d = [] then Join [''/etc'', ''sbxsandbox'', ''policy''] else d)"

definition initial_rules ::
  "'w os \<Rightarrow> rules_json \<Rightarrow> (string \<Rightarrow> goerror + Rule list) \<Rightarrow> Engine \<Rightarrow> 'w \<Rightarrow> Engine \<times> 'w" where
  "initial_rules osx jm dec_rules pol w =
     (let envRules = Getenv osx ''PROXY_RULES_JSON'' in
      if envRules \<noteq> [] then
        (case dec_rules envRules of
           Inr rules \<Rightarrow> LoadRules osx jm rules pol w
         | Inl _ \<Rightarrow> (pol, w))
      else (pol, w))"

definition initial_secrets ::
  "'w os \<Rightarrow> (string \<Rightarrow> goerror + CustomSecret list) \<Rightarrow> flags \<Rightarrow> 'w \<Rightarrow> SecretManager" where
  "initial_secrets osx dec_secrets fl w =
     (if fl_secretsFile fl \<noteq> [] then
        (case ReadFile osx (fl_secretsFile fl) w of
           Inl _ \<Rightarrow> NewSecretManager
         | Inr data \<Rightarrow>
             (case dec_secrets data of
                Inl _ \<Rightarrow> NewSecretManager
              | Inr secs \<Rightarrow> SetSecrets secs NewSecretManager))
      else NewSecretManager)"

definition configure :: "flags \<Rightarrow> Proxy \<Rightarrow> Proxy" where
  "configure fl p =
     (let p1 = SetRawTCPEnabled True (SetSOCKS5Enabled True (SetSandboxName (fl_sandbox fl) p));
          p2 = (if fl_maxConns fl > 0 then SetMaxConnections (fl_maxConns fl) p1 else p1)
      in if fl_rawTCPIdleTimeout fl > 0 then SetRawTCPIdleTimeout (fl_rawTCPIdleTimeout fl) p2 else p2)"

text \<open>\<open>Inl\<close> is the text of \<^verbatim>\<open>log.Fatalf\<close>, with which the program ends.\<close>

definition sidecar_start ::
  "('c, 'k, 't, 'w) x509lib \<Rightarrow> 'w os \<Rightarrow> rules_json \<Rightarrow> (string \<Rightarrow> goerror + Rule list) \<Rightarrow>
   (string \<Rightarrow> goerror + CustomSecret list) \<Rightarrow> (string \<Rightarrow> goerror + string) \<Rightarrow> flags \<Rightarrow> 'w \<Rightarrow>
     (goerror + Proxy \<times> ('c, 'k, 't) CACertManager) \<times> 'w" where
  "sidecar_start x osx jm dec_rules dec_secrets listen fl w =
     (case NewCACertManager x osx (ca_dir osx fl) w of
        (Inl e, w1) \<Rightarrow> (Inl (''Failed to initialize CA: '' @ e), w1)
      | (Inr certManager, w1) \<Rightarrow>
     (case NewEngine osx jm (policy_dir osx fl) w1 of
        (Inl e, w2) \<Rightarrow> (Inl (''Failed to initialize policy: '' @ e), w2)
      | (Inr pol0, w2) \<Rightarrow>
     (case initial_rules osx jm dec_rules pol0 w2 of
        (pol, w3) \<Rightarrow>
     (let sec = initial_secrets osx dec_secrets fl w3;
          pxy = configure fl (NewProxy pol sec (fl_proxyAddr fl))
      in case Start listen pxy of
           (Some e, _) \<Rightarrow> (Inl (''Failed to start proxy: '' @ e), w3)
         | (None, pxy1) \<Rightarrow> (Inr (pxy1, certManager), w3)))))"

section \<open>The loopback server\<close>

datatype sidecar_body =
    SBText string
  | SBPairs "(string \<times> string) list"
  | SBRules "Rule list"
  | SBCount nat

record sidecar_reply =
  sr_Status :: int
  sr_Body :: sidecar_body

definition health :: "string \<Rightarrow> sidecar_reply" where
  "health sandboxName =
     \<lparr>sr_Status = 200, sr_Body = SBPairs [(''status'', ''healthy''), (''sandbox'', sandboxName)]\<rparr>"

definition ready :: "Proxy \<Rightarrow> sidecar_reply" where
  "ready p =
     \<lparr>sr_Status = 200, sr_Body = SBPairs [(''status'', ''ready''),
        (''proxy_addr'', case Addr p of Some a \<Rightarrow> a | None \<Rightarrow> ''unknown'')]\<rparr>"

definition metrics_text :: "MetricsSnapshot \<Rightarrow> string" where
  "metrics_text m =
     (let q = [CHR 0x22]; conn = (\<lambda>proto n. ''proxy_connections_total{protocol='' @ q @ proto @ q @ ''} '' @ itoa n @ newline)
      in ''# HELP proxy_connections_total Total connections by protocol'' @ newline @
         ''# TYPE proxy_connections_total counter'' @ newline @
         conn ''http'' (m_HTTPTotal m) @ conn ''connect'' (m_CONNECTTotal m) @
         conn ''socks5'' (m_SOCKS5Total m) @ conn ''rawtcp'' (m_RawTCPTotal m) @
         ''# HELP proxy_connections_denied_total Total connections denied by policy'' @ newline @
         ''# TYPE proxy_connections_denied_total counter'' @ newline @
         ''proxy_connections_denied_total '' @ itoa (m_DeniedTotal m) @ newline @
         ''# HELP proxy_active_connections Current number of active connections'' @ newline @
         ''# TYPE proxy_active_connections gauge'' @ newline @
         ''proxy_active_connections '' @ itoa (m_ActiveConns m) @ newline)"

definition metrics :: "Proxy \<Rightarrow> sidecar_reply" where
  "metrics p = \<lparr>sr_Status = 200, sr_Body = SBText (metrics_text (Metrics p))\<rparr>"

definition reply_error :: "string \<Rightarrow> int \<Rightarrow> sidecar_reply" where
  "reply_error msg code = \<lparr>sr_Status = code, sr_Body = SBText (msg @ newline)\<rparr>"

definition policy_reload ::
  "'w os \<Rightarrow> rules_json \<Rightarrow> string \<Rightarrow> goerror + Rule list \<Rightarrow> Proxy \<Rightarrow> 'w \<Rightarrow> sidecar_reply \<times> Proxy \<times> 'w" where
  "policy_reload osx jm meth body p w =
     (if meth \<noteq> ''POST'' then (reply_error ''method not allowed'' 405, p, w)
      else (case body of
              Inl e \<Rightarrow> (reply_error (''invalid JSON: '' @ e) 400, p, w)
            | Inr rules \<Rightarrow>
                (case (if length rules > 0 then LoadRules osx jm rules (px_policy p) w else (px_policy p, w)) of
                   (pol, w1) \<Rightarrow>
                     (\<lparr>sr_Status = 200, sr_Body = SBRules (ListRules pol)\<rparr>, p\<lparr>px_policy := pol\<rparr>, w1))))"

definition secrets_reload :: "string \<Rightarrow> goerror + CustomSecret list \<Rightarrow> Proxy \<Rightarrow> sidecar_reply \<times> Proxy" where
  "secrets_reload meth body p =
     (if meth \<noteq> ''POST'' then (reply_error ''method not allowed'' 405, p)
      else (case body of
              Inl e \<Rightarrow> (reply_error (''invalid JSON: '' @ e) 400, p)
            | Inr secs \<Rightarrow>
                (\<lparr>sr_Status = 200, sr_Body = SBCount (length secs)\<rparr>,
                 p\<lparr>px_secrets := SetSecrets secs (px_secrets p)\<rparr>)))"

section \<open>Signals\<close>

datatype signal = SIGINT | SIGTERM | SIGHUP

text \<open>One turn of the signal loop: whether the program goes on, the proxy and the world.\<close>

fun on_signal ::
  "'w os \<Rightarrow> rules_json \<Rightarrow> goerror option \<Rightarrow> flags \<Rightarrow> signal \<Rightarrow> Proxy \<Rightarrow> 'w \<Rightarrow> bool \<times> Proxy \<times> 'w" where
  "on_signal osx jm close_err fl SIGHUP p w =
     (case NewEngine osx jm (policy_dir osx fl) w of (_, w1) \<Rightarrow> (True, p, w1))"
| "on_signal osx jm close_err fl SIGINT p w = (False, snd (Stop close_err p), w)"
| "on_signal osx jm close_err fl SIGTERM p w = (False, snd (Stop close_err p), w)"

section \<open>Lemmas\<close>

lemma policy_reload_rules:
  "rules \<noteq> [] \<Longrightarrow>
     e_rules (px_policy (fst (snd (policy_reload osx jm ''POST'' (Inr rules) p w)))) = rules \<and>
     e_defaultMode (px_policy (fst (snd (policy_reload osx jm ''POST'' (Inr rules) p w)))) = e_defaultMode (px_policy p)"
  by (simp add: policy_reload_def LoadRules_def Let_def)

lemma policy_reload_empty: "policy_reload osx jm ''POST'' (Inr []) p w =
    (\<lparr>sr_Status = 200, sr_Body = SBRules (e_rules (px_policy p))\<rparr>, p, w)"
  by (simp add: policy_reload_def ListRules_def)

text \<open>The decision only depends on the rules and the default mode.\<close>

lemma Evaluate_rules_mode:
  "e_rules a = e_rules b \<Longrightarrow> e_defaultMode a = e_defaultMode b \<Longrightarrow> Evaluate uf a host port sb = Evaluate uf b host port sb"
  by (simp add: Evaluate_def)

lemma NewEngine_rules:
  "NewEngine osx jm dir w = (Inr pe, w') \<Longrightarrow> e_rules pe = defaultRules \<and> e_defaultMode pe = ''balanced''"
  by (auto simp: NewEngine_def newEngine_at_def Let_def split: if_splits sum.splits prod.splits option.splits)

lemma configure_policy [simp]: "px_policy (configure fl p) = px_policy p"
  by (simp add: configure_def SetRawTCPEnabled_def SetSOCKS5Enabled_def SetSandboxName_def SetMaxConnections_def
      SetRawTCPIdleTimeout_def Let_def)

lemma Start_policy: "Start listen p = (None, p') \<Longrightarrow> px_policy p' = px_policy p"
  by (auto simp: Start_def split: if_splits sum.splits)

lemma sidecar_start_policy:
  assumes "sidecar_start x osx jm dec_rules dec_secrets listen fl w = (Inr (p, m), w')"
  obtains pol0 w1 w2 where "NewEngine osx jm (policy_dir osx fl) w1 = (Inr pol0, w2)"
    "px_policy p = fst (initial_rules osx jm dec_rules pol0 w2)"
  using assms by (auto simp: sidecar_start_def NewProxy_def Let_def split: prod.splits sum.splits option.splits dest!: Start_policy)

section \<open>Properties\<close>

text \<open>C4: A sidecar that starts without rules in its environment, or with rules it cannot decode,
  lets nothing out until rules are loaded: on any input, in any network, the proxy dials nothing
  and sends no request.\<close>

theorem sidecar_starts_closed:
  assumes "sidecar_start x osx jm dec_rules dec_secrets listen fl w = (Inr (p, m), w')"
    and "Getenv osx ''PROXY_RULES_JSON'' = [] \<or> isl (dec_rules (Getenv osx ''PROXY_RULES_JSON''))"
    and "e \<in> set (fst (dispatch uf env inp p))"
  shows "outbound e = None"
proof -
  obtain pol0 w1 w2 where n: "NewEngine osx jm (policy_dir osx fl) w1 = (Inr pol0, w2)"
    "px_policy p = fst (initial_rules osx jm dec_rules pol0 w2)"
    using sidecar_start_policy[OF assms(1)] by blast
  have "px_policy p = pol0"
    using n(2) assms(2) by (auto simp: initial_rules_def Let_def split: if_splits sum.splits)
  then have "fst (Evaluate uf (px_policy p) host port sb) = DecisionDeny" for host port sb
    using NewEngine_rules[OF n(1)] defaultRules_deny by simp
  then show ?thesis
    using dispatcher.nothing_permitted_nothing_out[of "(uf, env, p, inp)" e] assms(3) by (simp add: permitted_def)
qed

definition small_start :: "(goerror + Proxy \<times> (string, string, string \<times> string) CACertManager) \<times> (string \<Rightarrow> string option)" where
  "small_start = sidecar_start clear_x509 mem_os (\<lambda>_. Inr []) (\<lambda>_. Inl ''bad'') (\<lambda>_. Inl ''bad'') (\<lambda>a. Inr a)
     \<lparr>fl_proxyAddr = [], fl_caDir = ''/ca'', fl_policyDir = ''/p'', fl_secretsFile = [], fl_sandbox = ''box'',
      fl_maxConns = 0, fl_rawTCPIdleTimeout = 0\<rparr> Map.empty"

theorem sidecar_starts_closed_witness:
  "\<exists>p m w'. small_start = (Inr (p, m), w') \<and>
     list_all (\<lambda>e. outbound e = None) (fst (dispatch (\<lambda>_ _. False) redirect_net ''x'' p))"
proof -
  have "ca_dir mem_os \<lparr>fl_proxyAddr = [], fl_caDir = ''/ca'', fl_policyDir = ''/p'', fl_secretsFile = [], fl_sandbox = ''box'',
      fl_maxConns = 0, fl_rawTCPIdleTimeout = 0\<rparr> = ''/ca''" by (simp add: ca_dir_def)
  moreover obtain m w1 where "NewCACertManager clear_x509 mem_os ''/ca'' Map.empty = (Inr m, w1)"
    using clear_start[of 4096] unfolding NewCACertManager_def by blast
  ultimately obtain p w' where r: "small_start = (Inr (p, m), w')"
    by (simp add: small_start_def sidecar_start_def policy_dir_def NewEngine_def newEngine_at_def initial_rules_def
        Start_def configure_def NewProxy_def SetRawTCPEnabled_def SetSOCKS5Enabled_def SetSandboxName_def mem_os_def Let_def)
  have g: "Getenv mem_os ''PROXY_RULES_JSON'' = []" by (simp add: mem_os_def)
  have "outbound e = None" if "e \<in> set (fst (dispatch (\<lambda>_ _. False) redirect_net ''x'' p))" for e
    using sidecar_starts_closed[OF r[unfolded small_start_def] disjI1[OF g] that] .
  then show ?thesis using r by (auto simp: list_all_iff)
qed

text \<open>SIGHUP reloads nothing: the proxy and with it the policy in force stay as they are, but the
  file of saved rules is overwritten with the two default rules.\<close>

theorem sighup_overwrites_rules:
  assumes "fl_policyDir fl \<noteq> []" "jm defaultRules = Inr data"
    and "MkdirAll osx (fl_policyDir fl) mode_0700 w = (None, w1)"
  shows "on_signal osx jm ce fl SIGHUP p w =
    (True, p, snd (WriteFile osx (Join [fl_policyDir fl, ''rules.json'']) data mode_0644 w1))"
  using assms by (simp add: policy_dir_def NewEngine_def newEngine_at_def save_def Let_def)

definition small_flags :: flags where
  "small_flags =
     \<lparr>fl_proxyAddr = [], fl_caDir = ''/ca'', fl_policyDir = ''/p'', fl_secretsFile = [], fl_sandbox = ''box'',
      fl_maxConns = 0, fl_rawTCPIdleTimeout = 0\<rparr>"

theorem sighup_overwrites_rules_witness:
  "on_signal mem_os (\<lambda>_. Inr ''DEFAULTS'') None small_flags SIGHUP p [''/p/rules.json'' \<mapsto> ''SAVED''] =
     (True, p, [''/p/rules.json'' \<mapsto> ''DEFAULTS''])"
proof -
  have j: "Join [''/p'', ''rules.json''] = ''/p/rules.json''" by code_simp
  have f: "fl_policyDir small_flags = ''/p''" by (simp add: small_flags_def)
  have "MkdirAll mem_os (fl_policyDir small_flags) mode_0700 [''/p/rules.json'' \<mapsto> ''SAVED''] =
      (None, [''/p/rules.json'' \<mapsto> ''SAVED''])" by (simp add: mem_os_def)
  from sighup_overwrites_rules[of small_flags "\<lambda>_. Inr ''DEFAULTS''" "''DEFAULTS''", OF _ _ this] show ?thesis
    using f j by (simp add: mem_os_def)
qed

end
