(* ===== verification/HostTools.thy ===== *)
theory HostTools
  imports GoOS
begin

text \<open>
  src/internal/docker/docker.go and src/internal/cmdutil/exec.go: finding the Docker socket and
  running a command. A command run is the parameter \<open>cmd_runner\<close>: from the deadline, the program
  and its arguments it gives standard output, standard error and the error of \<^verbatim>\<open>cmd.Run\<close>.
\<close>

section \<open>The Docker socket\<close>

definition DefaultSocketPath :: string where
  "DefaultSocketPath = ''/tmp/sboxd-501-sandboxes/docker.sock''"

definition perUserSocket :: "'w os \<Rightarrow> string" where
  "perUserSocket osx =
     (let suffix = ''/sandboxes/sandboxes/sandboxd/docker.sock''; base = Getenv osx ''XDG_STATE_HOME'' in
      if base = [] then
        (case UserHomeDir osx of
           Inl _ \<Rightarrow> []
         | Inr home \<Rightarrow> home @ ''/.local/state'' @ suffix)
      else base @ suffix)"

definition socket_candidates :: "'w os \<Rightarrow> string list" where
  "socket_candidates osx =
     [DefaultSocketPath, ''/tmp/sboxd-sandboxes/docker.sock''] @
     (if perUserSocket osx \<noteq> [] then [perUserSocket osx] else []) @
     [''/tmp/sboxd-'' @ itoa (Getuid osx) @ ''-sandboxes/docker.sock'']"

definition DetectSocket :: "'w os \<Rightarrow> 'w \<Rightarrow> string" where
  "DetectSocket osx w =
     (case find (\<lambda>p. Stat_is_socket osx p w) (socket_candidates osx) of
        Some p \<Rightarrow> p
      | None \<Rightarrow> DefaultSocketPath)"

section \<open>Trimming\<close>

text \<open>\<^verbatim>\<open>strings.TrimSpace\<close>: white space is the newline and the blanks of \<open>GoFmt\<close>.\<close>

definition spaces :: "string list" where
  "spaces = [CHR 0x0A] # blanks"

lemma find_space_not_Nil: "find P spaces = Some b \<Longrightarrow> b \<noteq> []"
  by (auto simp: spaces_def blanks_def split: if_splits)

function TrimLeft :: "string \<Rightarrow> string" where
  "TrimLeft s =
     (case find (\<lambda>b. prefix b s) spaces of
        None \<Rightarrow> s
      | Some b \<Rightarrow> TrimLeft (drop (length b) s))"
  by pat_completeness auto
termination
proof (relation "measure length", goal_cases)
  case 1
  then show ?case by simp
next
  case (2 s b)
  from find_space_not_Nil[OF 2] have "b \<noteq> []" .
  moreover have "prefix b s" using 2 by (auto simp: find_Some_iff)
  ultimately have "0 < length b" "length b \<le> length s" by (auto dest: prefix_length_le)
  then have "length s - length b < length s" by linarith
  then show ?case by simp
qed

function TrimRight :: "string \<Rightarrow> string" where
  "TrimRight s =
     (case find (\<lambda>b. suffix b s) spaces of
        None \<Rightarrow> s
      | Some b \<Rightarrow> TrimRight (take (length s - length b) s))"
  by pat_completeness auto
termination
proof (relation "measure length", goal_cases)
  case 1
  then show ?case by simp
next
  case (2 s b)
  from find_space_not_Nil[OF 2] have "b \<noteq> []" .
  moreover have "suffix b s" using 2 by (auto simp: find_Some_iff)
  ultimately have "0 < length b" "length b \<le> length s" by (auto dest: suffix_length_le)
  then have "length s - length b < length s" by linarith
  then show ?case by simp
qed

declare TrimLeft.simps [simp del] TrimRight.simps [simp del]

definition TrimSpace :: "string \<Rightarrow> string" where
  "TrimSpace s = TrimRight (TrimLeft s)"

section \<open>Running a command\<close>

datatype cmd_error = PlainError goerror | CmdError goerror string

fun CmdError_Error :: "cmd_error \<Rightarrow> string" where
  "CmdError_Error (PlainError err) = err"
| "CmdError_Error (CmdError err stderr) = (if stderr \<noteq> [] then err @ '': '' @ stderr else err)"

fun CmdError_Unwrap :: "cmd_error \<Rightarrow> goerror" where
  "CmdError_Unwrap (PlainError err) = err"
| "CmdError_Unwrap (CmdError err _) = err"

type_synonym 'w cmd_runner = "int \<Rightarrow> string \<Rightarrow> string list \<Rightarrow> 'w \<Rightarrow> (string \<times> string \<times> goerror option) \<times> 'w"

text \<open>Seconds from now until the deadline of the context, when it has one.\<close>

definition cmd_deadline :: "int option \<Rightarrow> int" where
  "cmd_deadline deadline = (case deadline of None \<Rightarrow> 120 | Some d \<Rightarrow> d)"

definition RunCmd ::
  "'w cmd_runner \<Rightarrow> int option \<Rightarrow> string \<Rightarrow> string list \<Rightarrow> 'w \<Rightarrow> (string \<times> cmd_error option) \<times> 'w" where
  "RunCmd run deadline name args w =
     (case run (cmd_deadline deadline) name args w of
        ((stdout, stderr, None), w1) \<Rightarrow> ((stdout, None), w1)
      | ((stdout, stderr, Some err), w1) \<Rightarrow>
          (if length stderr > 0 then ((stdout, Some (CmdError err (TrimSpace stderr))), w1)
           else ((stdout, Some (PlainError err)), w1)))"

section \<open>Lemmas\<close>

lemma RunCmd_error_iff:
  "snd (fst (RunCmd run d name args w)) = None \<longleftrightarrow> snd (snd (fst (run (cmd_deadline d) name args w))) = None"
  by (auto simp: RunCmd_def split: prod.splits option.splits)

section \<open>Properties\<close>

text \<open>The detected socket is the first of the candidates that is a socket: it is a socket itself
  and no candidate before it is one; when none is, the default path is returned.\<close>

theorem DetectSocket_first:
  "(\<exists>pre post. socket_candidates osx = pre @ DetectSocket osx w # post \<and> Stat_is_socket osx (DetectSocket osx w) w \<and>
      list_all (\<lambda>p. \<not> Stat_is_socket osx p w) pre) \<or>
   (list_all (\<lambda>p. \<not> Stat_is_socket osx p w) (socket_candidates osx) \<and> DetectSocket osx w = DefaultSocketPath)"
proof (cases "find (\<lambda>p. Stat_is_socket osx p w) (socket_candidates osx)")
  case None
  then have "DetectSocket osx w = DefaultSocketPath" by (simp add: DetectSocket_def)
  moreover have "list_all (\<lambda>p. \<not> Stat_is_socket osx p w) (socket_candidates osx)"
    using None by (simp add: find_None_iff list_all_iff)
  ultimately show ?thesis by blast
next
  case (Some p)
  then obtain i where i: "i < length (socket_candidates osx)" "Stat_is_socket osx p w" "p = socket_candidates osx ! i"
    "\<forall>j < i. \<not> Stat_is_socket osx (socket_candidates osx ! j) w"
    by (auto simp: find_Some_iff)
  have "socket_candidates osx = take i (socket_candidates osx) @ p # drop (Suc i) (socket_candidates osx)"
    using i by (simp add: id_take_nth_drop)
  moreover have "list_all (\<lambda>p. \<not> Stat_is_socket osx p w) (take i (socket_candidates osx))"
    using i by (auto simp: list_all_length)
  ultimately show ?thesis using i(2) Some by (auto simp: DetectSocket_def)
qed

text \<open>Running a command reports an error exactly when the run failed, the error unwraps to the
  error of the run, and its text contains the trimmed standard error whenever something was
  written there; a context without a deadline gets one of 120 seconds.\<close>

theorem RunCmd_reports:
  assumes "run (cmd_deadline d) name args w = ((out, err, res), w')"
  shows "case RunCmd run d name args w of ((out', e), w'') \<Rightarrow>
    out' = out \<and> w'' = w' \<and> map_option CmdError_Unwrap e = res \<and>
    (\<forall>x. e = Some x \<and> TrimSpace err \<noteq> [] \<and> err \<noteq> [] \<longrightarrow> suffix ('': '' @ TrimSpace err) (CmdError_Error x)) \<and>
    (d = None \<longrightarrow> cmd_deadline d = 120)"
  using assms by (auto simp: RunCmd_def cmd_deadline_def suffix_def split: option.splits if_splits)

theorem RunCmd_reports_witness:
  "CmdError_Error (the (snd (fst (RunCmd (\<lambda>_ _ _ w. (([], ''no such container'', Some ''exit status 1''), w)) None
     ''docker'' [''exec''] ())))) = ''exit status 1: no such container''"
proof -
  let ?run = "\<lambda>_ _ _ w. (([], ''no such container'', Some ''exit status 1''), w)"
  have t: "TrimSpace ''no such container'' = ''no such container''" by code_simp
  have "?run (cmd_deadline None) ''docker'' [''exec''] () = (([], ''no such container'', Some ''exit status 1''), ())"
    by simp
  from RunCmd_reports[of ?run None "''docker''" "[''exec'']" "()", OF this] show ?thesis
    using t by (auto simp: RunCmd_def split: prod.splits)
qed

end
