(* ===== verification/Daemon.thy ===== *)
theory Daemon
  imports Container CA Policy HostTools "HOL-Library.AList"
begin

text \<open>
  src/internal/daemon/daemon.go: the daemon and its HTTP API. Every handler is a definition from
  the daemon and the host to the reply, the new daemon and the new host. The host is the list of
  commands run so far, the list of requests sent to the Docker Engine so far, and the world of
  the operating system. The services outside the program are the record \<open>services\<close>: operating
  system, Docker Engine, command runner, clock, and \<^verbatim>\<open>encoding/json\<close> on the types that are stored
  or sent. A request body arrives decoded: \<open>Inl\<close> is the decoder's error.

  A handler reads the clock once. The map of sandboxes is an association list with distinct keys; its order stands for the order
  in which Go happens to iterate over the map. Handlers run one at a time here; for
  creation, which takes the daemon's lock twice, the interleavings of any number of concurrent
  requests are a step relation (\<open>create_step\<close>), in which taking and releasing the lock are steps.
\<close>

section \<open>Data\<close>

record SandboxState =
  ss_ID :: string
  ss_Name :: string
  ss_AgentName :: string
  ss_Image :: string
  ss_Workspace :: string
  ss_ContainerID :: string
  ss_Running :: bool
  ss_ProxyAddr :: string
  ss_CreatedAt :: int
  ss_Labels :: "(string \<times> string) list"
  ss_Secrets :: "CustomSecret list"

type_synonym Sandboxes = "(string \<times> SandboxState) list"

record ('c, 'k, 't) ContainerConfig =
  cc_Name :: string
  cc_Image :: string
  cc_Workspace :: string
  cc_ProxyPort :: string
  cc_ProxySidecarImage :: string
  cc_ProxySidecarBin :: string
  cc_CA :: "('c, 'k, 't) CACertManager option"
  cc_Secrets :: "SecretManager option"
  cc_Policy :: "Engine option"
  cc_Timezone :: string
  cc_Labels :: "(string \<times> string) list"

record ('c, 'k, 't) DaemonConfig =
  dc_SocketPath :: string
  dc_PolicyDir :: string
  dc_CACertDir :: string
  dc_DockerSocket :: string
  dc_StateDir :: string
  dc_DefaultImage :: string
  dc_ProxySidecarImage :: string
  dc_ProxySidecarBin :: string
  dc_CA :: "('c, 'k, 't) CACertManager option"

record ('c, 'k, 't) Daemon =
  dn_sandboxes :: Sandboxes
  dn_cfg :: "('c, 'k, 't) DaemonConfig"
  dn_policy :: Engine
  dn_secrets :: SecretManager
  dn_ca :: "('c, 'k, 't) CACertManager"
  dn_cm :: Manager
  dn_socketPath :: string
  dn_httpServer :: bool
  dn_stateDir :: string

record 'w services =
  sv_os :: "'w os"
  sv_docker :: "'w docker"
  sv_run :: "'w cmd_runner"
  sv_nano :: "'w \<Rightarrow> int"
  sv_listen :: "string \<Rightarrow> 'w \<Rightarrow> goerror option \<times> 'w"
  sv_rules_indent :: rules_json
  sv_rules_json :: rules_json
  sv_secrets_json :: "CustomSecret list \<Rightarrow> goerror + string"
  sv_states_json :: "Sandboxes \<Rightarrow> goerror + string"
  sv_states_of_json :: "string \<Rightarrow> goerror + Sandboxes"

type_synonym 'w host = "string list list \<times> 'w dworld"

text \<open>The values handed to \<^verbatim>\<open>writeJSON\<close>, and a reply.\<close>

datatype jvalue =
    VStr string
  | VInt int
  | VBool bool
  | VStrs "string list"
  | VState SandboxState
  | VRules "Rule list"
  | VMap "(string \<times> jvalue) list"
  | VList "jvalue list"
  | VRaw string

record Reply =
  rp_Status :: int
  rp_ContentType :: string
  rp_Body :: "jvalue option"

definition writeJSON :: "int \<Rightarrow> jvalue \<Rightarrow> Reply" where
  "writeJSON status v = \<lparr>rp_Status = status, rp_ContentType = ''application/json'', rp_Body = Some v\<rparr>"

definition writeError :: "int \<Rightarrow> string \<Rightarrow> Reply" where
  "writeError status msg = writeJSON status (VMap [(''error'', VStr msg)])"

definition writeStatus :: "int \<Rightarrow> Reply" where
  "writeStatus status = \<lparr>rp_Status = status, rp_ContentType = [], rp_Body = None\<rparr>"

section \<open>Access to the host\<close>

definition with_docker :: "('w dworld \<Rightarrow> 'r \<times> 'w dworld) \<Rightarrow> 'w host \<Rightarrow> 'r \<times> 'w host" where
  "with_docker f h = (case f (snd h) of (r, tw) \<Rightarrow> (r, (fst h, tw)))"

definition world :: "'w host \<Rightarrow> 'w" where
  "world h = snd (snd h)"

definition set_world :: "'w \<Rightarrow> 'w host \<Rightarrow> 'w host" where
  "set_world w h = (fst h, fst (snd h), w)"

definition policy_add ::
  "'w services \<Rightarrow> string \<Rightarrow> string \<Rightarrow> string list \<Rightarrow> string \<Rightarrow> ('c, 'k, 't) Daemon \<Rightarrow> 'w host \<Rightarrow>
     (goerror + Rule) \<times> ('c, 'k, 't) Daemon \<times> 'w host" where
  "policy_add sv name decision resources scope d h =
     (case AddRule (sv_os sv) (sv_rules_indent sv) name decision resources scope (dn_policy d) (world h) of
        (r, pe, w) \<Rightarrow> (r, d\<lparr>dn_policy := pe\<rparr>, set_world w h))"

definition policy_remove ::
  "'w services \<Rightarrow> string \<Rightarrow> ('c, 'k, 't) Daemon \<times> 'w host \<Rightarrow> bool \<times> ('c, 'k, 't) Daemon \<times> 'w host" where
  "policy_remove sv i s =
     (case s of (d, h) \<Rightarrow>
        (case RemoveRule (sv_os sv) (sv_rules_indent sv) i (dn_policy d) (world h) of
           (ok, pe, w) \<Rightarrow> (ok, d\<lparr>dn_policy := pe\<rparr>, set_world w h)))"

section \<open>State persistence\<close>

definition saveState :: "'w services \<Rightarrow> ('c, 'k, 't) Daemon \<Rightarrow> 'w host \<Rightarrow> 'w host" where
  "saveState sv d h =
     (case sv_states_json sv (dn_sandboxes d) of
        Inl _ \<Rightarrow> h
      | Inr data \<Rightarrow>
          set_world (snd (WriteFile (sv_os sv) (Join [dn_stateDir d, ''sandboxes.json'']) data mode_0644 (world h))) h)"

definition loadState :: "'w services \<Rightarrow> ('c, 'k, 't) Daemon \<Rightarrow> 'w \<Rightarrow> ('c, 'k, 't) Daemon" where
  "loadState sv d w =
     (case ReadFile (sv_os sv) (Join [dn_stateDir d, ''sandboxes.json'']) w of
        Inl _ \<Rightarrow> d
      | Inr data \<Rightarrow>
          (case sv_states_of_json sv data of
             Inl _ \<Rightarrow> d
           | Inr sandboxes \<Rightarrow> d\<lparr>dn_sandboxes := sandboxes\<rparr>))"

section \<open>Start and stop\<close>

definition detectDockerSocket :: "'w os \<Rightarrow> string \<Rightarrow> 'w \<Rightarrow> string" where
  "detectDockerSocket osx cfgSocket w = (if cfgSocket \<noteq> [] then cfgSocket else DetectSocket osx w)"

definition default_dirs :: "'w os \<Rightarrow> ('c, 'k, 't) DaemonConfig \<Rightarrow> ('c, 'k, 't) DaemonConfig" where
  "default_dirs osx cfg =
     (let home = (case UserHomeDir osx of Inl _ \<Rightarrow> [] | Inr h \<Rightarrow> h) in
      cfg\<lparr>dc_StateDir := (if dc_StateDir cfg = [] then Join [home, ''.local'', ''state'', ''sbxsandbox''] else dc_StateDir cfg),
          dc_PolicyDir := (if dc_PolicyDir cfg = [] then Join [home, ''.config'', ''sbxsandbox'', ''policy''] else dc_PolicyDir cfg),
          dc_CACertDir := (if dc_CACertDir cfg = [] then Join [home, ''.config'', ''sbxsandbox'', ''ca''] else dc_CACertDir cfg)\<rparr>)"

definition init_ca ::
  "('c, 'k, 't, 'w) x509lib \<Rightarrow> 'w os \<Rightarrow> ('c, 'k, 't) DaemonConfig \<Rightarrow> 'w \<Rightarrow> (goerror + ('c, 'k, 't) CACertManager) \<times> 'w" where
  "init_ca x osx cfg w =
     (case dc_CA cfg of
        Some m \<Rightarrow> (Inr m, w)
      | None \<Rightarrow>
          (case NewCACertManager x osx (dc_CACertDir cfg) w of
             (Inl e, w1) \<Rightarrow> (Inl (''init CA: '' @ e), w1)
           | (Inr m, w1) \<Rightarrow> (Inr m, w1)))"

definition NewDaemon ::
  "('c, 'k, 't, 'w) x509lib \<Rightarrow> 'w services \<Rightarrow> ('c, 'k, 't) DaemonConfig \<Rightarrow> 'w \<Rightarrow>
     (goerror + ('c, 'k, 't) Daemon) \<times> 'w" where
  "NewDaemon x sv cfg0 w =
     (let osx = sv_os sv; cfg = default_dirs osx cfg0 in
      case MkdirAll osx (dc_StateDir cfg) mode_0700 w of
        (Some e, w1) \<Rightarrow> (Inl (''create state dir: '' @ e), w1)
      | (None, w1) \<Rightarrow>
     (case init_ca x osx cfg w1 of
        (Inl e, w2) \<Rightarrow> (Inl e, w2)
      | (Inr caMgr, w2) \<Rightarrow>
     (case NewEngine osx (sv_rules_indent sv) (dc_PolicyDir cfg) w2 of
        (Inl e, w3) \<Rightarrow> (Inl (''init policy: '' @ e), w3)
      | (Inr pol, w3) \<Rightarrow>
          (Inr (loadState sv
             \<lparr>dn_sandboxes = [], dn_cfg = cfg, dn_policy = pol, dn_secrets = NewSecretManager, dn_ca = caMgr,
              dn_cm = NewManager (detectDockerSocket osx (dc_DockerSocket cfg) w3) [],
              dn_socketPath = dc_SocketPath cfg, dn_httpServer = False, dn_stateDir = dc_StateDir cfg\<rparr> w3), w3))))"

definition Daemon_Start ::
  "'w services \<Rightarrow> ('c, 'k, 't) Daemon \<Rightarrow> 'w host \<Rightarrow> goerror option \<times> ('c, 'k, 't) Daemon \<times> 'w host" where
  "Daemon_Start sv d h =
     (let osx = sv_os sv;
          home = (case UserHomeDir osx of Inl _ \<Rightarrow> [] | Inr x \<Rightarrow> x);
          sock = (if dn_socketPath d = [] then Join [home, ''.config'', ''sbxsandbox'', ''sbxsandbox.sock'']
                  else dn_socketPath d);
          d1 = d\<lparr>dn_socketPath := sock\<rparr>
      in case MkdirAll osx (Dir sock) mode_0700 (world h) of
           (Some e, w1) \<Rightarrow> (Some (''create socket dir: '' @ e), d1, set_world w1 h)
         | (None, w1) \<Rightarrow>
             (case sv_listen sv sock (snd (Remove osx sock w1)) of
                (Some e, w2) \<Rightarrow> (Some (''listen on '' @ sock @ '': '' @ e), d1, set_world w2 h)
              | (None, w2) \<Rightarrow>
                  (None, d1\<lparr>dn_httpServer := True\<rparr>, set_world (snd (Chmod osx sock mode_0660 w2)) h)))"

definition Daemon_Stop :: "'w services \<Rightarrow> ('c, 'k, 't) Daemon \<Rightarrow> 'w host \<Rightarrow> goerror option \<times> 'w host" where
  "Daemon_Stop sv d h =
     (let h1 = saveState sv d h in
      (None, if dn_socketPath d \<noteq> [] then set_world (snd (Remove (sv_os sv) (dn_socketPath d) (world h1))) h1
             else h1))"

section \<open>Propagation to the sidecars\<close>

definition execInContainer ::
  "'w services \<Rightarrow> Manager \<Rightarrow> string \<Rightarrow> string list \<Rightarrow> 'w host \<Rightarrow> (cmd_error + string) \<times> 'w host" where
  "execInContainer sv cm containerID cmd h =
     (let dockerArgs = [''--host'', ''unix://'' @ DockerSocketPath cm, ''exec'', containerID] @ cmd in
      case RunCmd (sv_run sv) None ''docker'' dockerArgs (world h) of
        ((out, Some e), w) \<Rightarrow> (Inl e, (fst h @ [''docker'' # dockerArgs], fst (snd h), w))
      | ((out, None), w) \<Rightarrow> (Inr out, (fst h @ [''docker'' # dockerArgs], fst (snd h), w)))"

definition curl_cmd :: "string \<Rightarrow> string \<Rightarrow> string list" where
  "curl_cmd payloadB64 endpoint =
     [''sh'', ''-c'',
      ''printf '' @ sq @ ''%s'' @ sq @ '' '' @ payloadB64 @ '' | base64 -d | curl -s -X POST http://localhost:9099'' @
      endpoint @ '' -H '' @ sq @ ''Content-Type: application/json'' @ sq @ '' -d @-'']"

definition sidecar_name :: "string \<Rightarrow> string" where
  "sidecar_name name = ''sbx-'' @ name @ ''-proxy''"

definition propagate_one ::
  "'w services \<Rightarrow> Manager \<Rightarrow> string \<Rightarrow> string \<Rightarrow> 'w host \<Rightarrow> string \<Rightarrow> 'w host" where
  "propagate_one sv cm payloadB64 endpoint h name =
     (case with_docker (ListContainers (sv_docker sv)) h of
        (Inl _, h1) \<Rightarrow> h1
      | (Inr containers, h1) \<Rightarrow>
          (let (proxyCID, proxyRunning) =
             (case find (\<lambda>c. c_Name c = sidecar_name name) containers of
                Some c \<Rightarrow> (c_ID c, c_Running c) | None \<Rightarrow> ([], False))
           in if proxyCID = [] \<or> \<not> proxyRunning then h1
              else snd (execInContainer sv cm proxyCID (curl_cmd payloadB64 endpoint) h1)))"

definition propagateToSidecars ::
  "'w services \<Rightarrow> ('c, 'k, 't) Daemon \<Rightarrow> string \<Rightarrow> string \<Rightarrow> 'w host \<Rightarrow> 'w host" where
  "propagateToSidecars sv d payloadJSON endpoint h =
     (let names = map fst (filter (\<lambda>(n, st). ss_Running st) (dn_sandboxes d)) in
      if names = [] then h
      else foldl (propagate_one sv (dn_cm d) (b64_encode payloadJSON) endpoint) h names)"

definition rules_payload :: "string \<Rightarrow> string" where
  "rules_payload rulesJSON = ''{'' @ dq @ ''rules'' @ dq @ '':'' @ rulesJSON @ ''}''"

definition secrets_payload :: "string \<Rightarrow> string" where
  "secrets_payload secretsJSON = ''{'' @ dq @ ''secrets'' @ dq @ '':'' @ secretsJSON @ ''}''"

definition propagatePolicyToSidecars :: "'w services \<Rightarrow> ('c, 'k, 't) Daemon \<Rightarrow> 'w host \<Rightarrow> 'w host" where
  "propagatePolicyToSidecars sv d h =
     (case sv_rules_json sv (ListRules (dn_policy d)) of
        Inl _ \<Rightarrow> h
      | Inr rulesJSON \<Rightarrow> propagateToSidecars sv d (rules_payload rulesJSON) ''/policy/reload'' h)"

definition propagateSecretsToSidecars :: "'w services \<Rightarrow> ('c, 'k, 't) Daemon \<Rightarrow> 'w host \<Rightarrow> 'w host" where
  "propagateSecretsToSidecars sv d h =
     (case sv_secrets_json sv (GetSecrets (dn_secrets d)) of
        Inl _ \<Rightarrow> h
      | Inr secretsJSON \<Rightarrow> propagateToSidecars sv d (secrets_payload secretsJSON) ''/secrets/reload'' h)"

section \<open>Creating a sandbox container\<close>

definition secret_env :: "SecretManager option \<Rightarrow> string list" where
  "secret_env sm =
     (case sm of
        None \<Rightarrow> []
      | Some m \<Rightarrow>
          map (\<lambda>s. s_EnvName s @ ''='' @ s_Sentinel s)
            (filter (\<lambda>s. s_EnvName s \<noteq> [] \<and> s_Sentinel s \<noteq> []) (GetSecrets m)))"

definition sandbox_env :: "('c, 'k, 't) ContainerConfig \<Rightarrow> string list" where
  "sandbox_env cfg =
     (let proxyPort = (if cc_ProxyPort cfg = [] then ''3128'' else cc_ProxyPort cfg);
          proxyAddr = cc_Name cfg @ ''-proxy'' @ '':'' @ proxyPort
      in [''WORKSPACE_DIR='' @ cc_Workspace cfg, ''no_proxy=localhost,127.0.0.1,::1'',
          ''NO_PROXY=localhost,127.0.0.1,::1'', ''http_proxy=http://'' @ proxyAddr, ''HTTP_PROXY=http://'' @ proxyAddr,
          ''https_proxy=http://'' @ proxyAddr, ''HTTPS_PROXY=http://'' @ proxyAddr,
          ''SSH_AUTH_SOCK=/run/ssh-agent.sock''] @
         (if cc_Timezone cfg \<noteq> [] then [''TZ='' @ cc_Timezone cfg] else []) @
         (case cc_CA cfg of
            Some ca \<Rightarrow> [''PROXY_CA_CERT_B64='' @ b64_encode (CACertPEM ca)] | None \<Rightarrow> []) @
         secret_env (cc_Secrets cfg))"

definition sandbox_args :: "string list" where
  "sandbox_args =
     [''sh'', ''-c'', ''trap '' @ sq @ ''kill -TERM -- -1; wait'' @ sq @ '' TERM; sleep infinity & wait'']"

definition createAndStartContainer ::
  "'w services \<Rightarrow> Manager \<Rightarrow> ('c, 'k, 't) ContainerConfig \<Rightarrow> 'w host \<Rightarrow> (goerror + string) \<times> 'w host" where
  "createAndStartContainer sv cm cfg h =
     (case with_docker (CreateContainer (sv_os sv) (sv_docker sv) cm (cc_Image cfg) sandbox_args (sandbox_env cfg)
             (cc_Name cfg)) h of
        (Inl e, h1) \<Rightarrow> (Inl (''create sandbox container: '' @ e), h1)
      | (Inr c, h1) \<Rightarrow>
          (case with_docker (StartContainer (sv_docker sv) (c_ID c)) h1 of
             (Some e, h2) \<Rightarrow> (Inl (''start sandbox container: '' @ e), h2)
           | (None, h2) \<Rightarrow> (Inr (c_ID c), h2)))"

section \<open>Health and info\<close>

definition handleHealth :: Reply where
  "handleHealth = writeJSON 200 (VMap
     [(''status'', VStr ''healthy''), (''version'', VStr ''0.1.0''), (''api_version'', VStr ''0.1.0'')])"

definition handleInfo :: "('c, 'k, 't) Daemon \<Rightarrow> Reply" where
  "handleInfo d = writeJSON 200 (VMap
     [(''socket_path'', VStr (dn_socketPath d)), (''ca_cert_path'', VStr (CertPath (dn_ca d))),
      (''docker_socket'', VStr (DockerSocketPath (dn_cm d))), (''version'', VStr ''0.1.0''),
      (''proxy_sidecar_image'', VStr (dc_ProxySidecarImage (dn_cfg d)))])"

section \<open>Runtime lifecycle\<close>

record CreateRuntimeRequest =
  cs_RuntimeName :: string
  cs_AgentName :: string
  cs_WorkspaceDir :: string
  cs_Image :: string
  cs_Secrets :: "CustomSecret list"

text \<open>Creation has two critical sections, the check for a sandbox of that name and the insertion;
  before the first the request is validated, between them the entry is built without the lock.\<close>

definition create_validate :: "goerror + CreateRuntimeRequest \<Rightarrow> Reply + CreateRuntimeRequest" where
  "create_validate body =
     (case body of
        Inl e \<Rightarrow> Inl (writeError 400 (''invalid JSON: '' @ e))
      | Inr req \<Rightarrow>
          (if cs_RuntimeName req = [] then Inl (writeError 400 ''spec.RuntimeName is required'')
           else if cs_WorkspaceDir req = [] then Inl (writeError 400 ''spec.WorkspaceDir is required'')
           else Inr req))"

definition create_check :: "('c, 'k, 't) Daemon \<Rightarrow> CreateRuntimeRequest \<Rightarrow> Reply option" where
  "create_check d req =
     (if map_of (dn_sandboxes d) (cs_RuntimeName req) \<noteq> None
      then Some (writeError 409 (''sandbox already exists: '' @ cs_RuntimeName req)) else None)"

definition new_state :: "CreateRuntimeRequest \<Rightarrow> int \<Rightarrow> SandboxState" where
  "new_state req nano =
     \<lparr>ss_ID = cs_RuntimeName req @ ''-'' @ itoa nano, ss_Name = cs_RuntimeName req,
      ss_AgentName = (if cs_AgentName req = [] then ''shell'' else cs_AgentName req), ss_Image = cs_Image req,
      ss_Workspace = cs_WorkspaceDir req, ss_ContainerID = [], ss_Running = False,
      ss_ProxyAddr = ''pending-sidecar'', ss_CreatedAt = nano, ss_Labels = [], ss_Secrets = cs_Secrets req\<rparr>"

definition create_insert :: "SandboxState \<Rightarrow> ('c, 'k, 't) Daemon \<Rightarrow> ('c, 'k, 't) Daemon" where
  "create_insert state d = d\<lparr>dn_sandboxes := AList.update (ss_Name state) state (dn_sandboxes d)\<rparr>"

text \<open>The handler when no other request gets in between.\<close>

definition handleCreateRuntime ::
  "'w services \<Rightarrow> goerror + CreateRuntimeRequest \<Rightarrow> ('c, 'k, 't) Daemon \<Rightarrow> 'w host \<Rightarrow>
     Reply \<times> ('c, 'k, 't) Daemon \<times> 'w host" where
  "handleCreateRuntime sv body d h =
     (case create_validate body of
        Inl r \<Rightarrow> (r, d, h)
      | Inr req \<Rightarrow>
          (case create_check d req of
             Some r \<Rightarrow> (r, d, h)
           | None \<Rightarrow>
               (let state = new_state req (sv_nano sv (world h)); d1 = create_insert state d
                in (writeJSON 201 (VState state), d1, saveState sv d1 h))))"

text \<open>The loop of the listing: each sandbox with a container is brought up to date from Docker.\<close>

fun refresh :: "'w services \<Rightarrow> Sandboxes \<Rightarrow> 'w host \<Rightarrow> Sandboxes \<times> 'w host" where
  "refresh sv [] h = ([], h)"
| "refresh sv ((n, s) # rest) h =
     (if ss_ContainerID s \<noteq> [] then
        (case with_docker (InspectContainer (sv_docker sv) (ss_ContainerID s)) h of
           (res, h1) \<Rightarrow>
             (let s1 = (case res of
                          Inl _ \<Rightarrow> s\<lparr>ss_Running := False, ss_ContainerID := []\<rparr>
                        | Inr c \<Rightarrow> s\<lparr>ss_Running := c_Running c\<rparr>)
              in case refresh sv rest h1 of (rest1, h2) \<Rightarrow> ((n, s1) # rest1, h2)))
      else (case refresh sv rest h of (rest1, h1) \<Rightarrow> ((n, s) # rest1, h1)))"

definition handleListRuntimes ::
  "'w services \<Rightarrow> ('c, 'k, 't) Daemon \<Rightarrow> 'w host \<Rightarrow> Reply \<times> ('c, 'k, 't) Daemon \<times> 'w host" where
  "handleListRuntimes sv d h =
     (case refresh sv (dn_sandboxes d) h of
        (sb, h1) \<Rightarrow> (writeJSON 200 (VList (map (VState \<circ> snd) sb)), d\<lparr>dn_sandboxes := sb\<rparr>, h1))"

definition not_found :: "string \<Rightarrow> Reply" where
  "not_found name = writeError 404 (''sandbox not found: '' @ name)"

definition handleGetRuntime :: "string \<Rightarrow> ('c, 'k, 't) Daemon \<Rightarrow> Reply" where
  "handleGetRuntime name d =
     (if name = [] then writeError 400 ''name is required''
      else (case map_of (dn_sandboxes d) name of
              None \<Rightarrow> not_found name
            | Some state \<Rightarrow> writeJSON 200 (VState state)))"

text \<open>Removing the first container of a name, if the containers can be listed.\<close>

definition remove_named :: "'w services \<Rightarrow> string \<Rightarrow> 'w host \<Rightarrow> 'w host" where
  "remove_named sv containerName h =
     (case with_docker (ListContainers (sv_docker sv)) h of
        (Inl _, h1) \<Rightarrow> h1
      | (Inr containers, h1) \<Rightarrow>
          (case find (\<lambda>c. c_Name c = containerName) containers of
             None \<Rightarrow> h1
           | Some c \<Rightarrow> snd (with_docker (RemoveContainer (sv_docker sv) (c_ID c)) h1)))"

definition remove_sandbox_container :: "'w services \<Rightarrow> string \<Rightarrow> SandboxState \<Rightarrow> 'w host \<Rightarrow> 'w host" where
  "remove_sandbox_container sv name state h =
     (if ss_ContainerID state \<noteq> [] then
        (case with_docker (InspectContainer (sv_docker sv) (ss_ContainerID state)) h of
           (Inl _, h1) \<Rightarrow> h1
         | (Inr _, h1) \<Rightarrow> snd (with_docker (RemoveContainer (sv_docker sv) (ss_ContainerID state)) h1))
      else remove_named sv (''sbx-'' @ name) h)"

definition handleDeleteRuntime ::
  "'w services \<Rightarrow> string \<Rightarrow> ('c, 'k, 't) Daemon \<Rightarrow> 'w host \<Rightarrow> Reply \<times> ('c, 'k, 't) Daemon \<times> 'w host" where
  "handleDeleteRuntime sv name d h =
     (if name = [] then (writeError 400 ''name is required'', d, h)
      else (case map_of (dn_sandboxes d) name of
              None \<Rightarrow> (not_found name, d, h)
            | Some state \<Rightarrow>
                (let d1 = d\<lparr>dn_sandboxes := AList.delete name (dn_sandboxes d)\<rparr>;
                     h1 = remove_sandbox_container sv name state h;
                     h2 = remove_named sv (sidecar_name name) h1
                 in (writeStatus 204, d1, saveState sv d1 h2))))"

definition sandbox_image :: "SandboxState \<Rightarrow> string" where
  "sandbox_image state =
     (if ss_Image state \<noteq> [] then ss_Image state
      else if ss_AgentName state \<noteq> [] then ''docker/sandbox-templates:'' @ ss_AgentName state @ ''-docker''
      else ''docker/sandbox-templates:shell-docker'')"

definition start_secrets :: "SandboxState \<Rightarrow> SecretManager \<Rightarrow> SecretManager" where
  "start_secrets state sm = (if ss_Secrets state \<noteq> [] then SetSecrets (ss_Secrets state) sm else sm)"

definition start_config :: "string \<Rightarrow> SandboxState \<Rightarrow> ('c, 'k, 't) Daemon \<Rightarrow> ('c, 'k, 't) ContainerConfig" where
  "start_config name state d =
     \<lparr>cc_Name = name, cc_Image = sandbox_image state, cc_Workspace = ss_Workspace state, cc_ProxyPort = ''3128'',
      cc_ProxySidecarImage = dc_ProxySidecarImage (dn_cfg d), cc_ProxySidecarBin = dc_ProxySidecarBin (dn_cfg d),
      cc_CA = Some (dn_ca d), cc_Secrets = Some (dn_secrets d), cc_Policy = Some (dn_policy d),
      cc_Timezone = ''UTC'', cc_Labels = ss_Labels state\<rparr>"

definition handleStartRuntime ::
  "'w services \<Rightarrow> string \<Rightarrow> ('c, 'k, 't) Daemon \<Rightarrow> 'w host \<Rightarrow> Reply \<times> ('c, 'k, 't) Daemon \<times> 'w host" where
  "handleStartRuntime sv name d h =
     (if name = [] then (writeError 400 ''name is required'', d, h)
      else (case map_of (dn_sandboxes d) name of
              None \<Rightarrow> (not_found name, d, h)
            | Some state \<Rightarrow>
                (if ss_Running state then (writeError 409 ''sandbox already running'', d, h)
                 else
                   (let d1 = d\<lparr>dn_secrets := start_secrets state (dn_secrets d)\<rparr> in
                    case createAndStartContainer sv (dn_cm d1) (start_config name state d1) h of
                      (Inl e, h1) \<Rightarrow> (writeError 500 (''container create failed: '' @ e), d1, h1)
                    | (Inr containerID, h1) \<Rightarrow>
                        (let state1 = state\<lparr>ss_ContainerID := containerID, ss_Running := True,
                                            ss_ProxyAddr := name @ ''-proxy:3128''\<rparr>;
                             d2 = d1\<lparr>dn_sandboxes := AList.update name state1 (dn_sandboxes d1)\<rparr>;
                             h2 = saveState sv d2 h1;
                             h3 = (if GetSecrets (dn_secrets d2) \<noteq> [] then propagateSecretsToSidecars sv d2 h2 else h2)
                         in (writeJSON 200 (VMap [(''container_id'', VStr containerID), (''status'', VStr ''running'')]),
                             d2, h3))))))"

definition handleStopRuntime ::
  "'w services \<Rightarrow> string \<Rightarrow> ('c, 'k, 't) Daemon \<Rightarrow> 'w host \<Rightarrow> Reply \<times> ('c, 'k, 't) Daemon \<times> 'w host" where
  "handleStopRuntime sv name d h =
     (if name = [] then (writeError 400 ''name is required'', d, h)
      else (case map_of (dn_sandboxes d) name of
              None \<Rightarrow> (not_found name, d, h)
            | Some state \<Rightarrow>
                (let h1 = (if ss_ContainerID state \<noteq> []
                           then snd (with_docker (StopContainer (sv_docker sv) (ss_ContainerID state)) h) else h);
                     d1 = d\<lparr>dn_sandboxes := AList.update name (state\<lparr>ss_Running := False\<rparr>) (dn_sandboxes d)\<rparr>
                 in (writeStatus 204, d1, saveState sv d1 h1))))"

section \<open>Policy\<close>

record PolicyAction =
  pa_Action :: string
  pa_Resources :: "string list"
  pa_Scope :: string
  pa_ID :: string

definition handleListPolicyRules :: "('c, 'k, 't) Daemon \<Rightarrow> Reply" where
  "handleListPolicyRules d = writeJSON 200 (VMap [(''rules'', VRules (ListRules (dn_policy d)))])"

definition shares_resource :: "string list \<Rightarrow> Rule \<Rightarrow> bool" where
  "shares_resource resources rule =
     list_ex (\<lambda>res. list_ex (\<lambda>ruleRes. res = ruleRes) (r_Resources rule)) resources"

definition removeResourcesByPattern ::
  "'w services \<Rightarrow> string list \<Rightarrow> ('c, 'k, 't) Daemon \<times> 'w host \<Rightarrow> int \<times> ('c, 'k, 't) Daemon \<times> 'w host" where
  "removeResourcesByPattern sv resources s =
     foldl (\<lambda>(n, s) rule.
        if shares_resource resources rule then
          (case policy_remove sv (r_ID rule) s of (ok, s1) \<Rightarrow> (if ok then n + 1 else n, s1))
        else (n, s))
       (0, s) (ListRules (dn_policy (fst s)))"

definition add_result :: "string \<Rightarrow> string list \<Rightarrow> goerror + Rule \<Rightarrow> jvalue" where
  "add_result action resources r =
     (case r of
        Inl e \<Rightarrow> VMap [(''action'', VStr action), (''error'', VStr e)]
      | Inr rule \<Rightarrow> VMap [(''action'', VStr action), (''id'', VStr (r_ID rule)), (''resources'', VStrs resources)])"

definition apply_action ::
  "'w services \<Rightarrow> PolicyAction \<Rightarrow> ('c, 'k, 't) Daemon \<times> 'w host \<Rightarrow> jvalue \<times> ('c, 'k, 't) Daemon \<times> 'w host" where
  "apply_action sv a s =
     (case s of (d, h) \<Rightarrow>
        (if pa_Action a = ''allow'' then
           (case policy_add sv ''allow'' ''allow'' (pa_Resources a) (pa_Scope a) d h of
              (r, s1) \<Rightarrow> (add_result ''allow'' (pa_Resources a) r, s1))
         else if pa_Action a = ''deny'' then
           (case policy_add sv ''deny'' ''deny'' (pa_Resources a) (pa_Scope a) d h of
              (r, s1) \<Rightarrow> (add_result ''deny'' (pa_Resources a) r, s1))
         else if pa_Action a = ''remove-resource'' then
           (case removeResourcesByPattern sv (pa_Resources a) s of
              (n, s1) \<Rightarrow> (VMap [(''action'', VStr (pa_Action a)), (''removed'', VInt n),
                               (''resources'', VStrs (pa_Resources a))], s1))
         else if pa_Action a = ''remove-id'' then
           (case policy_remove sv (pa_ID a) s of
              (ok, s1) \<Rightarrow> (VMap [(''action'', VStr (pa_Action a)), (''removed'', VBool ok), (''id'', VStr (pa_ID a))], s1))
         else (VMap [(''action'', VStr (pa_Action a)), (''error'', VStr (''unknown action: '' @ pa_Action a))], s)))"

definition apply_actions ::
  "'w services \<Rightarrow> PolicyAction list \<Rightarrow> ('c, 'k, 't) Daemon \<times> 'w host \<Rightarrow>
     jvalue list \<times> ('c, 'k, 't) Daemon \<times> 'w host" where
  "apply_actions sv acts s =
     foldl (\<lambda>(rs, s) a. case apply_action sv a s of (r, s1) \<Rightarrow> (rs @ [r], s1)) ([], s) acts"

definition handleApplyPolicyActions ::
  "'w services \<Rightarrow> goerror + PolicyAction list \<Rightarrow> ('c, 'k, 't) Daemon \<Rightarrow> 'w host \<Rightarrow>
     Reply \<times> ('c, 'k, 't) Daemon \<times> 'w host" where
  "handleApplyPolicyActions sv body d h =
     (case body of
        Inl e \<Rightarrow> (writeError 400 (''invalid JSON: '' @ e), d, h)
      | Inr acts \<Rightarrow>
          (case apply_actions sv acts (d, h) of
             (rs, d1, h1) \<Rightarrow>
               (writeJSON 200 (VMap [(''results'', VList rs)]), d1, propagatePolicyToSidecars sv d1 h1)))"

definition handlePolicySetup :: Reply where
  "handlePolicySetup = writeJSON 200 (VMap [(''needed'', VBool False)])"

definition handleSetPolicyProfile ::
  "'w services \<Rightarrow> goerror + string \<Rightarrow> ('c, 'k, 't) Daemon \<Rightarrow> 'w host \<Rightarrow> Reply \<times> ('c, 'k, 't) Daemon \<times> 'w host" where
  "handleSetPolicyProfile sv body d h =
     (let ok = writeJSON 200 (VMap [(''status'', VStr ''ok'')]); failed = writeError 500 ''failed to add rule'' in
      case body of
        Inl e \<Rightarrow> (writeError 400 (''invalid JSON: '' @ e), d, h)
      | Inr preset \<Rightarrow>
          (if preset = ''allow-all'' then
             (case policy_add sv ''allow-all'' ''allow'' [''*:*''] [] d h of
                (Inl _, s) \<Rightarrow> (failed, s) | (Inr _, s) \<Rightarrow> (ok, s))
           else if preset = ''deny-all'' then
             (case policy_add sv ''deny-all'' ''deny'' [''*:*''] [] d h of
                (Inl _, s) \<Rightarrow> (failed, s) | (Inr _, s) \<Rightarrow> (ok, s))
           else if preset = ''balanced'' then
             (case policy_add sv ''balanced-https'' ''deny'' [''*:443''] [] d h of
                (Inl _, s) \<Rightarrow> (failed, s)
              | (Inr _, d1, h1) \<Rightarrow>
                  (case policy_add sv ''balanced-http'' ''deny'' [''*:80''] [] d1 h1 of
                     (Inl _, s) \<Rightarrow> (failed, s) | (Inr _, s) \<Rightarrow> (ok, s)))
           else (writeError 400 (''unknown preset: '' @ preset), d, h)))"

definition handleDeletePolicyRules ::
  "'w services \<Rightarrow> ('c, 'k, 't) Daemon \<Rightarrow> 'w host \<Rightarrow> Reply \<times> ('c, 'k, 't) Daemon \<times> 'w host" where
  "handleDeletePolicyRules sv d h =
     (case foldl (\<lambda>s rule. snd (policy_remove sv (r_ID rule) s)) (d, h) (ListRules (dn_policy d)) of
        (d1, h1) \<Rightarrow>
          (writeJSON 200 (VMap [(''status'', VStr ''ok''), (''rules'', VRules (ListRules (dn_policy d1)))]),
           d1, propagatePolicyToSidecars sv d1 h1))"

definition handleDeletePolicyRuleByID ::
  "'w services \<Rightarrow> string \<Rightarrow> ('c, 'k, 't) Daemon \<Rightarrow> 'w host \<Rightarrow> Reply \<times> ('c, 'k, 't) Daemon \<times> 'w host" where
  "handleDeletePolicyRuleByID sv i d h =
     (if i = [] then (writeError 400 ''rule id is required'', d, h)
      else (case policy_remove sv i (d, h) of
              (ok, d1, h1) \<Rightarrow>
                (if \<not> ok then (writeError 404 (''rule not found: '' @ i), d1, h1)
                 else (writeJSON 200 (VMap [(''status'', VStr ''ok''), (''deleted'', VStr i),
                          (''rules'', VRules (ListRules (dn_policy d1)))]),
                       d1, propagatePolicyToSidecars sv d1 h1))))"

section \<open>Secrets, log, templates, certificate\<close>

definition redacted_value :: "string \<Rightarrow> string" where
  "redacted_value v =
     (if length v > 4 then take 2 v @ ''...'' @ drop (length v - 2) v
      else if length v > 0 then ''***'' else v)"

definition handleListSecrets :: "('c, 'k, 't) Daemon \<Rightarrow> Reply" where
  "handleListSecrets d =
     writeJSON 200 (VList (map (\<lambda>s. VMap
       [(''target'', VStr (s_Target s)), (''env_name'', VStr (s_EnvName s)), (''sentinel'', VStr (s_Sentinel s)),
        (''value'', VStr (redacted_value (s_Value s)))]) (GetSecrets (dn_secrets d))))"

definition handleSetSecrets ::
  "'w services \<Rightarrow> goerror + CustomSecret list \<Rightarrow> ('c, 'k, 't) Daemon \<Rightarrow> 'w host \<Rightarrow>
     Reply \<times> ('c, 'k, 't) Daemon \<times> 'w host" where
  "handleSetSecrets sv body d h =
     (case body of
        Inl e \<Rightarrow> (writeError 400 (''invalid JSON: '' @ e), d, h)
      | Inr secs \<Rightarrow>
          (let d1 = d\<lparr>dn_secrets := SetSecrets secs (dn_secrets d)\<rparr> in
           (writeJSON 200 (VMap [(''status'', VStr ''ok'')]), d1, propagateSecretsToSidecars sv d1 h)))"

definition handleNetworkLog :: Reply where
  "handleNetworkLog = writeJSON 200 (VMap [(''entries'', VList [])])"

definition template_entry :: "string \<Rightarrow> string \<Rightarrow> string \<Rightarrow> string \<Rightarrow> jvalue" where
  "template_entry i repo tag flavor =
     VMap [(''id'', VStr i), (''repository'', VStr repo), (''tag'', VStr tag), (''flavor'', VStr flavor)]"

definition handleListTemplates :: Reply where
  "handleListTemplates = writeJSON 200 (VList
     [template_entry ''shell'' ''docker/sandbox-templates'' ''shell-docker'' ''shell'',
      template_entry ''claude'' ''containifyci/claude-code'' ''latest'' ''claude'',
      template_entry ''codex'' ''containifyci/codex'' ''latest'' ''codex'',
      template_entry ''franky'' ''containifyci/franky'' ''latest'' ''franky''])"

definition handleCACert :: "('c, 'k, 't) Daemon \<Rightarrow> Reply" where
  "handleCACert d =
     \<lparr>rp_Status = 200, rp_ContentType = ''application/x-pem-file'', rp_Body = Some (VRaw (CACertPEM (dn_ca d)))\<rparr>"

section \<open>The routes\<close>

datatype api_request =
    GetHealth | GetInfo
  | PostRuntime "goerror + CreateRuntimeRequest" | GetRuntimes | GetRuntime string | DeleteRuntime string
  | StartRuntime string | StopRuntime string
  | GetRules | PostRules "goerror + PolicyAction list" | DeleteRules | DeleteRule string
  | GetSetup | PostSetup "goerror + string"
  | GetSecretList | PostSecrets "goerror + CustomSecret list"
  | GetLog | GetTemplates | GetCA

fun route ::
  "'w services \<Rightarrow> api_request \<Rightarrow> ('c, 'k, 't) Daemon \<Rightarrow> 'w host \<Rightarrow> Reply \<times> ('c, 'k, 't) Daemon \<times> 'w host" where
  "route sv GetHealth d h = (handleHealth, d, h)"
| "route sv GetInfo d h = (handleInfo d, d, h)"
| "route sv (PostRuntime b) d h = handleCreateRuntime sv b d h"
| "route sv GetRuntimes d h = handleListRuntimes sv d h"
| "route sv (GetRuntime n) d h = (handleGetRuntime n d, d, h)"
| "route sv (DeleteRuntime n) d h = handleDeleteRuntime sv n d h"
| "route sv (StartRuntime n) d h = handleStartRuntime sv n d h"
| "route sv (StopRuntime n) d h = handleStopRuntime sv n d h"
| "route sv GetRules d h = (handleListPolicyRules d, d, h)"
| "route sv (PostRules b) d h = handleApplyPolicyActions sv b d h"
| "route sv DeleteRules d h = handleDeletePolicyRules sv d h"
| "route sv (DeleteRule i) d h = handleDeletePolicyRuleByID sv i d h"
| "route sv GetSetup d h = (handlePolicySetup, d, h)"
| "route sv (PostSetup b) d h = handleSetPolicyProfile sv b d h"
| "route sv GetSecretList d h = (handleListSecrets d, d, h)"
| "route sv (PostSecrets b) d h = handleSetSecrets sv b d h"
| "route sv GetLog d h = (handleNetworkLog, d, h)"
| "route sv GetTemplates d h = (handleListTemplates, d, h)"
| "route sv GetCA d h = (handleCACert d, d, h)"

text \<open>A run of the daemon: one request after the other.\<close>

inductive api_step :: "'w services \<Rightarrow> ('c, 'k, 't) Daemon \<times> 'w host \<Rightarrow> ('c, 'k, 't) Daemon \<times> 'w host \<Rightarrow> bool"
  for sv :: "'w services" where
  request: "route sv q d h = (r, d', h') \<Longrightarrow> api_step sv (d, h) (d', h')"

section \<open>Concurrent creations\<close>

text \<open>Where a create request is: before its validation, holding the lock for the check, between the
  two critical sections without and with the entry, holding the lock for the insertion, before
  writing the state file, answered.\<close>

datatype create_pc =
    Arrived "goerror + CreateRuntimeRequest"
  | Validated CreateRuntimeRequest
  | Checking CreateRuntimeRequest
  | Checked CreateRuntimeRequest
  | Built CreateRuntimeRequest SandboxState
  | Inserting CreateRuntimeRequest SandboxState
  | Saving CreateRuntimeRequest SandboxState
  | Replied "goerror + CreateRuntimeRequest" Reply

record ('c, 'k, 't, 'w) create_system =
  cr_daemon :: "('c, 'k, 't) Daemon"
  cr_host :: "'w host"
  cr_lock :: "nat option"
  cr_reqs :: "nat \<Rightarrow> create_pc option"

inductive create_step ::
  "'w services \<Rightarrow> ('c, 'k, 't, 'w) create_system \<Rightarrow> ('c, 'k, 't, 'w) create_system \<Rightarrow> bool"
  for sv :: "'w services" where
  arrive: "cr_reqs s i = None \<Longrightarrow> create_step sv s (s\<lparr>cr_reqs := (cr_reqs s)(i \<mapsto> Arrived body)\<rparr>)"
| invalid: "cr_reqs s i = Some (Arrived body) \<Longrightarrow> create_validate body = Inl r \<Longrightarrow>
     create_step sv s (s\<lparr>cr_reqs := (cr_reqs s)(i \<mapsto> Replied body r)\<rparr>)"
| valid: "cr_reqs s i = Some (Arrived body) \<Longrightarrow> create_validate body = Inr req \<Longrightarrow>
     create_step sv s (s\<lparr>cr_reqs := (cr_reqs s)(i \<mapsto> Validated req)\<rparr>)"
| lock_check: "cr_reqs s i = Some (Validated req) \<Longrightarrow> cr_lock s = None \<Longrightarrow>
     create_step sv s (s\<lparr>cr_lock := Some i, cr_reqs := (cr_reqs s)(i \<mapsto> Checking req)\<rparr>)"
| conflict: "cr_reqs s i = Some (Checking req) \<Longrightarrow> cr_lock s = Some i \<Longrightarrow> create_check (cr_daemon s) req = Some r \<Longrightarrow>
     create_step sv s (s\<lparr>cr_lock := None, cr_reqs := (cr_reqs s)(i \<mapsto> Replied (Inr req) r)\<rparr>)"
| no_conflict: "cr_reqs s i = Some (Checking req) \<Longrightarrow> cr_lock s = Some i \<Longrightarrow> create_check (cr_daemon s) req = None \<Longrightarrow>
     create_step sv s (s\<lparr>cr_lock := None, cr_reqs := (cr_reqs s)(i \<mapsto> Checked req)\<rparr>)"
| build: "cr_reqs s i = Some (Checked req) \<Longrightarrow>
     create_step sv s (s\<lparr>cr_reqs := (cr_reqs s)(i \<mapsto> Built req (new_state req (sv_nano sv (world (cr_host s)))))\<rparr>)"
| lock_insert: "cr_reqs s i = Some (Built req state) \<Longrightarrow> cr_lock s = None \<Longrightarrow>
     create_step sv s (s\<lparr>cr_lock := Some i, cr_reqs := (cr_reqs s)(i \<mapsto> Inserting req state)\<rparr>)"
| insert: "cr_reqs s i = Some (Inserting req state) \<Longrightarrow> cr_lock s = Some i \<Longrightarrow>
     create_step sv s (s\<lparr>cr_daemon := create_insert state (cr_daemon s), cr_lock := None,
       cr_reqs := (cr_reqs s)(i \<mapsto> Saving req state)\<rparr>)"
| save: "cr_reqs s i = Some (Saving req state) \<Longrightarrow>
     create_step sv s (s\<lparr>cr_host := saveState sv (cr_daemon s) (cr_host s),
       cr_reqs := (cr_reqs s)(i \<mapsto> Replied (Inr req) (writeJSON 201 (VState state)))\<rparr>)"
| elapse: "create_step sv s (s\<lparr>cr_host := set_world w (cr_host s)\<rparr>)"

end
