(* ===== verification/DaemonFacts.thy ===== *)
theory DaemonFacts
  imports Daemon
begin

text \<open>
  What the daemon's handlers guarantee: the invariant of the table of sandboxes along every
  sequence of API requests, the discipline of rule ids, what the policy handlers leave behind,
  which requests reach Docker and which commands are run, and where secret values go.
\<close>

section \<open>Frames\<close>

lemma policy_add_frame [simp]:
  "dn_sandboxes (fst (snd (policy_add sv nm dec res sc d h))) = dn_sandboxes d"
  "fst (snd (snd (policy_add sv nm dec res sc d h))) = fst h"
  by (auto simp: policy_add_def set_world_def split: prod.split)

lemma policy_add_rules:
  "policy_add sv nm dec res sc d h = (r, d', h') \<Longrightarrow>
     d' = d\<lparr>dn_policy := fst (snd (AddRule (sv_os sv) (sv_rules_indent sv) nm dec res sc (dn_policy d) (world h)))\<rparr>"
  by (auto simp: policy_add_def split: prod.splits)

lemma policy_remove_frame:
  "policy_remove sv i (d, h) = (ok, d', h') \<Longrightarrow>
     d' = d\<lparr>dn_policy := fst (snd (RemoveRule (sv_os sv) (sv_rules_indent sv) i (dn_policy d) (world h)))\<rparr>"
  by (auto simp: policy_remove_def split: prod.splits)

text \<open>The daemon as a rule store.\<close>

interpretation daemon_rules: rule_store "\<lambda>s. e_rules (dn_policy (fst s))" "policy_remove sv"
  for sv :: "'w services"
  by unfold_locales
    (auto simp: policy_remove_def RemoveRule_def set_world_def world_def Let_def split: option.splits prod.splits)

section \<open>The table of sandboxes\<close>

definition state_ok :: "string \<Rightarrow> SandboxState \<Rightarrow> bool" where
  "state_ok n s \<longleftrightarrow>
     n \<noteq> [] \<and> ss_Name s = n \<and> ss_AgentName s \<noteq> [] \<and> ss_Workspace s \<noteq> [] \<and>
     (ss_Running s \<or> ss_ContainerID s \<noteq> [] \<longrightarrow> ss_ProxyAddr s = n @ ''-proxy:3128'')"

definition sandboxes_ok :: "Sandboxes \<Rightarrow> bool" where
  "sandboxes_ok sb \<longleftrightarrow> distinct (map fst sb) \<and> (\<forall>(n, s) \<in> set sb. state_ok n s)"

lemma sandboxes_ok_alt:
  "sandboxes_ok sb \<longleftrightarrow> distinct (map fst sb) \<and> (\<forall>n s. map_of sb n = Some s \<longrightarrow> state_ok n s)"
  by (auto simp: sandboxes_ok_def dest: map_of_SomeD)

lemma sandboxes_ok_update:
  "sandboxes_ok sb \<Longrightarrow> state_ok n s \<Longrightarrow> sandboxes_ok (AList.update n s sb)"
  by (auto simp: sandboxes_ok_alt update_conv' distinct_update)

lemma sandboxes_ok_delete: "sandboxes_ok sb \<Longrightarrow> sandboxes_ok (AList.delete n sb)"
  by (auto simp: sandboxes_ok_alt delete_conv' distinct_delete split: if_splits)

lemma refresh_keys: "map fst (fst (refresh sv sb h)) = map fst sb"
  by (induction sv sb h rule: refresh.induct) (auto split: prod.splits)

lemma refresh_states:
  "(\<forall>(n, s) \<in> set sb. state_ok n s) \<Longrightarrow> \<forall>(n, s) \<in> set (fst (refresh sv sb h)). state_ok n s"
  by (induction sv sb h rule: refresh.induct)
    (auto simp: state_ok_def Let_def split: prod.splits sum.splits if_splits)

lemma sandboxes_ok_refresh: "sandboxes_ok sb \<Longrightarrow> sandboxes_ok (fst (refresh sv sb h))"
  using refresh_keys[of sv sb h] refresh_states[of sb sv h] by (simp add: sandboxes_ok_def)

lemma create_ok:
  "sandboxes_ok (dn_sandboxes d) \<Longrightarrow> sandboxes_ok (dn_sandboxes (fst (snd (handleCreateRuntime sv b d h))))"
  by (auto simp: handleCreateRuntime_def create_validate_def create_check_def create_insert_def new_state_def
      state_ok_def Let_def intro!: sandboxes_ok_update split: sum.split)

lemma start_ok:
  assumes "sandboxes_ok (dn_sandboxes d)"
  shows "sandboxes_ok (dn_sandboxes (fst (snd (handleStartRuntime sv n d h))))"
proof (cases "map_of (dn_sandboxes d) n")
  case None
  then show ?thesis using assms by (simp add: handleStartRuntime_def)
next
  case (Some s)
  then have "state_ok n s" using assms by (auto simp: sandboxes_ok_alt)
  then have "state_ok n (s\<lparr>ss_ContainerID := c, ss_Running := True, ss_ProxyAddr := n @ ''-proxy:3128''\<rparr>)" for c
    by (simp add: state_ok_def)
  then show ?thesis
    using assms Some
    by (auto simp: handleStartRuntime_def Let_def intro!: sandboxes_ok_update split: prod.split sum.split)
qed

lemma stop_ok:
  assumes "sandboxes_ok (dn_sandboxes d)"
  shows "sandboxes_ok (dn_sandboxes (fst (snd (handleStopRuntime sv n d h))))"
proof (cases "map_of (dn_sandboxes d) n")
  case None
  then show ?thesis using assms by (simp add: handleStopRuntime_def)
next
  case (Some s)
  then have "state_ok n s" using assms by (auto simp: sandboxes_ok_alt)
  then have "state_ok n (s\<lparr>ss_Running := False\<rparr>)" by (auto simp: state_ok_def)
  then show ?thesis using assms Some by (auto simp: handleStopRuntime_def Let_def intro!: sandboxes_ok_update)
qed

lemma delete_ok:
  "sandboxes_ok (dn_sandboxes d) \<Longrightarrow> sandboxes_ok (dn_sandboxes (fst (snd (handleDeleteRuntime sv n d h))))"
  by (auto simp: handleDeleteRuntime_def Let_def intro: sandboxes_ok_delete split: option.split)

lemma list_ok:
  "sandboxes_ok (dn_sandboxes d) \<Longrightarrow> sandboxes_ok (dn_sandboxes (fst (snd (handleListRuntimes sv d h))))"
  using sandboxes_ok_refresh[of "dn_sandboxes d" sv h] by (auto simp: handleListRuntimes_def split: prod.splits)

text \<open>The other handlers leave the table alone.\<close>

lemma policy_remove_sandboxes [simp]: "dn_sandboxes (fst (snd (policy_remove sv i s))) = dn_sandboxes (fst s)"
  by (cases s) (auto simp: policy_remove_def split: prod.split)

lemma policy_remove_sandboxesD: "policy_remove sv i s = (ok, s1) \<Longrightarrow> dn_sandboxes (fst s1) = dn_sandboxes (fst s)"
  using policy_remove_sandboxes[of sv i s] by simp

lemma policy_add_sandboxesD: "policy_add sv nm dec res sc d h = (r, s1) \<Longrightarrow> dn_sandboxes (fst s1) = dn_sandboxes d"
  using policy_add_frame(1)[of sv nm dec res sc d h] by simp

lemma foldl_remove_sandboxes:
  "dn_sandboxes (fst (foldl (\<lambda>s rule. snd (policy_remove sv (r_ID rule) s)) s rs)) = dn_sandboxes (fst s)"
  by (induction rs arbitrary: s) simp_all

lemma removeResources_sandboxes_from:
  "dn_sandboxes (fst (snd (foldl (\<lambda>(n, s) rule. if P rule then (case policy_remove sv (r_ID rule) s of
       (ok, s1) \<Rightarrow> (if ok then n + 1 else n, s1)) else (n, s)) (m, s) rs))) = dn_sandboxes (fst s)"
proof (induction rs arbitrary: m s)
  case (Cons r rs)
  then show ?case by (cases "policy_remove sv (r_ID r) s") (auto dest: policy_remove_sandboxesD)
qed simp

lemma removeResources_sandboxes:
  "dn_sandboxes (fst (snd (removeResourcesByPattern sv res s))) = dn_sandboxes (fst s)"
  unfolding removeResourcesByPattern_def by (rule removeResources_sandboxes_from)

lemma removeResources_sandboxesD:
  "removeResourcesByPattern sv res s = (n, s1) \<Longrightarrow> dn_sandboxes (fst s1) = dn_sandboxes (fst s)"
  using removeResources_sandboxes[of sv res s] by simp

lemma apply_action_sandboxes: "apply_action sv a (d, h) = (r, s1) \<Longrightarrow> dn_sandboxes (fst s1) = dn_sandboxes d"
  by (auto simp: apply_action_def split: prod.splits if_splits
      dest!: policy_add_sandboxesD policy_remove_sandboxesD removeResources_sandboxesD)

lemma apply_actions_snoc:
  "apply_actions sv (acts @ [a]) s =
     (case apply_actions sv acts s of (rs, s1) \<Rightarrow> case apply_action sv a s1 of (r, s2) \<Rightarrow> (rs @ [r], s2))"
  by (simp add: apply_actions_def split_beta)

lemma apply_actions_sandboxes: "apply_actions sv acts s = (rs, s1) \<Longrightarrow> dn_sandboxes (fst s1) = dn_sandboxes (fst s)"
proof (induction acts arbitrary: rs s1 rule: rev_induct)
  case Nil
  then show ?case by (auto simp: apply_actions_def)
next
  case (snoc a acts)
  then show ?case by (auto simp: apply_actions_snoc split: prod.splits dest!: apply_action_sandboxes)
qed

lemma profile_sandboxes: "dn_sandboxes (fst (snd (handleSetPolicyProfile sv b d h))) = dn_sandboxes d"
proof -
  have f: "policy_add sv nm dec res sc d h = (r, d1, h1) \<Longrightarrow> dn_sandboxes d1 = dn_sandboxes d"
    for nm dec res sc d h r d1 h1 by (drule policy_add_rules) simp
  show ?thesis by (auto simp: handleSetPolicyProfile_def Let_def split: sum.split prod.splits dest!: f)
qed

lemma route_ok:
  assumes "sandboxes_ok (dn_sandboxes d)"
  shows "sandboxes_ok (dn_sandboxes (fst (snd (route sv q d h))))"
proof (cases q)
  case (PostRules b)
  then show ?thesis
    using assms by (auto simp: handleApplyPolicyActions_def split: sum.split prod.split dest!: apply_actions_sandboxes)
next
  case DeleteRules
  then show ?thesis
    using assms foldl_remove_sandboxes[of sv "(d, h)" "ListRules (dn_policy d)"]
    by (auto simp: handleDeletePolicyRules_def split: prod.split)
next
  case (DeleteRule i)
  then show ?thesis
    using assms by (auto simp: handleDeletePolicyRuleByID_def split: prod.split dest!: policy_remove_sandboxesD)
next
  case (PostSecrets b)
  then show ?thesis using assms by (auto simp: handleSetSecrets_def Let_def split: sum.split)
qed (use assms in \<open>simp_all add: create_ok start_ok stop_ok delete_ok list_ok profile_sandboxes\<close>)

inductive_cases api_stepE: "api_step sv s s'"

lemma api_step_ok: "api_step sv s s' \<Longrightarrow> sandboxes_ok (dn_sandboxes (fst s)) \<Longrightarrow> sandboxes_ok (dn_sandboxes (fst s'))"
proof (induction rule: api_step.induct)
  case (request q d h r d' h')
  then show ?case using route_ok[of d sv q h] by simp
qed

lemma api_reachable_ok:
  "(api_step sv)\<^sup>*\<^sup>* s s' \<Longrightarrow> sandboxes_ok (dn_sandboxes (fst s)) \<Longrightarrow> sandboxes_ok (dn_sandboxes (fst s'))"
  by (induction rule: rtranclp_induct) (auto intro: api_step_ok)

section \<open>Rule ids\<close>

text \<open>How many rules a request can add at most.\<close>

fun adds :: "api_request \<Rightarrow> nat" where
  "adds (PostRules (Inr acts)) = length acts"
| "adds (PostSetup b) = 2"
| "adds _ = 0"

text \<open>The ids are in order and the counter is at most \<open>k\<close>.\<close>

definition ids_upto :: "int \<Rightarrow> ('c, 'k, 't) Daemon \<Rightarrow> bool" where
  "ids_upto k d \<longleftrightarrow> ids_ok (dn_policy d) \<and> e_nextID (dn_policy d) \<le> k"

lemma ids_upto_mono: "ids_upto k d \<Longrightarrow> k \<le> k' \<Longrightarrow> ids_upto k' d"
  by (simp add: ids_upto_def)

lemma policy_add_ids:
  assumes "policy_add sv nm dec res sc d h = (r, s1)" "ids_upto k d" "k < 2 ^ 63 - 1"
  shows "ids_upto (k + 1) (fst s1)"
proof -
  have "ids_ok (dn_policy d)" "e_nextID (dn_policy d) < 2 ^ 63 - 1"
    using assms(2,3) by (auto simp: ids_upto_def)
  note ok = ids_ok_AddRule[OF this, of "sv_os sv" "sv_rules_indent sv" nm dec res sc "world h"]
  have "e_nextID (fst (snd (AddRule (sv_os sv) (sv_rules_indent sv) nm dec res sc (dn_policy d) (world h)))) =
      e_nextID (dn_policy d) + 1"
    using assms(2,3) int64_succ[of "e_nextID (dn_policy d)"] by (simp add: AddRule_def Let_def ids_upto_def ids_ok_def)
  then show ?thesis
    using ok assms by (auto simp: policy_add_def ids_upto_def split: prod.splits)
qed

lemma policy_remove_ids:
  "policy_remove sv i s = (ok, s1) \<Longrightarrow> ids_upto k (fst s) \<Longrightarrow> ids_upto k (fst s1)"
proof -
  assume a: "policy_remove sv i s = (ok, s1)" "ids_upto k (fst s)"
  obtain d h where s: "s = (d, h)" by (cases s)
  have "e_nextID (fst (snd (RemoveRule (sv_os sv) (sv_rules_indent sv) i (dn_policy d) (world h)))) = e_nextID (dn_policy d)"
    by (simp add: RemoveRule_def Let_def split: option.split)
  then show ?thesis
    using a s ids_ok_RemoveRule[of "dn_policy d" "sv_os sv" "sv_rules_indent sv" i "world h"]
    by (auto simp: policy_remove_def ids_upto_def split: prod.splits)
qed

lemma foldl_remove_ids:
  "ids_upto k (fst s) \<Longrightarrow> ids_upto k (fst (foldl (\<lambda>s rule. snd (policy_remove sv (r_ID rule) s)) s rs))"
proof (induction rs arbitrary: s)
  case (Cons r rs)
  have "ids_upto k (fst (snd (policy_remove sv (r_ID r) s)))"
    using policy_remove_ids[of sv "r_ID r" s _ _ k] Cons.prems by (metis prod.collapse)
  then show ?case using Cons.IH by simp
qed simp

lemma removeResources_ids_from:
  "foldl (\<lambda>(n, s) rule. if P rule then (case policy_remove sv (r_ID rule) s of
       (ok, s1) \<Rightarrow> (if ok then n + 1 else n, s1)) else (n, s)) (m, s) rs = (n', s') \<Longrightarrow>
   ids_upto k (fst s) \<Longrightarrow> ids_upto k (fst s')"
proof (induction rs arbitrary: m s)
  case (Cons r rs)
  obtain ok s1 where "policy_remove sv (r_ID r) s = (ok, s1)" by (cases "policy_remove sv (r_ID r) s")
  then show ?case
    using Cons.IH[of m s] Cons.IH[of "if ok then m + 1 else m" s1] Cons.prems policy_remove_ids[of sv "r_ID r" s ok s1 k]
    by (simp split: if_splits)
qed simp

lemma removeResources_ids:
  "removeResourcesByPattern sv res s = (n, s1) \<Longrightarrow> ids_upto k (fst s) \<Longrightarrow> ids_upto k (fst s1)"
  unfolding removeResourcesByPattern_def by (rule removeResources_ids_from)

lemma apply_action_cases:
  assumes "apply_action sv a (d, h) = (r, s1)"
  obtains nm dec q where "policy_add sv nm dec (pa_Resources a) (pa_Scope a) d h = (q, s1)"
  | n where "removeResourcesByPattern sv (pa_Resources a) (d, h) = (n, s1)"
  | ok where "policy_remove sv (pa_ID a) (d, h) = (ok, s1)"
  | "s1 = (d, h)"
  using assms by (auto simp: apply_action_def split: prod.splits if_splits)

lemma apply_action_ids:
  assumes "apply_action sv a (d, h) = (r, s1)" "ids_upto k d" "k < 2 ^ 63 - 1"
  shows "ids_upto (k + 1) (fst s1)"
  using assms(1)
proof (cases rule: apply_action_cases)
  case (1 nm dec q)
  then show ?thesis using policy_add_ids assms(2,3) by blast
next
  case (2 n)
  then have "ids_upto k (fst s1)" using removeResources_ids[OF 2] assms(2) by simp
  then show ?thesis using ids_upto_mono[of k "fst s1" "k + 1"] by simp
next
  case (3 ok)
  then have "ids_upto k (fst s1)" using policy_remove_ids[OF 3] assms(2) by simp
  then show ?thesis using ids_upto_mono[of k "fst s1" "k + 1"] by simp
next
  case 4
  then show ?thesis using ids_upto_mono[OF assms(2), of "k + 1"] by simp
qed

lemma apply_actions_ids:
  "apply_actions sv acts (d, h) = (rs, s1) \<Longrightarrow> ids_upto k d \<Longrightarrow> k + int (length acts) \<le> 2 ^ 63 - 1 \<Longrightarrow>
     ids_upto (k + int (length acts)) (fst s1)"
proof (induction acts arbitrary: rs s1 rule: rev_induct)
  case Nil
  then show ?case by (auto simp: apply_actions_def)
next
  case (snoc a acts)
  obtain qs d1 h1 where 1: "apply_actions sv acts (d, h) = (qs, d1, h1)" by (cases "apply_actions sv acts (d, h)")
  then obtain r where 2: "apply_action sv a (d1, h1) = (r, s1)"
    using snoc.prems(1) by (auto simp: apply_actions_snoc split: prod.splits)
  have "ids_upto (k + int (length acts)) d1" using snoc.IH[OF 1 snoc.prems(2)] snoc.prems(3) by simp
  from apply_action_ids[OF 2 this] snoc.prems(3) show ?case by (simp add: algebra_simps)
qed

lemma profile_cases:
  assumes "handleSetPolicyProfile sv b d h = (r, s1)"
  obtains "s1 = (d, h)"
  | nm dec res sc q where "policy_add sv nm dec res sc d h = (q, s1)"
  | nm dec res sc q d1 h1 nm2 dec2 res2 sc2 q2
    where "policy_add sv nm dec res sc d h = (q, d1, h1)" "policy_add sv nm2 dec2 res2 sc2 d1 h1 = (q2, s1)"
  using assms by (auto simp: handleSetPolicyProfile_def Let_def split: sum.splits prod.splits if_splits)

lemma profile_ids:
  assumes "handleSetPolicyProfile sv b d h = (r, s1)" "ids_upto k d" "k + 2 \<le> 2 ^ 63 - 1"
  shows "ids_upto (k + 2) (fst s1)"
  using assms(1)
proof (cases rule: profile_cases)
  case 1
  then show ?thesis using ids_upto_mono[OF assms(2), of "k + 2"] by simp
next
  case (2 nm dec res sc q)
  then have "ids_upto (k + 1) (fst s1)" using policy_add_ids[OF 2 assms(2)] assms(3) by simp
  then show ?thesis using ids_upto_mono[of "k + 1" "fst s1" "k + 2"] by simp
next
  case (3 nm dec res sc q d1 h1 nm2 dec2 res2 sc2 q2)
  then have "ids_upto (k + 1) d1" using policy_add_ids[OF 3(1) assms(2)] assms(3) by simp
  from policy_add_ids[OF 3(2) this] assms(3) show ?thesis by (simp add: add.commute)
qed

text \<open>The handlers of sandboxes and secrets do not touch the policy.\<close>

lemma sandbox_handlers_policy [simp]:
  "dn_policy (fst (snd (handleCreateRuntime sv b d h))) = dn_policy d"
  "dn_policy (fst (snd (handleListRuntimes sv d h))) = dn_policy d"
  "dn_policy (fst (snd (handleDeleteRuntime sv n d h))) = dn_policy d"
  "dn_policy (fst (snd (handleStartRuntime sv n d h))) = dn_policy d"
  "dn_policy (fst (snd (handleStopRuntime sv n d h))) = dn_policy d"
  "dn_policy (fst (snd (handleSetSecrets sv sb d h))) = dn_policy d"
  by (auto simp: handleCreateRuntime_def create_insert_def handleListRuntimes_def handleDeleteRuntime_def
      handleStartRuntime_def handleStopRuntime_def handleSetSecrets_def Let_def
      split: sum.split prod.split option.split)

lemma route_ids:
  assumes "ids_upto k d" "k + int (adds q) \<le> 2 ^ 63 - 1"
  shows "ids_upto (k + int (adds q)) (fst (snd (route sv q d h)))"
proof (cases q)
  case (PostRules b)
  show ?thesis
  proof (cases b)
    case (Inl e)
    then show ?thesis using PostRules assms by (simp add: handleApplyPolicyActions_def)
  next
    case (Inr acts)
    obtain rs d1 h1 where "apply_actions sv acts (d, h) = (rs, d1, h1)" by (cases "apply_actions sv acts (d, h)")
    then show ?thesis
      using PostRules Inr assms apply_actions_ids[of sv acts d h rs "(d1, h1)" k]
      by (simp add: handleApplyPolicyActions_def)
  qed
next
  case DeleteRules
  then show ?thesis
    using assms foldl_remove_ids[of k "(d, h)" sv "ListRules (dn_policy d)"]
    by (auto simp: handleDeletePolicyRules_def split: prod.split)
next
  case (DeleteRule i)
  then show ?thesis
    using assms policy_remove_ids[of sv i "(d, h)" _ _ k]
    by (auto simp: handleDeletePolicyRuleByID_def split: prod.split)
next
  case (PostSetup b)
  then show ?thesis
    using assms profile_ids[of sv b d h _ _ k] by (cases "handleSetPolicyProfile sv b d h") simp
qed (use assms in \<open>simp_all add: ids_upto_def\<close>)

section \<open>Requests to Docker\<close>

abbreviation docker_trace :: "'w host \<Rightarrow> DockerReq list" where
  "docker_trace h \<equiv> fst (snd h)"

text \<open>A step that only adds requests with a property.\<close>

definition adds_requests :: "(DockerReq \<Rightarrow> bool) \<Rightarrow> 'w host \<Rightarrow> 'w host \<Rightarrow> bool" where
  "adds_requests P h h' \<longleftrightarrow> (\<exists>rs. docker_trace h' = docker_trace h @ rs \<and> list_all P rs)"

lemma adds_requests_refl [simp]: "adds_requests P h h"
  by (simp add: adds_requests_def)

lemma adds_requests_trans: "adds_requests P h h1 \<Longrightarrow> adds_requests P h1 h2 \<Longrightarrow> adds_requests P h h2"
  by (auto simp: adds_requests_def)

lemma adds_requests_world [simp]: "adds_requests P h (set_world w h1) = adds_requests P h h1"
  by (simp add: adds_requests_def set_world_def)

lemma adds_requests_save: "adds_requests P h h1 \<Longrightarrow> adds_requests P h (saveState sv d h1)"
  by (simp add: saveState_def split: sum.split)

lemma with_docker_trace:
  assumes "with_docker f h = (r, h1)" "\<exists>rs. fst (snd (f (snd h))) = fst (snd h) @ rs \<and> list_all P rs"
  shows "adds_requests P h h1"
  using assms by (auto simp: with_docker_def adds_requests_def split: prod.splits)

abbreviation delete_url :: "string \<Rightarrow> string" where
  "delete_url cid \<equiv> api @ ''/containers/'' @ cid @ ''?force=true&v=true''"

text \<open>The requests of a deletion: reading, or removing one of the given containers.\<close>

definition deletes_only :: "string set \<Rightarrow> DockerReq \<Rightarrow> bool" where
  "deletes_only cids r \<longleftrightarrow> d_Method r = ''GET'' \<or> (\<exists>cid \<in> cids. d_Method r = ''DELETE'' \<and> d_URL r = delete_url cid)"

lemma list_trace: "with_docker (ListContainers dk) h = (r, h1) \<Longrightarrow> adds_requests (deletes_only cids) h h1"
proof (rule with_docker_trace, assumption)
  show "\<exists>rs. fst (snd (ListContainers dk (snd h))) = docker_trace h @ rs \<and> list_all (deletes_only cids) rs"
    using list_op.trace_grows[of dk "snd h"] by (auto simp: list_all_iff deletes_only_def)
qed

lemma inspect_trace: "with_docker (InspectContainer dk c) h = (r, h1) \<Longrightarrow> adds_requests (deletes_only cids) h h1"
proof (rule with_docker_trace, assumption)
  show "\<exists>rs. fst (snd (InspectContainer dk c (snd h))) = docker_trace h @ rs \<and> list_all (deletes_only cids) rs"
    using inspect_op.trace_grows[of dk c "snd h"] by (auto simp: list_all_iff deletes_only_def)
qed

lemma remove_trace:
  assumes "c \<in> cids"
  shows "adds_requests (deletes_only cids) h (snd (with_docker (RemoveContainer dk c) h))"
proof -
  have "\<exists>rs. fst (snd (RemoveContainer dk c (snd h))) = docker_trace h @ rs \<and> list_all (deletes_only cids) rs"
    using remove_op.trace_grows[of dk c "snd h"] assms by (auto simp: list_all_iff deletes_only_def)
  then show ?thesis using with_docker_trace[of "RemoveContainer dk c" h] by (metis prod.collapse)
qed

text \<open>Whatever Docker lists under the name is among the given ids.\<close>

definition named_ids :: "'w docker \<Rightarrow> string \<Rightarrow> string set \<Rightarrow> bool" where
  "named_ids dk name cids \<longleftrightarrow>
     (\<forall>tw cs tw'. ListContainers dk tw = (Inr cs, tw') \<longrightarrow> (\<forall>c \<in> set cs. c_Name c = name \<longrightarrow> c_ID c \<in> cids))"

lemma remove_named_trace:
  assumes "named_ids (sv_docker sv) name cids"
  shows "adds_requests (deletes_only cids) h (remove_named sv name h)"
proof -
  obtain r h1 where l: "with_docker (ListContainers (sv_docker sv)) h = (r, h1)"
    by (cases "with_docker (ListContainers (sv_docker sv)) h")
  note t = list_trace[OF l, of cids]
  show ?thesis
  proof (cases r)
    case (Inl e)
    then show ?thesis using l t by (simp add: remove_named_def)
  next
    case (Inr cs)
    show ?thesis
    proof (cases "find (\<lambda>c. c_Name c = name) cs")
      case None
      then show ?thesis using l t Inr by (simp add: remove_named_def)
    next
      case (Some c)
      then have "c \<in> set cs" "c_Name c = name" by (auto simp: find_Some_iff)
      moreover obtain tw' where "ListContainers (sv_docker sv) (snd h) = (Inr cs, tw')"
        using l Inr by (auto simp: with_docker_def split: prod.splits)
      ultimately have "c_ID c \<in> cids" using assms unfolding named_ids_def by blast
      then show ?thesis
        using l t Inr Some remove_trace[of "c_ID c" cids h1 "sv_docker sv"]
        by (simp add: remove_named_def adds_requests_trans)
    qed
  qed
qed

lemma remove_sandbox_trace:
  assumes "named_ids (sv_docker sv) (''sbx-'' @ name) cids" "ss_ContainerID s \<in> insert [] cids"
  shows "adds_requests (deletes_only cids) h (remove_sandbox_container sv name s h)"
proof (cases "ss_ContainerID s = []")
  case True
  then show ?thesis using remove_named_trace[OF assms(1)] by (simp add: remove_sandbox_container_def)
next
  case False
  obtain r h1 where i: "with_docker (InspectContainer (sv_docker sv) (ss_ContainerID s)) h = (r, h1)"
    by (cases "with_docker (InspectContainer (sv_docker sv) (ss_ContainerID s)) h")
  then show ?thesis
    using False assms(2) inspect_trace[OF i, of cids] remove_trace[of "ss_ContainerID s" cids h1 "sv_docker sv"]
    by (auto simp: remove_sandbox_container_def intro: adds_requests_trans split: sum.split)
qed

section \<open>Commands in the sidecars\<close>

definition reload_command :: "Manager \<Rightarrow> string \<Rightarrow> string \<Rightarrow> string \<Rightarrow> string list" where
  "reload_command cm payload endpoint cid =
     ''docker'' # [''--host'', ''unix://'' @ DockerSocketPath cm, ''exec'', cid] @ curl_cmd (b64_encode payload) endpoint"

lemma exec_commands:
  "fst (snd (execInContainer sv cm cid cmd h)) =
     fst h @ [''docker'' # [''--host'', ''unix://'' @ DockerSocketPath cm, ''exec'', cid] @ cmd]"
  by (auto simp: execInContainer_def Let_def split: prod.split option.split)

lemma with_docker_commands: "with_docker f h = (r, h1) \<Longrightarrow> fst h1 = fst h"
  by (auto simp: with_docker_def split: prod.splits)

text \<open>The containers do not change while the daemon propagates: as long as \<open>I\<close> holds of the world, a
  listing answers \<open>cs\<close>, and neither a listing nor a command in a container ends \<open>I\<close>.\<close>

definition stable_listing :: "'w services \<Rightarrow> ('w \<Rightarrow> bool) \<Rightarrow> Container list \<Rightarrow> bool" where
  "stable_listing sv I cs \<longleftrightarrow>
     (\<forall>t w. I w \<longrightarrow> (\<exists>t' w'. ListContainers (sv_docker sv) (t, w) = (Inr cs, t', w') \<and> I w')) \<and>
     (\<forall>args w. I w \<longrightarrow> I (snd (RunCmd (sv_run sv) None ''docker'' args w)))"

lemma list_stable:
  assumes "stable_listing sv I cs" "I (world h)"
  shows "\<exists>h1. with_docker (ListContainers (sv_docker sv)) h = (Inr cs, h1) \<and> fst h1 = fst h \<and> I (world h1)"
proof -
  obtain t' w' where "ListContainers (sv_docker sv) (fst (snd h), snd (snd h)) = (Inr cs, t', w')" "I w'"
    using assms unfolding stable_listing_def world_def by blast
  then show ?thesis by (simp add: with_docker_def world_def)
qed

lemma exec_stable:
  assumes "stable_listing sv I cs" "I (world h)"
  shows "I (world (snd (execInContainer sv cm cid cmd h)))"
proof -
  let ?args = "[''--host'', ''unix://'' @ DockerSocketPath cm, ''exec'', cid] @ cmd"
  obtain out e w where r: "RunCmd (sv_run sv) None ''docker'' ?args (world h) = ((out, e), w)"
    by (metis prod.collapse)
  have "I (snd (RunCmd (sv_run sv) None ''docker'' ?args (world h)))"
    using assms unfolding stable_listing_def by blast
  then have "I w" using r by simp
  then show ?thesis using r by (cases e) (simp_all add: execInContainer_def world_def)
qed

text \<open>The command for a sandbox of that name, if its sidecar runs.\<close>

definition sidecar_commands :: "Manager \<Rightarrow> string \<Rightarrow> string \<Rightarrow> Container list \<Rightarrow> string \<Rightarrow> string list list" where
  "sidecar_commands cm payload endpoint cs name =
     (case find (\<lambda>c. c_Name c = ''sbx-'' @ name @ ''-proxy'') cs of
        None \<Rightarrow> []
      | Some c \<Rightarrow> (if c_ID c \<noteq> [] \<and> c_Running c then [reload_command cm payload endpoint (c_ID c)] else []))"

lemma propagate_one_commands:
  assumes "stable_listing sv I cs" "I (world h)"
  shows "fst (propagate_one sv cm (b64_encode payload) ep h n) = fst h @ sidecar_commands cm payload ep cs n \<and>
    I (world (propagate_one sv cm (b64_encode payload) ep h n))"
proof -
  obtain h1 where l: "with_docker (ListContainers (sv_docker sv)) h = (Inr cs, h1)" "fst h1 = fst h" "I (world h1)"
    using list_stable[OF assms] by blast
  show ?thesis
    using l exec_commands[of sv cm _ _ h1] exec_stable[OF assms(1) l(3)]
    by (auto simp: propagate_one_def sidecar_commands_def sidecar_name_def reload_command_def split: option.split)
qed

lemma foldl_propagate_commands:
  assumes "stable_listing sv I cs"
  shows "I (world h) \<Longrightarrow> fst (foldl (propagate_one sv cm (b64_encode payload) ep) h ns) =
    fst h @ concat (map (sidecar_commands cm payload ep cs) ns)"
proof (induction ns arbitrary: h)
  case (Cons n ns)
  then show ?case using propagate_one_commands[OF assms Cons.prems, of cm payload ep n] by simp
qed simp

lemma propagate_commands:
  assumes "stable_listing sv I cs" "I (world h)"
  shows "fst (propagateToSidecars sv d payload ep h) = fst h @ concat (map (sidecar_commands (dn_cm d) payload ep cs)
    (map fst (filter (\<lambda>(n, st). ss_Running st) (dn_sandboxes d))))"
  using foldl_propagate_commands[OF assms, of "dn_cm d" payload ep
      "map fst (filter (\<lambda>(n, st). ss_Running st) (dn_sandboxes d))"]
  by (simp add: propagateToSidecars_def Let_def)

lemma b64_char_set: "n < 64 \<Longrightarrow> b64_char n \<in> set b64_alphabet"
  using b64_alphabet_facts(2) by (simp add: b64_char_def)

lemma b64_encode_chars: "set (b64_encode s) \<subseteq> insert (CHR ''='') (set b64_alphabet)"
  by (induction s rule: b64_encode.induct) (auto simp: b64_char_set Let_def)

section \<open>A small daemon for concrete statements\<close>

definition calm_docker :: "(string \<Rightarrow> string option) docker" where
  "calm_docker =
     \<lparr>dk_do = (\<lambda>_ w. (Inr \<lparr>d_Status = 200, d_Text = []\<rparr>, w)), dk_parse_err = (\<lambda>_. None),
      dk_dec_create = (\<lambda>_. Inr ''c1''), dk_dec_inspect = (\<lambda>_. Inl ''no such container''),
      dk_dec_list = (\<lambda>_. Inr []), dk_dec_wait = (\<lambda>_. Inr (0, [])), dk_dec_networks = (\<lambda>_. Inr [])\<rparr>"

definition calm_services :: "(string \<Rightarrow> string option) services" where
  "calm_services =
     \<lparr>sv_os = mem_os, sv_docker = calm_docker, sv_run = (\<lambda>_ _ _ w. (([], [], None), w)), sv_nano = (\<lambda>_. 7),
      sv_listen = (\<lambda>_ w. (None, w)), sv_rules_indent = (\<lambda>_. Inr ''[]''), sv_rules_json = (\<lambda>_. Inr ''[]''),
      sv_secrets_json = (\<lambda>_. Inr ''[]''), sv_states_json = (\<lambda>_. Inr ''{}''), sv_states_of_json = (\<lambda>_. Inr [])\<rparr>"

definition small_ca :: "(string, string, string \<times> string) CACertManager" where
  "small_ca =
     \<lparr>ca_caCert = Some ''dandbox CA'', ca_caKey = Some ''key'', ca_caCertPEM = ''dandbox CA'', ca_caKeyPEM = ''key'',
      ca_certPath = ''/ca/ca-cert.pem'', ca_keyPath = ''/ca/ca-key.pem'', ca_certPool = [''dandbox CA''],
      ca_certCache = Map.empty, ca_caKeySize = 4096\<rparr>"

definition small_config :: "(string, string, string \<times> string) DaemonConfig" where
  "small_config =
     \<lparr>dc_SocketPath = ''/s.sock'', dc_PolicyDir = ''/p'', dc_CACertDir = ''/ca'', dc_DockerSocket = ''/d.sock'',
      dc_StateDir = ''/st'', dc_DefaultImage = [], dc_ProxySidecarImage = [], dc_ProxySidecarBin = [],
      dc_CA = Some small_ca\<rparr>"

definition small_state :: SandboxState where
  "small_state =
     \<lparr>ss_ID = ''box-7'', ss_Name = ''box'', ss_AgentName = ''shell'', ss_Image = [], ss_Workspace = ''/w'',
      ss_ContainerID = [], ss_Running = False, ss_ProxyAddr = ''pending-sidecar'', ss_CreatedAt = 7,
      ss_Labels = [], ss_Secrets = []\<rparr>"

definition small_daemon :: "(string, string, string \<times> string) Daemon" where
  "small_daemon =
     \<lparr>dn_sandboxes = [(''box'', small_state)], dn_cfg = small_config, dn_policy = sample_engine,
      dn_secrets = NewSecretManager, dn_ca = small_ca, dn_cm = NewManager ''/d.sock'' [],
      dn_socketPath = ''/s.sock'', dn_httpServer = True, dn_stateDir = ''/st''\<rparr>"

definition empty_host :: "(string \<Rightarrow> string option) host" where
  "empty_host = ([], [], Map.empty)"

lemma small_daemon_policy [simp]: "dn_policy small_daemon = sample_engine"
  by (simp add: small_daemon_def)

lemma small_daemon_ok: "sandboxes_ok (dn_sandboxes small_daemon)"
  by (simp add: small_daemon_def small_state_def sandboxes_ok_def state_ok_def)

section \<open>Properties\<close>

text \<open>C13: Along every sequence of API requests the table of sandboxes stays in order: names are unique
  and not empty, an entry carries its own name, an agent and a workspace, and a sandbox that runs
  or has a container also has the address of its proxy.\<close>

theorem sandbox_table_invariant:
  assumes "sandboxes_ok (dn_sandboxes d)" "(api_step sv)\<^sup>*\<^sup>* (d, h) (d', h')"
  shows "distinct (map fst (dn_sandboxes d')) \<and>
    (\<forall>n s. map_of (dn_sandboxes d') n = Some s \<longrightarrow>
       n \<noteq> [] \<and> ss_Name s = n \<and> ss_AgentName s \<noteq> [] \<and> ss_Workspace s \<noteq> [] \<and>
       (ss_Running s \<or> ss_ContainerID s \<noteq> [] \<longrightarrow> ss_ProxyAddr s = n @ ''-proxy:3128''))"
proof -
  have "sandboxes_ok (dn_sandboxes d')" using api_reachable_ok[OF assms(2)] assms(1) by simp
  then show ?thesis unfolding sandboxes_ok_alt state_ok_def .
qed

theorem sandbox_table_invariant_witness:
  "\<exists>d' h'. (api_step calm_services)\<^sup>*\<^sup>* (small_daemon, empty_host) (d', h') \<and> distinct (map fst (dn_sandboxes d'))"
proof -
  obtain r d' h' where "route calm_services (StartRuntime ''box'') small_daemon empty_host = (r, d', h')"
    by (metis prod_cases3)
  then have "api_step calm_services (small_daemon, empty_host) (d', h')" by (rule request)
  then have "(api_step calm_services)\<^sup>*\<^sup>* (small_daemon, empty_host) (d', h')" by (rule r_into_rtranclp)
  then show ?thesis using sandbox_table_invariant[OF small_daemon_ok] by blast
qed

text \<open>Requests one after the other.\<close>

definition run_requests ::
  "'w services \<Rightarrow> api_request list \<Rightarrow> ('c, 'k, 't) Daemon \<times> 'w host \<Rightarrow> ('c, 'k, 't) Daemon \<times> 'w host" where
  "run_requests sv qs s = foldl (\<lambda>(d, h) q. snd (route sv q d h)) s qs"

lemma run_requests_ids:
  "ids_upto k (fst s) \<Longrightarrow> k + int (sum_list (map adds qs)) \<le> 2 ^ 63 - 1 \<Longrightarrow>
     ids_upto (k + int (sum_list (map adds qs))) (fst (run_requests sv qs s))"
proof (induction qs arbitrary: s k)
  case Nil
  then show ?case by (simp add: run_requests_def)
next
  case (Cons q qs)
  obtain d h where s: "s = (d, h)" by (cases s)
  have "ids_upto (k + int (adds q)) (fst (snd (route sv q d h)))"
    using route_ids[of k d q sv h] Cons.prems s by simp
  from Cons.IH[OF this] Cons.prems(2) s show ?case by (simp add: run_requests_def add.assoc)
qed

text \<open>C14: The ids of rules stay unique. From a daemon whose rule ids are in order, after any list of API
  requests that cannot push the id counter over the range of a 64-bit integer, no two rules share
  an id and every generated id is below the counter, so that the next rule gets a fresh one.\<close>

theorem rule_ids_stay_unique:
  assumes "ids_ok (dn_policy d)" "e_nextID (dn_policy d) + int (sum_list (map adds qs)) \<le> 2 ^ 63 - 1"
  shows "let pe = dn_policy (fst (run_requests sv qs (d, h))) in
    distinct (map r_ID (e_rules pe)) \<and> ''rule-'' @ itoa (e_nextID pe) \<notin> r_ID ` set (e_rules pe)"
proof -
  have "ids_upto (e_nextID (dn_policy d)) (fst (d, h))" using assms(1) by (simp add: ids_upto_def)
  from run_requests_ids[OF this assms(2)] have "ids_ok (dn_policy (fst (run_requests sv qs (d, h))))"
    by (simp add: ids_upto_def)
  then show ?thesis using fresh_id by (auto simp: ids_ok_def Let_def)
qed

theorem rule_ids_stay_unique_witness:
  "distinct (map r_ID (e_rules (dn_policy (fst (run_requests calm_services
     [PostSetup (Inr ''allow-all''), PostRules (Inr [\<lparr>pa_Action = ''deny'', pa_Resources = [''a.io:443''], pa_Scope = [], pa_ID = []\<rparr>])]
     (small_daemon, empty_host))))))"
proof -
  have "ids_ok (dn_policy small_daemon)" "e_nextID (dn_policy small_daemon) = 3"
    using ids_ok_sample by (simp_all add: sample_engine_def)
  then show ?thesis
    using rule_ids_stay_unique[of small_daemon "[PostSetup (Inr ''allow-all''), PostRules (Inr [\<lparr>pa_Action = ''deny'',
        pa_Resources = [''a.io:443''], pa_Scope = [], pa_ID = []\<rparr>])]" calm_services empty_host]
    by (simp add: Let_def)
qed



lemma handleDeletePolicyRules_rules:
  assumes "handleDeletePolicyRules sv d h = (r, d', h')"
  shows "e_rules (dn_policy d') = []"
  using assms daemon_rules.remove_every_rule[of "(d, h)" "e_rules (dn_policy d)" sv]
  by (auto simp: handleDeletePolicyRules_def ListRules_def split: prod.splits)

lemma foldl_remove_mode:
  "e_defaultMode (dn_policy (fst (foldl (\<lambda>s rule. snd (policy_remove sv (r_ID rule) s)) s rs))) =
     e_defaultMode (dn_policy (fst s))"
proof (induction rs arbitrary: s)
  case (Cons r rs)
  have "e_defaultMode (dn_policy (fst (snd (policy_remove sv i s)))) = e_defaultMode (dn_policy (fst s))" for i s
    by (cases s) (auto simp: policy_remove_def RemoveRule_def Let_def split: prod.splits option.splits)
  then show ?case using Cons.IH by simp
qed simp

text \<open>C33: Deleting all rules leaves no rule at all, not the default ones: the reply shows an empty list,
  and from then on everything is denied by the default mode.\<close>

theorem delete_rules_empties:
  assumes "handleDeletePolicyRules sv d h = (r, d', h')" "e_defaultMode (dn_policy d) \<noteq> ''allow-all''"
  shows "e_rules (dn_policy d') = [] \<and> rp_Body r = Some (VMap [(''status'', VStr ''ok''), (''rules'', VRules [])]) \<and>
    Evaluate uf (dn_policy d') host port sb = (DecisionDeny, ''default-deny'')"
proof -
  note e = handleDeletePolicyRules_rules[OF assms(1)]
  have "e_defaultMode (dn_policy d') \<noteq> ''allow-all''"
    using assms foldl_remove_mode[of sv "(d, h)" "ListRules (dn_policy d)"]
    by (auto simp: handleDeletePolicyRules_def split: prod.splits)
  then show ?thesis
    using e assms(1)
    by (auto simp: handleDeletePolicyRules_def ListRules_def writeJSON_def Evaluate_def eval_start_def Let_def
        split: prod.splits)
qed

theorem delete_rules_empties_witness:
  "\<exists>r d' h'. handleDeletePolicyRules calm_services small_daemon empty_host = (r, d', h') \<and> e_rules (dn_policy d') = []"
proof -
  obtain r d' h' where e: "handleDeletePolicyRules calm_services small_daemon empty_host = (r, d', h')"
    by (metis prod_cases3)
  have "e_defaultMode (dn_policy small_daemon) \<noteq> ''allow-all''" by (simp add: sample_engine_def)
  from delete_rules_empties[OF e this] e show ?thesis by blast
qed

lemma Min_wildcard_allow:
  assumes "WildcardAllow \<in> ks" "ExactDeny \<notin> ks"
  shows "rank_decision (Min ks) = DecisionAllow"
proof -
  have "ks \<noteq> {}" using assms(1) by blast
  from Min_rank[OF this] show ?thesis using assms by (cases "ExactAllow \<in> ks") simp_all
qed

text \<open>C35: The preset deny-all does not take back allow-all: after both presets, in this order, every
  host and port that no exact rule denies is still allowed, because the allow rule of the first
  preset stays and ranks before the new deny rule.\<close>

theorem deny_all_after_allow_all:
  assumes "handleSetPolicyProfile sv (Inr ''allow-all'') d h = (r1, d1, h1)"
    and "handleSetPolicyProfile sv (Inr ''deny-all'') d1 h1 = (r2, d2, h2)"
    and "ExactDeny \<notin> ranks uf (host @ '':'' @ port) sb (e_rules (dn_policy d))"
  shows "rp_Status r2 = 200 \<and> fst (Evaluate uf (dn_policy d2) host port sb) = DecisionAllow"
proof -
  let ?hp = "host @ '':'' @ port"
  define a where "a = \<lparr>r_ID = ''rule-'' @ itoa (e_nextID (dn_policy d)), r_Name = ''allow-all'', r_Decision = ''allow'',
      r_Resources = [''*:*''], r_Scope = []\<rparr>"
  define b where "b = \<lparr>r_ID = ''rule-'' @ itoa (e_nextID (dn_policy d1)), r_Name = ''deny-all'', r_Decision = ''deny'',
      r_Resources = [''*:*''], r_Scope = []\<rparr>"
  have "e_rules (dn_policy d1) = e_rules (dn_policy d) @ [a]"
    using assms(1) by (auto simp: handleSetPolicyProfile_def policy_add_def AddRule_def a_def Let_def split: prod.splits)
  moreover have "e_rules (dn_policy d2) = e_rules (dn_policy d1) @ [b]" "rp_Status r2 = 200"
    using assms(2)
    by (auto simp: handleSetPolicyProfile_def policy_add_def AddRule_def b_def writeJSON_def Let_def split: prod.splits)
  ultimately have rs: "e_rules (dn_policy d2) = e_rules (dn_policy d) @ [a, b]" "rp_Status r2 = 200" by simp_all
  have ab: "applies uf ?hp sb a" "rank_of a = Some WildcardAllow" "rank_of b = Some WildcardDeny"
    by (simp_all add: a_def b_def applies_def in_scope_def matchHostPort_def rank_of_def)
  let ?ks = "ranks uf ?hp sb (e_rules (dn_policy d2))"
  have "WildcardAllow \<in> ?ks" using rs(1) ab by (auto simp: ranks_def)
  moreover have "ExactDeny \<notin> ?ks" using rs(1) ab assms(3) by (auto simp: ranks_def)
  ultimately have "rank_decision (Min ?ks) = DecisionAllow" "?ks \<noteq> {}"
    using Min_wildcard_allow[of ?ks] by auto
  then show ?thesis using rs(2) by (simp add: fst_Evaluate_eq_spec decision_spec_def Let_def)
qed

theorem deny_all_after_allow_all_witness:
  "\<exists>r1 d1 h1 r2 d2 h2. handleSetPolicyProfile calm_services (Inr ''allow-all'') small_daemon empty_host = (r1, d1, h1) \<and>
     handleSetPolicyProfile calm_services (Inr ''deny-all'') d1 h1 = (r2, d2, h2) \<and>
     fst (Evaluate (\<lambda>_ _. False) (dn_policy d2) ''a.io'' ''443'' []) = DecisionAllow"
proof -
  obtain r1 d1 h1 where 1: "handleSetPolicyProfile calm_services (Inr ''allow-all'') small_daemon empty_host = (r1, d1, h1)"
    by (metis prod_cases3)
  obtain r2 d2 h2 where 2: "handleSetPolicyProfile calm_services (Inr ''deny-all'') d1 h1 = (r2, d2, h2)"
    by (metis prod_cases3)
  have "ExactDeny \<notin> ranks (\<lambda>_ _. False) (''a.io'' @ '':'' @ ''443'') [] (e_rules (dn_policy small_daemon))"
    by (auto simp: ranks_def sample_engine_def defaultRules_def rank_of_def)
  from deny_all_after_allow_all[OF 1 2 this] 1 2 show ?thesis by blast
qed

text \<open>C15: Deleting a sandbox removes it from the table, leaves all other entries as they are, and asks
  Docker only to read and to remove containers of that sandbox: the one in its entry, and those
  that Docker lists under its name or the name of its proxy.\<close>

theorem delete_runtime_scoped:
  assumes "map_of (dn_sandboxes d) name = Some s" "name \<noteq> []"
    and "named_ids (sv_docker sv) (''sbx-'' @ name) cids" "named_ids (sv_docker sv) (sidecar_name name) cids"
    and "ss_ContainerID s \<in> insert [] cids" "handleDeleteRuntime sv name d h = (r, d', h')"
  shows "rp_Status r = 204 \<and> map_of (dn_sandboxes d') = (map_of (dn_sandboxes d))(name := None) \<and>
    dn_policy d' = dn_policy d \<and>
    (\<exists>rs. docker_trace h' = docker_trace h @ rs \<and> list_all (deletes_only cids) rs)"
proof -
  let ?h1 = "remove_sandbox_container sv name s h"
  have "adds_requests (deletes_only cids) h (remove_named sv (sidecar_name name) ?h1)"
    using remove_sandbox_trace[OF assms(3,5)] remove_named_trace[OF assms(4)] adds_requests_trans by blast
  then have "adds_requests (deletes_only cids) h h'"
    using assms(1,2,6) by (auto simp: handleDeleteRuntime_def Let_def intro: adds_requests_save)
  moreover have "rp_Status r = 204" "d' = d\<lparr>dn_sandboxes := AList.delete name (dn_sandboxes d)\<rparr>"
    using assms(1,2,6) by (auto simp: handleDeleteRuntime_def writeStatus_def Let_def)
  ultimately show ?thesis by (simp add: delete_conv' adds_requests_def)
qed

theorem delete_runtime_scoped_witness:
  "\<exists>r d' h'. handleDeleteRuntime calm_services ''box'' small_daemon empty_host = (r, d', h') \<and> rp_Status r = 204 \<and>
     map_of (dn_sandboxes d') ''box'' = None \<and> list_all (deletes_only {}) (docker_trace h')"
proof -
  obtain r d' h' where e: "handleDeleteRuntime calm_services ''box'' small_daemon empty_host = (r, d', h')"
    by (metis prod_cases3)
  have s: "map_of (dn_sandboxes small_daemon) ''box'' = Some small_state" "ss_ContainerID small_state \<in> insert [] {}"
    by (simp_all add: small_daemon_def small_state_def)
  have "named_ids (sv_docker calm_services) nm {}" for nm
    by (auto simp: named_ids_def ListContainers_def httpClient_Get_def httpClient_Do_def calm_services_def calm_docker_def)
  from delete_runtime_scoped[OF s(1) _ this this s(2) e] e show ?thesis
    by (auto simp: empty_host_def)
qed

lemma secret_env_values:
  assumes "map (\<lambda>s. (s_EnvName s, s_Sentinel s)) (GetSecrets a) = map (\<lambda>s. (s_EnvName s, s_Sentinel s)) (GetSecrets b)"
  shows "secret_env (Some a) = secret_env (Some b)"
proof -
  have "secret_env (Some m) = map (\<lambda>(n, t). n @ ''='' @ t)
      (filter (\<lambda>(n, t). n \<noteq> [] \<and> t \<noteq> []) (map (\<lambda>s. (s_EnvName s, s_Sentinel s)) (GetSecrets m)))" for m
    by (simp add: secret_env_def filter_map comp_def)
  then show ?thesis using assms by simp
qed

text \<open>C11: What Docker is asked when a sandbox is created and started does not depend on the value of
  any secret: two sets of secrets that agree in their environment names and sentinels give the
  same requests, the same result and the same state of the host. No secret value reaches the
  sandbox container this way.\<close>

theorem start_independent_of_secret_values:
  assumes "map (\<lambda>s. (s_EnvName s, s_Sentinel s)) (GetSecrets a) = map (\<lambda>s. (s_EnvName s, s_Sentinel s)) (GetSecrets b)"
  shows "createAndStartContainer sv cm (cfg\<lparr>cc_Secrets := Some a\<rparr>) h =
    createAndStartContainer sv cm (cfg\<lparr>cc_Secrets := Some b\<rparr>) h"
  using secret_env_values[OF assms] by (simp add: createAndStartContainer_def sandbox_env_def)

definition keyed :: "string \<Rightarrow> SecretManager" where
  "keyed v = SetSecrets [\<lparr>s_Target = ''a.io'', s_EnvName = ''K'', s_Sentinel = ''@K@'', s_Value = v\<rparr>] NewSecretManager"

theorem start_independent_of_secret_values_witness:
  "createAndStartContainer calm_services (NewManager ''/d.sock'' [])
     ((start_config ''box'' small_state small_daemon)\<lparr>cc_Secrets := Some (keyed ''one'')\<rparr>) empty_host =
   createAndStartContainer calm_services (NewManager ''/d.sock'' [])
     ((start_config ''box'' small_state small_daemon)\<lparr>cc_Secrets := Some (keyed ''two'')\<rparr>) empty_host"
  by (rule start_independent_of_secret_values) (simp add: keyed_def GetSecrets_def SetSecrets_def)

text \<open>C12: Propagation reaches exactly the sidecars that run. While the containers stay as Docker lists
  them, the commands run are, for each sandbox the daemon believes running and in the order of the
  table, one docker exec in the container named sbx-<sandbox>-proxy if it is listed with an id and
  running, and none otherwise. The command is a fixed shell line in which only the base64 text
  of the payload and the endpoint vary; this text has no character that is special to the shell
  and decodes to the payload.\<close>

theorem propagation_commands:
  assumes "\<And>t w. I w \<Longrightarrow> \<exists>t' w'. ListContainers (sv_docker sv) (t, w) = (Inr cs, t', w') \<and> I w'"
    and "\<And>args w. I w \<Longrightarrow> I (snd (RunCmd (sv_run sv) None ''docker'' args w))" and "I (world h)"
  shows "fst (propagateToSidecars sv d payload ep h) = fst h @
      concat (map (\<lambda>(name, st).
        if \<not> ss_Running st then []
        else (case find (\<lambda>c. c_Name c = ''sbx-'' @ name @ ''-proxy'') cs of
                None \<Rightarrow> []
              | Some c \<Rightarrow>
                  (if c_ID c = [] \<or> \<not> c_Running c then []
                   else [[''docker'', ''--host'', ''unix://'' @ DockerSocketPath (dn_cm d), ''exec'', c_ID c, ''sh'', ''-c'',
                     ''printf '' @ sq @ ''%s'' @ sq @ '' '' @ b64_encode payload @
                     '' | base64 -d | curl -s -X POST http://localhost:9099'' @ ep @
                     '' -H '' @ sq @ ''Content-Type: application/json'' @ sq @ '' -d @-'']])))
        (dn_sandboxes d)) \<and>
    set (b64_encode payload) \<subseteq> insert (CHR ''='') (set b64_alphabet) \<and> b64_decode (b64_encode payload) = Some payload"
proof -
  have st: "stable_listing sv I cs" using assms(1,2) by (simp add: stable_listing_def)
  have "concat (map (sidecar_commands (dn_cm d) payload ep cs) (map fst (filter (\<lambda>(n, st). ss_Running st) sb))) =
      concat (map (\<lambda>(name, st). if \<not> ss_Running st then [] else sidecar_commands (dn_cm d) payload ep cs name) sb)" for sb
    by (induction sb) auto
  then have run: "fst (propagateToSidecars sv d payload ep h) = fst h @ concat (map (\<lambda>(name, st).
      if \<not> ss_Running st then [] else sidecar_commands (dn_cm d) payload ep cs name) (dn_sandboxes d))"
    using propagate_commands[OF st assms(3), of d payload ep] by simp
  have sc: "sidecar_commands (dn_cm d) payload ep cs name =
      (case find (\<lambda>c. c_Name c = ''sbx-'' @ name @ ''-proxy'') cs of
         None \<Rightarrow> []
       | Some c \<Rightarrow>
           (if c_ID c = [] \<or> \<not> c_Running c then []
            else [[''docker'', ''--host'', ''unix://'' @ DockerSocketPath (dn_cm d), ''exec'', c_ID c, ''sh'', ''-c'',
              ''printf '' @ sq @ ''%s'' @ sq @ '' '' @ b64_encode payload @
              '' | base64 -d | curl -s -X POST http://localhost:9099'' @ ep @
              '' -H '' @ sq @ ''Content-Type: application/json'' @ sq @ '' -d @-'']]))" for name
    by (auto simp: sidecar_commands_def reload_command_def curl_cmd_def split: option.split)
  show ?thesis using b64_encode_chars[of payload] b64_decode_encode[of payload] run by (simp only: sc simp_thms)
qed

text \<open>A Docker that lists the sandbox container and the sidecar of the sandbox \<open>box\<close>, both running.\<close>

definition listed :: "string \<Rightarrow> string \<Rightarrow> ListEntry" where
  "listed cid name = \<lparr>l_Id = cid, l_Names = [''/'' @ name], l_Image = [], l_State = ''running'', l_Ports = []\<rparr>"

definition listing_services :: "(string \<Rightarrow> string option) services" where
  "listing_services = calm_services
     \<lparr>sv_docker := calm_docker\<lparr>dk_dec_list := \<lambda>_. Inr [listed ''c1'' ''sbx-box'', listed ''c2'' ''sbx-box-proxy'']\<rparr>\<rparr>"

definition running_daemon :: "(string, string, string \<times> string) Daemon" where
  "running_daemon = small_daemon\<lparr>dn_sandboxes := [(''off'', small_state), (''box'', small_state\<lparr>ss_Running := True\<rparr>)]\<rparr>"

theorem propagation_commands_witness:
  "\<exists>shell. fst (propagateToSidecars listing_services running_daemon ''{}'' ''/policy/reload'' empty_host) =
     [[''docker'', ''--host'', ''unix:///d.sock'', ''exec'', ''c2'', ''sh'', ''-c'', shell]]"
proof -
  let ?cs = "map list_container [listed ''c1'' ''sbx-box'', listed ''c2'' ''sbx-box-proxy'']"
  have l: "\<exists>t' w'. ListContainers (sv_docker listing_services) (t, w) = (Inr ?cs, t', w') \<and> True" for t w
    by (simp add: ListContainers_def httpClient_Get_def httpClient_Do_def listing_services_def calm_docker_def)
  have f: "find (\<lambda>c. c_Name c = ''sbx-'' @ ''box'' @ ''-proxy'') ?cs = Some (list_container (listed ''c2'' ''sbx-box-proxy''))"
    by (simp add: list_container_def listed_def TrimPrefix_def)
  from propagation_commands[where I = "\<lambda>_. True" and cs = ?cs and d = running_daemon and h = empty_host
      and payload = "''{}''" and ep = "''/policy/reload''", OF l TrueI TrueI] f
  show ?thesis
    by (simp add: running_daemon_def small_daemon_def small_state_def empty_host_def DockerSocketPath_def NewManager_def
        list_container_def listed_def)
qed

text \<open>C37: A restart keeps the sandboxes but not the policy. A daemon started over a state file that
  holds the table of an earlier daemon has that table, but its rules are the two default ones
  (the file of saved rules is never read) and it has no secrets.\<close>

theorem restart_keeps_sandboxes_only:
  assumes "NewDaemon x sv cfg w = (Inr d', w')"
    and "ReadFile (sv_os sv) (Join [dn_stateDir d', ''sandboxes.json'']) w' = Inr data"
    and "sv_states_of_json sv data = Inr (dn_sandboxes d)"
  shows "dn_sandboxes d' = dn_sandboxes d \<and> e_rules (dn_policy d') = defaultRules \<and> GetSecrets (dn_secrets d') = []"
proof -
  obtain pol d0 where "d' = loadState sv d0 w'" and p: "dn_policy d0 = pol" "dn_secrets d0 = NewSecretManager"
    and pol: "e_rules pol = defaultRules"
    using assms(1)
    by (auto simp: NewDaemon_def NewEngine_def newEngine_at_def Let_def split: prod.splits option.splits sum.splits if_splits)
  moreover have "dn_stateDir d' = dn_stateDir d0" "dn_policy d' = dn_policy d0" "dn_secrets d' = dn_secrets d0"
    using calculation(1) by (auto simp: loadState_def split: sum.splits)
  ultimately show ?thesis
    using assms(2,3) by (simp add: loadState_def GetSecrets_def NewSecretManager_def)
qed

theorem restart_keeps_sandboxes_only_witness:
  "\<exists>d' w'. NewDaemon clear_x509 calm_services small_config [''/st/sandboxes.json'' \<mapsto> ''{}''] = (Inr d', w') \<and>
     dn_sandboxes d' = [] \<and> e_rules (dn_policy d') = defaultRules"
proof -
  let ?run = "NewDaemon clear_x509 calm_services small_config [''/st/sandboxes.json'' \<mapsto> ''{}'']"
  have "\<not> isl (fst ?run)" by code_simp
  then obtain d' where "fst ?run = Inr d'" by (metis sum.collapse(2))
  then obtain w' where r: "?run = (Inr d', w')" by (metis prod.collapse)
  have "dn_stateDir (projr (fst ?run)) = ''/st''" "Join [''/st'', ''sandboxes.json''] = ''/st/sandboxes.json''" by code_simp+
  then have "Join [dn_stateDir d', ''sandboxes.json''] = ''/st/sandboxes.json''" using r by simp
  moreover have "snd ?run ''/st/sandboxes.json'' = Some ''{}''" by code_simp
  ultimately have "ReadFile (sv_os calm_services) (Join [dn_stateDir d', ''sandboxes.json'']) w' = Inr ''{}''"
    using r by (simp add: calm_services_def mem_os_def)
  from restart_keeps_sandboxes_only[OF r this, of "small_daemon\<lparr>dn_sandboxes := []\<rparr>"] r show ?thesis
    by (simp add: calm_services_def)
qed

text \<open>A container under a name: \<open>ex\<close> holds of the worlds in which it exists. Only a DELETE request makes
  it go away, writing files does not, and while it exists Docker answers a request to create
  another one under that name with 409.\<close>

definition container_kept :: "'w services \<Rightarrow> ('w \<Rightarrow> bool) \<Rightarrow> string \<Rightarrow> bool" where
  "container_kept sv ex cname \<longleftrightarrow>
     (\<forall>r w. ex w \<and> d_Method r \<noteq> ''DELETE'' \<longrightarrow> ex (snd (dk_do (sv_docker sv) r w))) \<and>
     (\<forall>f data mode w. ex w \<longrightarrow> ex (snd (WriteFile (sv_os sv) f data mode w))) \<and>
     (\<forall>r w. ex w \<and> d_Method r = ''POST'' \<and> d_URL r = api @ ''/containers/create?name='' @ cname \<longrightarrow>
        (\<exists>t w'. dk_do (sv_docker sv) r w = (Inr \<lparr>d_Status = 409, d_Text = t\<rparr>, w')))"

lemma kept_Do:
  "container_kept sv ex cname \<Longrightarrow> ex (snd tw) \<Longrightarrow> d_Method r \<noteq> ''DELETE'' \<Longrightarrow>
     httpClient_Do (sv_docker sv) r tw = (x, tw') \<Longrightarrow> ex (snd tw')"
  unfolding container_kept_def httpClient_Do_def by (force split: prod.splits)

lemma kept_Get:
  assumes "container_kept sv ex cname" "ex (snd tw)"
  shows "ex (snd (snd (httpClient_Get (sv_docker sv) url tw)))"
  using assms(2) kept_Do[OF assms, of "\<lparr>d_Method = ''GET'', d_URL = url, d_Header = [], d_Body = None\<rparr>"]
  by (cases "httpClient_Get (sv_docker sv) url tw") (simp add: httpClient_Get_def)

lemma kept_network:
  assumes "container_kept sv ex cname" "ex (snd tw)"
  shows "ex (snd (snd (ensureNetwork (sv_docker sv) m tw)))"
proof -
  let ?url = "api @ ''/networks?filters={'' @ dq @ ''name'' @ dq @ '':['' @ dq @ mg_networkName m @ dq @ '']}''"
  obtain q tw1 where q: "httpClient_Get (sv_docker sv) ?url tw = (q, tw1)" "ex (snd tw1)"
    using kept_Get[OF assms, of ?url] by (metis prod.collapse)
  then show ?thesis
    unfolding ensureNetwork_def Let_def q(1)
    by (auto split: prod.split sum.split option.split dest: kept_Do[OF assms(1), rotated 2])
qed

lemma kept_image:
  assumes "container_kept sv ex cname" "ex (snd tw)"
  shows "ex (snd (snd (imageExists (sv_docker sv) img tw)))"
  using assms(2)
  by (auto simp: imageExists_def httpClient_Get_def split: prod.split sum.split dest: kept_Do[OF assms(1), rotated 2])

lemma kept_pull:
  assumes "container_kept sv ex cname" "ex (snd tw)"
  shows "ex (snd (snd (pullImage (sv_docker sv) img tw)))"
proof -
  obtain q tw1 where q: "imageExists (sv_docker sv) img tw = (q, tw1)" "ex (snd tw1)"
    using kept_image[OF assms, of img] by (metis prod.collapse)
  then show ?thesis
    by (auto simp: pullImage_def Let_def split: prod.split sum.split option.split dest: kept_Do[OF assms(1), rotated 2])
qed

lemma kept_stop:
  assumes "container_kept sv ex cname" "ex (snd tw)"
  shows "ex (snd (snd (StopContainer (sv_docker sv) cid tw)))"
  using assms(2)
  by (auto simp: StopContainer_def simple_call_def Let_def split: prod.split sum.split option.split
      dest: kept_Do[OF assms(1), rotated 2])

lemma kept_save: "container_kept sv ex cname \<Longrightarrow> ex (world h) \<Longrightarrow> ex (world (saveState sv d h))"
  by (auto simp: container_kept_def saveState_def world_def set_world_def split: sum.split)

lemma post_create_taken:
  assumes "container_kept sv ex cname" "ex (snd tw)"
  shows "\<exists>e tw'. post_create (sv_docker sv) pp dp img cname sb body tw = (Inl e, tw') \<and> ex (snd tw')"
proof -
  let ?r = "\<lparr>d_Method = ''POST'', d_URL = api @ ''/containers/create?name='' @ cname, d_Header = json_content, d_Body = Some body\<rparr>"
  obtain t w' where "dk_do (sv_docker sv) ?r (snd tw) = (Inr \<lparr>d_Status = 409, d_Text = t\<rparr>, w')"
    using assms unfolding container_kept_def by (metis DockerReq.select_convs(1,2))
  then have d: "httpClient_Do (sv_docker sv) ?r tw = (Inr \<lparr>d_Status = 409, d_Text = t\<rparr>, fst tw @ [?r], w')"
    by (simp add: httpClient_Do_def)
  have "ex w'" using kept_Do[OF assms _ d] by simp
  then show ?thesis
    using d assms(2) by (cases "dk_parse_err (sv_docker sv) (api @ ''/containers/create?name='' @ cname)")
      (simp_all add: post_create_def Let_def)
qed

lemma CreateContainer_taken:
  assumes "container_kept sv ex (''sbx-'' @ sb)" "ex (snd tw)"
  shows "\<exists>e tw'. CreateContainer (sv_os sv) (sv_docker sv) m img args env sb tw = (Inl e, tw') \<and> ex (snd tw')"
proof -
  obtain n tw1 where n: "ensureNetwork (sv_docker sv) m tw = (n, tw1)" "ex (snd tw1)"
    using kept_network[OF assms, of m] by (metis prod.collapse)
  obtain q tw2 where q: "pullImage (sv_docker sv) img tw1 = (q, tw2)" "ex (snd tw2)"
    using kept_pull[OF assms(1) n(2), of img] by (metis prod.collapse)
  show ?thesis
    using n q post_create_taken[OF assms(1) q(2)] by (cases n; cases q) (simp_all add: CreateContainer_def)
qed

lemma createAndStart_taken:
  assumes "container_kept sv ex (''sbx-'' @ cc_Name cfg)" "ex (world h)"
  shows "\<exists>e h1. createAndStartContainer sv cm cfg h = (Inl e, h1) \<and> ex (world h1)"
  using CreateContainer_taken[OF assms(1), of "snd h" cm "cc_Image cfg" sandbox_args "sandbox_env cfg"] assms(2)
  by (auto simp: createAndStartContainer_def with_docker_def world_def)

lemma start_taken:
  assumes "map_of (dn_sandboxes d) name = Some s" "name \<noteq> []" "\<not> ss_Running s"
    and "container_kept sv ex (''sbx-'' @ name)" "ex (world h)" "handleStartRuntime sv name d h = (r, d', h')"
  shows "rp_Status r = 500 \<and> ex (world h') \<and> dn_sandboxes d' = dn_sandboxes d"
proof -
  let ?d1 = "d\<lparr>dn_secrets := start_secrets s (dn_secrets d)\<rparr>"
  have "container_kept sv ex (''sbx-'' @ cc_Name (start_config name s ?d1))"
    using assms(4) by (simp add: start_config_def)
  from createAndStart_taken[OF this assms(5), of "dn_cm ?d1"]
  obtain e h1 where "createAndStartContainer sv (dn_cm ?d1) (start_config name s ?d1) h = (Inl e, h1)" "ex (world h1)"
    by blast
  then show ?thesis using assms(1,2,3,6) by (auto simp: handleStartRuntime_def writeError_def writeJSON_def Let_def)
qed

text \<open>C36: A stopped sandbox cannot be started again while its container exists. Stopping asks Docker for
  nothing but to stop the container, so the container stays; starting never removes it or starts it
  again but creates one under the same name, which Docker refuses. The reply is an error 500,
  the container is still there, and the entry still says that the sandbox does not run.\<close>

theorem stopped_sandbox_does_not_restart:
  assumes "map_of (dn_sandboxes d) name = Some s" "name \<noteq> []" "ex (world h)"
    and "\<And>r w. ex w \<Longrightarrow> d_Method r \<noteq> ''DELETE'' \<Longrightarrow> ex (snd (dk_do (sv_docker sv) r w))"
    and "\<And>f data mode w. ex w \<Longrightarrow> ex (snd (WriteFile (sv_os sv) f data mode w))"
    and "\<And>r w. ex w \<Longrightarrow> d_Method r = ''POST'' \<Longrightarrow> d_URL r = api @ ''/containers/create?name=sbx-'' @ name \<Longrightarrow>
      \<exists>t w'. dk_do (sv_docker sv) r w = (Inr \<lparr>d_Status = 409, d_Text = t\<rparr>, w')"
    and "handleStopRuntime sv name d h = (r1, d1, h1)" "handleStartRuntime sv name d1 h1 = (r2, d2, h2)"
  shows "rp_Status r1 = 204 \<and> rp_Status r2 = 500 \<and> ex (world h2) \<and>
    map_of (dn_sandboxes d2) name = Some (s\<lparr>ss_Running := False\<rparr>) \<and>
    (\<exists>rs. docker_trace h1 = docker_trace h @ rs \<and>
       list_all (\<lambda>r. d_Method r = ''POST'' \<and> d_URL r = api @ ''/containers/'' @ ss_ContainerID s @ ''/stop'') rs)"
proof -
  let ?P = "\<lambda>r. d_Method r = ''POST'' \<and> d_URL r = api @ ''/containers/'' @ ss_ContainerID s @ ''/stop''"
  have k: "container_kept sv ex (''sbx-'' @ name)" using assms(4,5,6) by (simp add: container_kept_def)
  obtain q h0 where st: "with_docker (StopContainer (sv_docker sv) (ss_ContainerID s)) h = (q, h0)"
    by (cases "with_docker (StopContainer (sv_docker sv) (ss_ContainerID s)) h")
  have "adds_requests ?P h h0"
    using with_docker_trace[OF st] stop_op.trace_grows[of "sv_docker sv" "ss_ContainerID s" "snd h"] by blast
  then have "adds_requests ?P h h1"
    using assms(1,2,7) st by (auto simp: handleStopRuntime_def Let_def split: if_splits intro: adds_requests_save)
  moreover have r1: "rp_Status r1 = 204" "map_of (dn_sandboxes d1) name = Some (s\<lparr>ss_Running := False\<rparr>)"
    using assms(1,2,7) by (auto simp: handleStopRuntime_def writeStatus_def update_conv' Let_def)
  have "ex (world h0)"
    using st kept_stop[OF k, of "snd h" "ss_ContainerID s"] assms(3) by (auto simp: with_docker_def world_def split: prod.splits)
  then have "ex (world h1)"
    using assms(1,2,3,7) st by (auto simp: handleStopRuntime_def Let_def intro!: kept_save[OF k] split: if_splits)
  from start_taken[OF r1(2) assms(2) _ k this assms(8)] r1
  have "rp_Status r2 = 500" "ex (world h2)" "map_of (dn_sandboxes d2) name = Some (s\<lparr>ss_Running := False\<rparr>)" by simp_all
  ultimately show ?thesis using r1 by (simp add: adds_requests_def)
qed

text \<open>A Docker that knows the network and every image, and keeps its containers in the world by name.\<close>

definition naming_docker :: "(string \<Rightarrow> string option) docker" where
  "naming_docker = calm_docker
     \<lparr>dk_do := (\<lambda>r w.
        if d_Method r = ''POST'' \<and> prefix (api @ ''/containers/create?name='') (d_URL r)
        then (let key = drop (length (api @ ''/containers/create?name='')) (d_URL r) in
              if w key \<noteq> None then (Inr \<lparr>d_Status = 409, d_Text = ''Conflict''\<rparr>, w)
              else (Inr \<lparr>d_Status = 201, d_Text = []\<rparr>, w(key \<mapsto> [])))
        else if d_Method r = ''DELETE'' then (Inr \<lparr>d_Status = 204, d_Text = []\<rparr>, w(''sbx-box'' := None))
        else (Inr \<lparr>d_Status = 200, d_Text = []\<rparr>, w)),
      dk_dec_networks := (\<lambda>_. Inr [(''n1'', ''sandbox-net'')])\<rparr>"

definition naming_services :: "(string \<Rightarrow> string option) services" where
  "naming_services = calm_services\<lparr>sv_docker := naming_docker\<rparr>"

lemma naming_network: "\<exists>t'. ensureNetwork naming_docker (NewManager sock dir) (t, w) = (None, t', w)"
  by (simp add: ensureNetwork_def httpClient_Get_def httpClient_Do_def network_known_def naming_docker_def NewManager_def Let_def)

lemma naming_pull: "\<exists>t'. pullImage naming_docker img (t, w) = (None, t', w)"
  by (simp add: pullImage_def imageExists_def httpClient_Get_def httpClient_Do_def naming_docker_def)

lemma naming_post:
  assumes "w ''sbx-box'' \<noteq> None"
  shows "\<exists>e t'. post_create naming_docker pp dp img ''sbx-box'' sb body (t, w) = (Inl e, t', w) \<and>
    d_URL (last t') = api @ ''/containers/create?name=sbx-box''"
proof -
  let ?u = "api @ ''/containers/create?name=''"
  have "drop (length u) (u @ v) = v" for u v :: string by simp
  from this[of ?u "''sbx-box''"] have "drop (length ?u) (?u @ ''sbx-box'') = ''sbx-box''" .
  then show ?thesis
    using assms by (simp add: post_create_def httpClient_Do_def naming_docker_def calm_docker_def Let_def)
qed

lemma naming_start:
  assumes "w ''sbx-box'' \<noteq> None" "cc_Name cfg = ''box''"
  shows "\<exists>e t'. createAndStartContainer naming_services (NewManager sock dir) cfg (c, t, w) = (Inl e, c, t', w) \<and>
    d_URL (last t') = api @ ''/containers/create?name=sbx-box''"
proof -
  obtain t1 where 1: "ensureNetwork naming_docker (NewManager sock dir) (t, w) = (None, t1, w)" using naming_network by blast
  obtain t2 where 2: "pullImage naming_docker (cc_Image cfg) (t1, w) = (None, t2, w)" using naming_pull by blast
  let ?body = "create_body (NewManager sock dir) (cc_Image cfg) sandbox_args (sandbox_env cfg) (read_ca (sv_os naming_services) w)"
  obtain e t3 where "post_create naming_docker ''create request: '' ''create container: '' (cc_Image cfg) ''sbx-box'' ''box''
      ?body (t2, w) = (Inl e, t3, w)" "d_URL (last t3) = api @ ''/containers/create?name=sbx-box''"
    using naming_post[of w, OF assms(1)] by blast
  with 1 2 show ?thesis
    by (simp add: createAndStartContainer_def CreateContainer_def with_docker_def naming_services_def assms(2))
qed

definition box_host :: "(string \<Rightarrow> string option) host" where
  "box_host = ([], [], [''sbx-box'' \<mapsto> []])"

definition box_daemon :: "(string, string, string \<times> string) Daemon" where
  "box_daemon = small_daemon\<lparr>dn_sandboxes := [(''box'', small_state\<lparr>ss_ContainerID := ''c1'', ss_Running := True\<rparr>)]\<rparr>"

theorem stopped_sandbox_does_not_restart_witness:
  "\<exists>r1 d1 h1 r2 d2 h2. handleStopRuntime naming_services ''box'' box_daemon box_host = (r1, d1, h1) \<and>
     handleStartRuntime naming_services ''box'' d1 h1 = (r2, d2, h2) \<and> rp_Status r1 = 204 \<and> rp_Status r2 = 500 \<and>
     d_URL (last (docker_trace h2)) = api @ ''/containers/create?name=sbx-box''"
proof -
  let ?ex = "\<lambda>w :: string \<Rightarrow> string option. w ''sbx-box'' \<noteq> None"
  obtain r1 d1 h1 where 1: "handleStopRuntime naming_services ''box'' box_daemon box_host = (r1, d1, h1)"
    by (metis prod_cases3)
  obtain r2 d2 h2 where 2: "handleStartRuntime naming_services ''box'' d1 h1 = (r2, d2, h2)"
    by (metis prod_cases3)
  have m: "map_of (dn_sandboxes box_daemon) ''box'' = Some (small_state\<lparr>ss_ContainerID := ''c1'', ss_Running := True\<rparr>)"
    by (simp add: box_daemon_def)
  have k: "?ex w \<Longrightarrow> d_Method r \<noteq> ''DELETE'' \<Longrightarrow> ?ex (snd (dk_do (sv_docker naming_services) r w))"
    "?ex w \<Longrightarrow> ?ex (snd (WriteFile (sv_os naming_services) f data mode w))"
    "?ex w \<Longrightarrow> d_Method r = ''POST'' \<Longrightarrow> d_URL r = api @ ''/containers/create?name=sbx-'' @ ''box'' \<Longrightarrow>
      \<exists>t w'. dk_do (sv_docker naming_services) r w = (Inr \<lparr>d_Status = 409, d_Text = t\<rparr>, w')" for r w f data mode
    by (simp_all add: naming_services_def naming_docker_def calm_services_def mem_os_def api_def Let_def)
  have w: "''box'' \<noteq> []" "?ex (world box_host)" by (simp_all add: box_host_def world_def)
  note c = stopped_sandbox_does_not_restart[where ex = ?ex, OF m w k 1 2]
  have "rp_Status r1 = 204" by (rule conjunct1[OF c])
  moreover have "rp_Status r2 = 500" by (rule conjunct1[OF conjunct2[OF c]])
  moreover have "d_URL (last (docker_trace h2)) = api @ ''/containers/create?name=sbx-box''"
  proof -
    let ?s = "small_state\<lparr>ss_ContainerID := ''c1'', ss_Running := False\<rparr>"
    have d1: "map_of (dn_sandboxes d1) ''box'' = Some ?s" "dn_cm d1 = NewManager ''/d.sock'' []"
      using 1 by (auto simp: handleStopRuntime_def box_daemon_def small_daemon_def Let_def)
    obtain c t w where h1: "h1 = (c, t, w)" by (metis prod_cases3)
    have "ex (world h1)" if "container_kept naming_services ex (''sbx-'' @ ''box'')" "ex (world box_host)" for ex
      using 1 that kept_stop[OF that(1), of "snd box_host" "''c1''"]
      by (auto simp: handleStopRuntime_def box_daemon_def Let_def with_docker_def world_def
          intro!: kept_save[OF that(1), unfolded world_def] split: prod.splits)
    moreover have "container_kept naming_services ?ex (''sbx-'' @ ''box'')" using k unfolding container_kept_def by simp
    ultimately have "w ''sbx-box'' \<noteq> None" using w(2) h1 by (auto simp: world_def)
    from naming_start[of w, OF this, of "start_config ''box'' ?s (d1\<lparr>dn_secrets := start_secrets ?s (dn_secrets d1)\<rparr>)" "''/d.sock''" "[]" c t]
    show ?thesis
      using 2 d1 h1 by (auto simp: handleStartRuntime_def start_config_def Let_def small_state_def)
  qed
  ultimately show ?thesis using 1 2 by blast
qed

end
