(* ===== verification/Creations.thy ===== *)
theory Creations
  imports DaemonFacts
begin

text \<open>
  Concurrent create requests (\<^verbatim>\<open>handleCreateRuntime\<close> of src/internal/daemon/daemon.go) over the step
  relation \<open>create_step\<close>: the lock has one holder, the handler by itself is a run of the steps, a
  name that is settled in the table is refused to every later request, and what the gap between
  the two critical sections allows.
\<close>

section \<open>The lock\<close>

definition holds_lock :: "create_pc option \<Rightarrow> bool" where
  "holds_lock p = (case p of Some (Checking _) \<Rightarrow> True | Some (Inserting _ _) \<Rightarrow> True | _ \<Rightarrow> False)"

definition lock_inv :: "('c, 'k, 't, 'w) create_system \<Rightarrow> bool" where
  "lock_inv s \<longleftrightarrow> (\<forall>i. holds_lock (cr_reqs s i) \<longleftrightarrow> cr_lock s = Some i)"

lemma lock_invD: "lock_inv s \<Longrightarrow> cr_lock s = Some i \<longleftrightarrow> holds_lock (cr_reqs s i)"
  by (simp add: lock_inv_def)

text \<open>One request moves, and takes the free lock, releases its own, or leaves the lock alone.\<close>

lemma lock_inv_move:
  assumes "lock_inv s" "cr_reqs s' = (cr_reqs s)(i := cr_reqs s' i)" "holds_lock (cr_reqs s' i) = (cr_lock s' = Some i)"
    and "cr_lock s' = cr_lock s \<or> cr_lock s = None \<and> cr_lock s' = Some i \<or> cr_lock s = Some i \<and> cr_lock s' = None"
  shows "lock_inv s'"
  unfolding lock_inv_def
proof
  fix j
  show "holds_lock (cr_reqs s' j) = (cr_lock s' = Some j)"
  proof (cases "j = i")
    case False
    then have "cr_reqs s' j = cr_reqs s j" using assms(2) by (metis fun_upd_other)
    then show ?thesis using False assms(4) lock_invD[OF assms(1), of j] by auto
  qed (use assms(3) in simp)
qed

lemma lock_inv_step: "create_step sv s s' \<Longrightarrow> lock_inv s \<Longrightarrow> lock_inv s'"
proof (induction rule: create_step.induct)
  case (arrive s i body)
  then show ?case by - (rule lock_inv_move[of s _ i]; simp add: lock_invD holds_lock_def)
next
  case (invalid s i body r)
  then show ?case by - (rule lock_inv_move[of s _ i]; simp add: lock_invD holds_lock_def)
next
  case (valid s i body req)
  then show ?case by - (rule lock_inv_move[of s _ i]; simp add: lock_invD holds_lock_def)
next
  case (lock_check s i req)
  then show ?case by - (rule lock_inv_move[of s _ i]; simp add: holds_lock_def)
next
  case (conflict s i req r)
  then show ?case by - (rule lock_inv_move[of s _ i]; simp add: holds_lock_def)
next
  case (no_conflict s i req)
  then show ?case by - (rule lock_inv_move[of s _ i]; simp add: holds_lock_def)
next
  case (build s i req)
  then show ?case by - (rule lock_inv_move[of s _ i]; simp add: lock_invD holds_lock_def)
next
  case (lock_insert s i req state)
  then show ?case by - (rule lock_inv_move[of s _ i]; simp add: holds_lock_def)
next
  case (insert s i req state)
  then show ?case by - (rule lock_inv_move[of s _ i]; simp add: holds_lock_def)
next
  case (save s i req state)
  then show ?case by - (rule lock_inv_move[of s _ i]; simp add: lock_invD holds_lock_def)
qed (simp add: lock_inv_def)

lemma lock_inv_run: "(create_step sv)\<^sup>*\<^sup>* s s' \<Longrightarrow> lock_inv s \<Longrightarrow> lock_inv s'"
  by (induction rule: rtranclp_induct) (auto intro: lock_inv_step)

section \<open>Runs of one request\<close>

text \<open>The request \<open>i\<close> is at \<open>pc\<close>; the lock is free.\<close>

definition at_pc ::
  "nat \<Rightarrow> create_pc \<Rightarrow> ('c, 'k, 't) Daemon \<Rightarrow> 'w host \<Rightarrow> ('c, 'k, 't, 'w) create_system \<Rightarrow> ('c, 'k, 't, 'w) create_system" where
  "at_pc i pc d h s = \<lparr>cr_daemon = d, cr_host = h, cr_lock = None, cr_reqs = (cr_reqs s)(i \<mapsto> pc)\<rparr>"

lemma at_pc_simps [simp]:
  "cr_daemon (at_pc i pc d h s) = d" "cr_host (at_pc i pc d h s) = h" "cr_lock (at_pc i pc d h s) = None"
  "cr_reqs (at_pc i pc d h s) = (cr_reqs s)(i \<mapsto> pc)" "at_pc i pc' d' h' (at_pc i pc d h s) = at_pc i pc' d' h' s"
  by (simp_all add: at_pc_def)

lemma run_valid:
  assumes "cr_reqs s i = None" "cr_lock s = None" "create_validate body = Inr req"
  shows "(create_step sv)\<^sup>*\<^sup>* s (at_pc i (Validated req) (cr_daemon s) (cr_host s) s)"
proof -
  let ?s1 = "at_pc i (Arrived body) (cr_daemon s) (cr_host s) s"
  have "create_step sv s ?s1"
    using arrive[OF assms(1), of sv body] assms(2) by (cases s) (simp add: at_pc_def)
  moreover have "create_step sv ?s1 (at_pc i (Validated req) (cr_daemon s) (cr_host s) s)"
    using valid[of ?s1 i body req sv] assms(3) by (simp add: at_pc_def)
  ultimately show ?thesis by (simp add: rtranclp.rtrancl_into_rtrancl)
qed

lemma run_check:
  assumes "cr_reqs s i = None" "cr_lock s = None" "create_validate body = Inr req"
    and "create_check (cr_daemon s) req = None"
  shows "(create_step sv)\<^sup>*\<^sup>* s (at_pc i (Checked req) (cr_daemon s) (cr_host s) s)"
proof -
  let ?d = "cr_daemon s" and ?h = "cr_host s"
  let ?s1 = "at_pc i (Validated req) ?d ?h s"
  let ?s2 = "(at_pc i (Checking req) ?d ?h s)\<lparr>cr_lock := Some i\<rparr>"
  have "create_step sv ?s1 ?s2" using lock_check[of ?s1 i req sv] by (simp add: at_pc_def)
  moreover have "create_step sv ?s2 (at_pc i (Checked req) ?d ?h s)"
    using no_conflict[of ?s2 i req sv] assms(4) by (simp add: at_pc_def)
  ultimately show ?thesis using run_valid[OF assms(1,2,3), of sv] by (meson rtranclp.rtrancl_into_rtrancl)
qed

lemma run_insert:
  assumes "cr_reqs s i = Some (Checked req)" "cr_lock s = None"
    and "state = new_state req (sv_nano sv (world (cr_host s)))" "d = create_insert state (cr_daemon s)"
  shows "(create_step sv)\<^sup>*\<^sup>* s (at_pc i (Replied (Inr req) (writeJSON 201 (VState state))) d (saveState sv d (cr_host s)) s)"
proof -
  let ?h = "cr_host s"
  let ?s1 = "at_pc i (Built req state) (cr_daemon s) ?h s"
  let ?s2 = "(at_pc i (Inserting req state) (cr_daemon s) ?h s)\<lparr>cr_lock := Some i\<rparr>"
  let ?s3 = "at_pc i (Saving req state) d ?h s"
  have "create_step sv s ?s1"
    using build[OF assms(1), of sv] assms(2,3) by (cases s) (simp add: at_pc_def)
  moreover have "create_step sv ?s1 ?s2" using lock_insert[of ?s1 i req state sv] by (simp add: at_pc_def)
  moreover have "create_step sv ?s2 ?s3" using create_step.insert[of ?s2 i req state sv] assms(4) by (simp add: at_pc_def)
  moreover have "create_step sv ?s3 (at_pc i (Replied (Inr req) (writeJSON 201 (VState state))) d (saveState sv d ?h) s)"
    using save[of ?s3 i req state sv] by (simp add: at_pc_def)
  ultimately show ?thesis by (meson rtranclp.rtrancl_into_rtrancl rtranclp.rtrancl_refl)
qed

lemma create_validate_Inr: "create_validate body = Inr req \<Longrightarrow> body = Inr req"
  by (auto simp: create_validate_def split: sum.splits if_splits)

text \<open>The handler by itself is a run of the steps.\<close>

lemma handleCreateRuntime_is_run:
  assumes "cr_reqs s i = None" "cr_lock s = None" "handleCreateRuntime sv body (cr_daemon s) (cr_host s) = (r, d', h')"
  shows "(create_step sv)\<^sup>*\<^sup>* s (at_pc i (Replied body r) d' h' s)"
proof (cases "create_validate body")
  case (Inl r0)
  let ?s1 = "at_pc i (Arrived body) (cr_daemon s) (cr_host s) s"
  have "create_step sv s ?s1"
    using arrive[OF assms(1), of sv body] assms(2) by (cases s) (simp add: at_pc_def)
  moreover have "create_step sv ?s1 (at_pc i (Replied body r0) (cr_daemon s) (cr_host s) s)"
    using invalid[of ?s1 i body r0 sv] Inl by (simp add: at_pc_def)
  ultimately show ?thesis
    using assms(3) Inl by (simp add: handleCreateRuntime_def rtranclp.rtrancl_into_rtrancl)
next
  case (Inr req)
  note b = create_validate_Inr[OF Inr]
  show ?thesis
  proof (cases "create_check (cr_daemon s) req")
    case None
    let ?s1 = "at_pc i (Checked req) (cr_daemon s) (cr_host s) s"
    from run_check[OF assms(1,2) Inr None, of sv] run_insert[of ?s1 i req _ sv, OF _ _ refl refl]
    show ?thesis using assms(3) Inr None b by (auto simp: handleCreateRuntime_def Let_def)
  next
    case (Some r0)
    let ?s1 = "at_pc i (Validated req) (cr_daemon s) (cr_host s) s"
    let ?s2 = "(at_pc i (Checking req) (cr_daemon s) (cr_host s) s)\<lparr>cr_lock := Some i\<rparr>"
    have "create_step sv ?s1 ?s2" using lock_check[of ?s1 i req sv] by (simp add: at_pc_def)
    moreover have "create_step sv ?s2 (at_pc i (Replied (Inr req) r0) (cr_daemon s) (cr_host s) s)"
      using conflict[of ?s2 i req r0 sv] Some by (simp add: at_pc_def)
    moreover have "r = r0" "d' = cr_daemon s" "h' = cr_host s"
      using assms(3) Inr Some by (simp_all add: handleCreateRuntime_def)
    ultimately show ?thesis
      using run_valid[OF assms(1,2) Inr, of sv] b by (meson rtranclp.rtrancl_into_rtrancl)
  qed
qed

section \<open>A settled name\<close>

text \<open>The request has passed the check for the name and has not yet inserted its entry.\<close>

definition in_gap :: "string \<Rightarrow> create_pc option \<Rightarrow> bool" where
  "in_gap n p = (case p of
      Some (Checked req) \<Rightarrow> cs_RuntimeName req = n
    | Some (Built req state) \<Rightarrow> cs_RuntimeName req = n
    | Some (Inserting req state) \<Rightarrow> cs_RuntimeName req = n
    | _ \<Rightarrow> False)"

text \<open>An entry carries the name of its request, and only valid requests get past the validation.\<close>

definition pc_ok :: "create_pc option \<Rightarrow> bool" where
  "pc_ok p = (case p of
      Some (Validated req) \<Rightarrow> cs_RuntimeName req \<noteq> [] \<and> cs_WorkspaceDir req \<noteq> []
    | Some (Checking req) \<Rightarrow> cs_RuntimeName req \<noteq> [] \<and> cs_WorkspaceDir req \<noteq> []
    | Some (Built req state) \<Rightarrow> ss_Name state = cs_RuntimeName req
    | Some (Inserting req state) \<Rightarrow> ss_Name state = cs_RuntimeName req
    | _ \<Rightarrow> True)"

lemmas pc_defs = in_gap_def pc_ok_def

lemma pcs_ok_step: "create_step sv s s' \<Longrightarrow> \<forall>i. pc_ok (cr_reqs s i) \<Longrightarrow> \<forall>i. pc_ok (cr_reqs s' i)"
proof (induction rule: create_step.induct)
  case (valid s i body req)
  then show ?case by (auto simp: pc_ok_def create_validate_def split: sum.splits if_splits)
next
  case (lock_check s i req)
  then have "pc_ok (Some (Validated req))" by metis
  with lock_check show ?case by (simp add: pc_ok_def)
next
  case (lock_insert s i req state)
  then have "pc_ok (Some (Built req state))" by metis
  with lock_insert show ?case by (simp add: pc_ok_def)
qed (auto simp: pc_ok_def new_state_def)

text \<open>What a late request for the name can have got: nothing yet, or a refusal.\<close>

definition refused :: "string \<Rightarrow> create_pc option \<Rightarrow> bool" where
  "refused n p = (case p of
      Some (Saving req state) \<Rightarrow> cs_RuntimeName req \<noteq> n
    | Some (Replied (Inr req) r) \<Rightarrow>
        cs_RuntimeName req = n \<longrightarrow> rp_Status r = (if cs_WorkspaceDir req = [] then 400 else 409)
    | _ \<Rightarrow> True)"

definition name_settled :: "string \<Rightarrow> SandboxState \<Rightarrow> nat set \<Rightarrow> ('c, 'k, 't, 'w) create_system \<Rightarrow> bool" where
  "name_settled n st late s \<longleftrightarrow>
     map_of (dn_sandboxes (cr_daemon s)) n = Some st \<and> (\<forall>i. pc_ok (cr_reqs s i) \<and> \<not> in_gap n (cr_reqs s i)) \<and>
     (\<forall>i \<in> late. refused n (cr_reqs s i))"

lemma name_settled_step:
  assumes "create_step sv s s'" "n \<noteq> []" "name_settled n st late s"
  shows "name_settled n st late s'"
proof -
  have ok: "\<forall>i. pc_ok (cr_reqs s' i)"
    using assms(1,3) pcs_ok_step[of sv s s'] by (simp add: name_settled_def)
  from assms(1,3) have "map_of (dn_sandboxes (cr_daemon s')) n = Some st \<and> (\<forall>i. \<not> in_gap n (cr_reqs s' i)) \<and>
      (\<forall>i \<in> late. refused n (cr_reqs s' i))"
  proof (induction rule: create_step.induct)
    case (invalid s i body r)
    have "refused n (Some (Replied body r))"
      using invalid(2) assms(2) by (auto simp: refused_def create_validate_def writeError_def writeJSON_def split: sum.splits if_splits)
    with invalid show ?case by (simp add: name_settled_def in_gap_def)
  next
    case (conflict s i req r)
    have "pc_ok (cr_reqs s i)" using conflict(4) by (simp add: name_settled_def)
    then have "refused n (Some (Replied (Inr req) r))"
      using conflict(1,3) by (auto simp: refused_def pc_ok_def create_check_def writeError_def writeJSON_def split: if_splits)
    with conflict show ?case by (simp add: name_settled_def in_gap_def)
  next
    case (no_conflict s i req)
    then have "cs_RuntimeName req \<noteq> n" by (auto simp: name_settled_def create_check_def)
    with no_conflict show ?case by (simp add: name_settled_def in_gap_def refused_def)
  next
    case (insert s i req state)
    have "\<not> in_gap n (cr_reqs s i)" "pc_ok (cr_reqs s i)" using insert(3) by (simp_all add: name_settled_def)
    then have "cs_RuntimeName req \<noteq> n" "ss_Name state \<noteq> n" using insert(1) by (simp_all add: pc_defs)
    with insert show ?case by (simp add: name_settled_def in_gap_def refused_def create_insert_def update_conv')
  next
    case (save s i req state)
    have "i \<in> late \<Longrightarrow> refused n (Some (Replied (Inr req) r))" for r
      using save by (auto simp: name_settled_def refused_def)
    with save show ?case by (simp add: name_settled_def in_gap_def)
  next
    case (build s i req)
    have "\<not> in_gap n (cr_reqs s i)" using build(2) by (simp add: name_settled_def)
    with build show ?case by (simp add: name_settled_def in_gap_def refused_def)
  next
    case (lock_insert s i req state)
    have "\<not> in_gap n (cr_reqs s i)" using lock_insert(3) by (simp add: name_settled_def)
    with lock_insert show ?case by (simp add: name_settled_def in_gap_def refused_def)
  qed (auto simp: name_settled_def in_gap_def refused_def)
  with ok show ?thesis by (simp add: name_settled_def)
qed

lemma name_settled_run:
  "(create_step sv)\<^sup>*\<^sup>* s s' \<Longrightarrow> n \<noteq> [] \<Longrightarrow> name_settled n st late s \<Longrightarrow> name_settled n st late s'"
  by (induction rule: rtranclp_induct) (auto intro: name_settled_step)

section \<open>Properties\<close>

text \<open>C38: A taken name stays taken. Take any moment of a run of concurrent create requests, started with
  no request under way, at which the table has an entry under a name and no request for it is
  between its check and its insertion. Then through every interleaving the entry stays as it is,
  and every request for that name that arrives later is refused: with 409, or with 400 if it
  names no workspace. The lock has at most one holder throughout.\<close>

theorem duplicate_create_refused:
  assumes "(create_step sv)\<^sup>*\<^sup>* \<lparr>cr_daemon = d, cr_host = h, cr_lock = None, cr_reqs = Map.empty\<rparr> s" "n \<noteq> []"
    and "map_of (dn_sandboxes (cr_daemon s)) n = Some st" "\<forall>i. \<not> in_gap n (cr_reqs s i)"
    and "(create_step sv)\<^sup>*\<^sup>* s s'"
  shows "map_of (dn_sandboxes (cr_daemon s')) n = Some st \<and>
    (\<forall>i req r. cr_reqs s i = None \<and> cr_reqs s' i = Some (Replied (Inr req) r) \<and> cs_RuntimeName req = n \<longrightarrow>
       rp_Status r = (if cs_WorkspaceDir req = [] then 400 else 409)) \<and>
    (\<forall>i j. holds_lock (cr_reqs s' i) \<and> holds_lock (cr_reqs s' j) \<longrightarrow> i = j)"
proof -
  let ?s0 = "\<lparr>cr_daemon = d, cr_host = h, cr_lock = None, cr_reqs = Map.empty\<rparr>"
  have "\<forall>i. pc_ok (cr_reqs s i)" using assms(1)
  proof (induction rule: rtranclp_induct)
    case base
    then show ?case by (simp add: pc_ok_def)
  next
    case (step y z)
    from pcs_ok_step[OF step.hyps(2) step.IH] show ?case .
  qed
  then have "name_settled n st {i. cr_reqs s i = None} s"
    using assms(3,4) by (simp add: name_settled_def refused_def)
  from name_settled_run[OF assms(5,2) this] have ns: "name_settled n st {i. cr_reqs s i = None} s'" .
  have "lock_inv ?s0" by (simp add: lock_inv_def holds_lock_def)
  from lock_inv_run[OF assms(5) lock_inv_run[OF assms(1) this]] have l: "lock_inv s'" .
  have "rp_Status r = (if cs_WorkspaceDir req = [] then 400 else 409)"
    if "cr_reqs s i = None" "cr_reqs s' i = Some (Replied (Inr req) r)" "cs_RuntimeName req = n" for i req r
  proof -
    have "refused n (cr_reqs s' i)" using ns that(1) by (simp add: name_settled_def)
    then show ?thesis using that(2,3) by (simp add: refused_def)
  qed
  moreover have "i = j" if "holds_lock (cr_reqs s' i)" "holds_lock (cr_reqs s' j)" for i j
    using lock_invD[OF l, of i] lock_invD[OF l, of j] that by simp
  ultimately show ?thesis using ns unfolding name_settled_def by blast
qed

definition small_request :: "string \<Rightarrow> string \<Rightarrow> CreateRuntimeRequest" where
  "small_request name ws =
     \<lparr>cs_RuntimeName = name, cs_AgentName = [], cs_WorkspaceDir = ws, cs_Image = [], cs_Secrets = []\<rparr>"

definition small_system :: "(string, string, string \<times> string, string \<Rightarrow> string option) create_system" where
  "small_system = \<lparr>cr_daemon = small_daemon, cr_host = empty_host, cr_lock = None, cr_reqs = Map.empty\<rparr>"

theorem duplicate_create_refused_witness:
  "\<exists>s' r. (create_step calm_services)\<^sup>*\<^sup>* small_system s' \<and>
     cr_reqs s' 0 = Some (Replied (Inr (small_request ''box'' ''/w'')) r) \<and> rp_Status r = 409 \<and>
     map_of (dn_sandboxes (cr_daemon s')) ''box'' = Some small_state"
proof -
  let ?q = "small_request ''box'' ''/w''"
  obtain r d' h' where c: "handleCreateRuntime calm_services (Inr ?q) (cr_daemon small_system) (cr_host small_system) = (r, d', h')"
    by (metis prod_cases3)
  let ?s' = "at_pc 0 (Replied (Inr ?q) r) d' h' small_system"
  have f: "cr_reqs small_system i = None" "cr_lock small_system = None"
    "map_of (dn_sandboxes (cr_daemon small_system)) ''box'' = Some small_state" for i
    by (simp_all add: small_system_def small_daemon_def)
  have run: "(create_step calm_services)\<^sup>*\<^sup>* small_system ?s'"
    by (rule handleCreateRuntime_is_run[OF f(1,2) c])
  have st: "(create_step calm_services)\<^sup>*\<^sup>*
      \<lparr>cr_daemon = small_daemon, cr_host = empty_host, cr_lock = None, cr_reqs = Map.empty\<rparr> small_system"
    by (simp add: small_system_def)
  have "\<forall>i. \<not> in_gap ''box'' (cr_reqs small_system i)" using f(1) by (simp add: in_gap_def)
  note d = duplicate_create_refused[OF st _ f(3) this run]
  have "rp_Status r = 409"
    using d[THEN conjunct2, THEN conjunct1, rule_format, of 0 ?q r] f(1)[of 0] by (simp add: small_request_def)
  moreover have "map_of (dn_sandboxes (cr_daemon ?s')) ''box'' = Some small_state"
    using d[THEN conjunct1] by simp
  ultimately show ?thesis using run by (intro exI[of _ ?s'] exI[of _ r]) simp
qed

text \<open>Creation is not atomic: from every daemon that has no sandbox of a name there is a run in which two
  requests for it are both answered with 201, each having passed the check before the other
  inserted, and the entry of the first is replaced by that of the second.\<close>

theorem concurrent_creates_both_succeed:
  assumes "create_validate (Inr q1) = Inr q1" "create_validate (Inr q2) = Inr q2"
    and "cs_RuntimeName q1 = cs_RuntimeName q2" "map_of (dn_sandboxes d) (cs_RuntimeName q1) = None"
  shows "\<exists>s r1 r2 t. (create_step sv)\<^sup>*\<^sup>* \<lparr>cr_daemon = d, cr_host = h, cr_lock = None, cr_reqs = Map.empty\<rparr> s \<and>
    cr_reqs s 1 = Some (Replied (Inr q1) r1) \<and> rp_Status r1 = 201 \<and>
    cr_reqs s 2 = Some (Replied (Inr q2) r2) \<and> rp_Status r2 = 201 \<and>
    map_of (dn_sandboxes (cr_daemon s)) (cs_RuntimeName q1) = Some (new_state q2 t)"
proof -
  define s0 where "s0 = \<lparr>cr_daemon = d, cr_host = h, cr_lock = None, cr_reqs = Map.empty\<rparr>"
  define s1 where "s1 = at_pc 1 (Checked q1) d h s0"
  define s2 where "s2 = at_pc 2 (Checked q2) d h s1"
  define e1 where "e1 = new_state q1 (sv_nano sv (world h))"
  define d1 where "d1 = create_insert e1 d"
  define h1 where "h1 = saveState sv d1 h"
  define s3 where "s3 = at_pc 1 (Replied (Inr q1) (writeJSON 201 (VState e1))) d1 h1 s2"
  define e2 where "e2 = new_state q2 (sv_nano sv (world h1))"
  define d2 where "d2 = create_insert e2 d1"
  define s4 where "s4 = at_pc 2 (Replied (Inr q2) (writeJSON 201 (VState e2))) d2 (saveState sv d2 h1) s3"
  have c: "create_check d q1 = None" "create_check d q2 = None"
    using assms(3,4) by (simp_all add: create_check_def)
  have "(create_step sv)\<^sup>*\<^sup>* s0 s1" using run_check[of s0 1 "Inr q1" q1 sv] assms(1) c by (simp add: s0_def s1_def)
  moreover have "(create_step sv)\<^sup>*\<^sup>* s1 s2"
    using run_check[of s1 2 "Inr q2" q2 sv] assms(2) c by (simp add: s0_def s1_def s2_def)
  moreover have "(create_step sv)\<^sup>*\<^sup>* s2 s3"
    using run_insert[of s2 1 q1 e1 sv d1] by (simp add: s1_def s2_def s3_def e1_def d1_def h1_def)
  moreover have "(create_step sv)\<^sup>*\<^sup>* s3 s4"
    using run_insert[of s3 2 q2 e2 sv d2] by (simp add: s2_def s3_def s4_def e2_def d2_def)
  ultimately have "(create_step sv)\<^sup>*\<^sup>* s0 s4" by (meson rtranclp_trans)
  moreover have "cr_reqs s4 1 = Some (Replied (Inr q1) (writeJSON 201 (VState e1)))"
    "cr_reqs s4 2 = Some (Replied (Inr q2) (writeJSON 201 (VState e2)))"
    by (simp_all add: s3_def s4_def)
  moreover have "map_of (dn_sandboxes (cr_daemon s4)) (cs_RuntimeName q1) = Some e2"
    using assms(3) by (simp add: s4_def d2_def e2_def create_insert_def new_state_def update_conv')
  ultimately show ?thesis unfolding s0_def e2_def by (intro exI conjI) (auto simp: writeJSON_def)
qed

end
