(* ===== verification/Launcher.thy ===== *)
theory Launcher
  imports Daemon
begin

text \<open>
  src/cmd/dandbox/main.go: the daemon's command. The parsed command line is a record, or the
  error of parsing it. \<open>run\<close> builds the configuration, makes and starts the daemon, waits for a
  signal and stops it; the returned error is what \<^verbatim>\<open>main\<close> prints before it exits with status 1.
\<close>

record cli =
  cl_socket :: string
  cl_dockerSocket :: string
  cl_stateDir :: string
  cl_policyDir :: string
  cl_caDir :: string
  cl_proxySidecarImage :: string

definition cli_config :: "'w os \<Rightarrow> string \<Rightarrow> cli \<Rightarrow> ('c, 'k, 't) DaemonConfig" where
  "cli_config osx home fl =
     \<lparr>dc_SocketPath = (if cl_socket fl = [] then Join [home, ''.config'', ''sbxsandbox'', ''sbxsandbox.sock''] else cl_socket fl),
      dc_PolicyDir = cl_policyDir fl, dc_CACertDir = cl_caDir fl, dc_DockerSocket = cl_dockerSocket fl,
      dc_StateDir = (if cl_stateDir fl = [] then Join [home, ''.local'', ''state'', ''sbxsandbox''] else cl_stateDir fl),
      dc_DefaultImage = [], dc_ProxySidecarImage = ''containifyci/proxy-sidecar:latest'',
      dc_ProxySidecarBin = Getenv osx ''PROXY_SIDECAR_BIN'', dc_CA = None\<rparr>"

text \<open>\<open>work\<close> is what the daemon does to its state and the host until the signal comes.\<close>

definition run ::
  "('c, 'k, 't, 'w) x509lib \<Rightarrow> 'w services \<Rightarrow>
   (('c, 'k, 't) Daemon \<times> 'w host \<Rightarrow> ('c, 'k, 't) Daemon \<times> 'w host) \<Rightarrow>
   goerror + cli \<Rightarrow> 'w \<Rightarrow> goerror option \<times> 'w host" where
  "run x sv work args w =
     (case args of
        Inl e \<Rightarrow> (Some e, ([], [], w))
      | Inr fl \<Rightarrow>
     (case UserHomeDir (sv_os sv) of
        Inl e \<Rightarrow> (Some (''cannot determine home directory: '' @ e), ([], [], w))
      | Inr home \<Rightarrow>
     (case NewDaemon x sv (cli_config (sv_os sv) home fl) w of
        (Inl e, w1) \<Rightarrow> (Some (''failed to initialize daemon: '' @ e), ([], [], w1))
      | (Inr d, w1) \<Rightarrow>
     (case Daemon_Start sv d ([], [], w1) of
        (Some e, d1, h1) \<Rightarrow> (Some (''failed to start daemon: '' @ e), h1)
      | (None, d1, h1) \<Rightarrow>
          (case work (d1, h1) of (d2, h2) \<Rightarrow> (None, snd (Daemon_Stop sv d2 h2)))))))"

section \<open>Lemmas\<close>

text \<open>The flag for the sidecar image has no effect: the configuration is the same whatever it is.\<close>

lemma sidecar_image_flag_ignored:
  "cli_config osx home (fl\<lparr>cl_proxySidecarImage := img\<rparr>) = cli_config osx home fl"
  by (simp add: cli_config_def)

lemma run_sidecar_image_flag_ignored:
  "run x sv work (Inr (fl\<lparr>cl_proxySidecarImage := img\<rparr>)) w = run x sv work (Inr fl) w"
  by (cases "UserHomeDir (sv_os sv)") (simp_all add: run_def sidecar_image_flag_ignored)

section \<open>Properties\<close>

text \<open>The command-line flag for the image of the proxy sidecar has no effect: whatever image is
  given, the run of the daemon (its result, its files and its requests) is the same.\<close>

theorem sidecar_image_flag_has_no_effect:
  "run x sv work (Inr (fl\<lparr>cl_proxySidecarImage := img\<rparr>)) w = run x sv work (Inr (fl\<lparr>cl_proxySidecarImage := img'\<rparr>)) w"
  by (simp add: run_sidecar_image_flag_ignored)

end
