(* ===== verification/Spec2Isabelle.thy ===== *)
theory Spec2Isabelle
  imports Sidecar Creations Launcher
begin

text \<open>
  A verification development for dandbox (src/), a daemon that runs coding agents in Docker
  containers and lets them reach the network only through a filtering proxy.

  \<^bold>\<open>The program.\<close> The daemon (src/internal/daemon, started by src/cmd/dandbox) offers an HTTP API over a
  Unix socket: sandboxes are created, started, stopped and deleted, policy rules and secrets are
  set. It drives Docker through a container manager (src/internal/container) and sends rules and
  secrets to proxy sidecars by running curl inside their containers. A sidecar
  (src/cmd/proxy-sidecar) holds a policy engine (src/internal/policy), a secret manager
  (src/internal/secrets), a certificate authority (src/internal/ca) and the proxy itself
  (src/internal/proxy), which accepts HTTP, CONNECT with TLS interception, SOCKS5 and redirected
  TCP on one port, asks the engine for every destination and replaces sentinels by secret values
  on the way out.

  \<^bold>\<open>The theories.\<close>
  \<^item> Prelude, GoFmt, GoOS, GoNet, GoIP, GoBase64, GoHttp: what the sources use of Go's standard
    library, as executable functions, with the generic lemmas (replacement in strings, the round
    trips of numbers, base64, addresses and host:port). The operating system is a record of functions over a world of
    any type.
  \<^item> Policy: Rule, Engine and every method of it. The decision is compared with two abstract
    specifications (the least rank among the applicable rules, with the code's and with the
    comment's notion of an exact match); the rule store is an interface
    (locale rule_store), interpreted for the engine here and for the daemon in DaemonFacts.
  \<^item> Secrets: replacement and redaction; both are instances of the locale scrubber.
  \<^item> ProxyState, Tunnel, ProxyHttp, Dispatch: the proxy. A handler is a function from the client's
    bytes, the parameter netenv (parser, TLS session, upstream, dialling) and the proxy's state to
    a list of events and the new state. The locale mediated_handler is the contract that nothing
    leaves the proxy without the policy's consent; it is interpreted for SOCKS5, redirected TCP,
    HTTP and the dispatcher. The counter of active connections is a step relation, and so is a
    tunnel: the steps of its two goroutines (tunnel_step), what the peers may do or leave undone
    (peer_step) and the clock (clock_step), so that every interleaving is covered.
  \<^item> Container, HostTools: the Docker client (every request it sends is recorded; the locale
    manager_op says what an operation may send), the search for the socket, running commands.
  \<^item> CA: loading or creating the authority, templates and names of certificates, the cache (locale
    lookup_store) and the handshakes that share it: the lookup, the generation and the store of
    each are steps of getCert_step. RSA, X.509 and PEM are the parameter x509lib.
  \<^item> Daemon, DaemonFacts: all handlers and routes, start and stop, persistence, propagation; then the
    invariants along every sequence of requests and what each operation does.
  \<^item> Creations: concurrent create requests, over create_step of Daemon, in which a request takes and
    releases the daemon's lock twice.
  \<^item> Sidecar, Launcher: the two commands.
  \<^item> This theory: properties that span components.

  \<^bold>\<open>What the properties show.\<close> Safety: complete mediation over all protocols and inputs, a closed
  start, scopes a client cannot choose, denied requests blocked and counted, what Docker is asked
  independent of secret values, deletion confined to one sandbox, commands that go to exactly the
  running sidecars with their payload intact, certificates that go to the host they were made for.
  Functional behaviour: the decision meets its specification, sessions of SOCKS5,
  redirected TCP and intercepted TLS, replacement of sentinels, names in certificates. Invariants
  and termination: rule ids, the table of sandboxes, names that stay taken, the connection limit,
  tunnels that copy in order, when they end and when they do not. Behaviour the code has although its comments or its purpose say otherwise is
  stated as it is: rules with mixed resources, presets, deletion of all rules, restarts, cached
  certificates, log frames, concurrent creation, the proxy variables of a sandbox.

  \<^bold>\<open>Parameters and bounds.\<close> Parameters stand for what is outside the program or is cryptography: the
  operating system, the Docker Engine, the network and its peers, TLS, JSON codecs, the command
  runner, the Unicode part of case folding. What a property needs of them is a hypothesis of it,
  and its witness gives an instance. No function uses fuel: loops over input recurse on it, the
  others have a measure. Go's int64 is an integer with the wrap-around written out; a machine is
  assumed to hold fewer than \<open>2^63 - 1\<close> connections. The peers of a tunnel are under no obligation to
  send, to finish or to read; the end of a tunnel is stated relative to what they do.

  \<^bold>\<open>Not modelled.\<close> Log output, the HTTP servers' own machinery and timeouts, the parsing of flags,
  the contents of TLS sessions below HTTP, the iptables rules once they are installed, and the data races the code has on
  unlocked maps; the CI description in src/.containifyci and the tests.
\<close>

section \<open>From the daemon's rules to the sidecar's traffic\<close>

text \<open>
  The sidecar's side of a propagation: the shell line decodes the base64 text and posts it; the
  sidecar decodes the JSON with \<open>dec\<close> and reloads.
\<close>

definition deliver ::
  "'w os \<Rightarrow> rules_json \<Rightarrow> (string \<Rightarrow> goerror + Rule list) \<Rightarrow> string \<Rightarrow> Proxy \<Rightarrow> 'w \<Rightarrow> Proxy" where
  "deliver osx jm dec b64 p w =
     (case b64_decode b64 of
        None \<Rightarrow> p
      | Some payload \<Rightarrow> fst (snd (policy_reload osx jm ''POST'' (dec payload) p w)))"

lemma deliver_rules:
  assumes "dec (rules_payload j) = Inr rules" "rules \<noteq> []"
  shows "e_rules (px_policy (deliver osx jm dec (b64_encode (rules_payload j)) p w)) = rules \<and>
    e_defaultMode (px_policy (deliver osx jm dec (b64_encode (rules_payload j)) p w)) = e_defaultMode (px_policy p)"
  using assms policy_reload_rules[OF assms(2), of osx jm p w] by (simp add: deliver_def)

lemma deliver_empty:
  assumes "dec (rules_payload j) = Inr []"
  shows "deliver osx jm dec (b64_encode (rules_payload j)) p w = p"
  using assms by (simp add: deliver_def policy_reload_empty)

section \<open>Properties\<close>

text \<open>C3: End to end. When the daemon's rules, not an empty list, have been propagated to a sidecar
  whose decoder reads them back and whose default mode is the daemon's, then everything the
  sidecar's proxy lets out, for any client bytes and in any network, is permitted by the policy
  of the daemon.\<close>

theorem propagated_policy_governs_traffic:
  assumes "sv_rules_json sv (e_rules (dn_policy d)) = Inr j" "dec (rules_payload j) = Inr (e_rules (dn_policy d))"
    and "e_rules (dn_policy d) \<noteq> []" "e_defaultMode (px_policy p) = e_defaultMode (dn_policy d)"
    and "p' = deliver osx jm dec (b64_encode (rules_payload j)) p w"
    and "e \<in> set (fst (dispatch uf env inp p'))" "outbound e = Some addr"
  shows "\<exists>host port. fst (Evaluate uf (dn_policy d) host port (dispatch_scope env inp p')) = DecisionAllow \<and>
    addr \<in> reach env host port"
proof -
  have "Evaluate uf (px_policy p') = Evaluate uf (dn_policy d)"
    using deliver_rules[of dec j, OF assms(2,3), of osx jm p w] assms(4,5) Evaluate_rules_mode[of "px_policy p'" "dn_policy d"]
    by (simp add: fun_eq_iff)
  moreover have "out_ok (permitted uf p' (dispatch_scope env inp p')) (reach env) addr"
    using dispatcher.handler_mediated[of "(uf, env, p', inp)"] assms(6,7) by (auto simp: mediated_def)
  ultimately show ?thesis by (auto simp: out_ok_def permitted_def)
qed

definition one_rule :: "Rule list" where
  "one_rule = [\<lparr>r_ID = ''rule-3'', r_Name = ''allow'', r_Decision = ''allow'', r_Resources = [''1.2.3.4:443''], r_Scope = []\<rparr>]"

definition ruled_daemon :: "(string, string, string \<times> string) Daemon" where
  "ruled_daemon = small_daemon\<lparr>dn_policy := sample_engine\<lparr>e_rules := one_rule\<rparr>\<rparr>"

definition fed_proxy :: Proxy where
  "fed_proxy = deliver mem_os (\<lambda>_. Inr []) (\<lambda>_. Inr one_rule) (b64_encode (rules_payload ''[]''))
     (NewProxy sample_engine NewSecretManager []) Map.empty"

lemma fed_proxy_eq:
  "fed_proxy = NewProxy (sample_engine\<lparr>e_rules := one_rule, e_nextID := int64 (max_id one_rule + 1)\<rparr>) NewSecretManager []"
  by (simp add: fed_proxy_def deliver_def policy_reload_def LoadRules_def one_rule_def NewProxy_def Let_def)

lemma ruled_proxy_dials:
  "EvDial ''1.2.3.4:443'' \<in> set (fst (dispatch (\<lambda>_ _. False) redirect_net ''x''
     (NewProxy (sample_engine\<lparr>e_rules := one_rule, e_nextID := n\<rparr>) NewSecretManager [])))"
  by code_simp

lemma fed_proxy_dials: "EvDial ''1.2.3.4:443'' \<in> set (fst (dispatch (\<lambda>_ _. False) redirect_net ''x'' fed_proxy))"
  unfolding fed_proxy_eq by (rule ruled_proxy_dials)

theorem propagated_policy_governs_traffic_witness:
  "\<exists>host port. fst (Evaluate (\<lambda>_ _. False) (dn_policy ruled_daemon) host port
      (dispatch_scope redirect_net ''x'' fed_proxy)) = DecisionAllow \<and> ''1.2.3.4:443'' \<in> reach redirect_net host port"
proof (rule propagated_policy_governs_traffic[where sv = calm_services and j = "''[]''" and dec = "\<lambda>_. Inr one_rule"
      and p = "NewProxy sample_engine NewSecretManager []" and osx = mem_os and jm = "\<lambda>_. Inr []" and w = Map.empty])
  show "EvDial ''1.2.3.4:443'' \<in> set (fst (dispatch (\<lambda>_ _. False) redirect_net ''x'' fed_proxy))" by (rule fed_proxy_dials)
qed (simp_all add: calm_services_def ruled_daemon_def one_rule_def NewProxy_def fed_proxy_def)

text \<open>C34: Deleting all rules does not reach the sidecars. The daemon ends up without rules and sends the
  empty list, but a sidecar that receives it keeps the rules it had, so that whatever it allowed
  before it still allows.\<close>

theorem deleted_rules_stay_in_sidecars:
  assumes "handleDeletePolicyRules sv d h = (r, d', h')" "sv_rules_json sv [] = Inr j" "dec (rules_payload j) = Inr []"
  shows "e_rules (dn_policy d') = [] \<and> h' = propagateToSidecars sv d' (rules_payload j) ''/policy/reload''
      (snd (foldl (\<lambda>s rule. snd (policy_remove sv (r_ID rule) s)) (d, h) (e_rules (dn_policy d)))) \<and>
    deliver osx jm dec (b64_encode (rules_payload j)) p w = p"
proof -
  note e = handleDeletePolicyRules_rules[OF assms(1)]
  then show ?thesis
    using assms deliver_empty[of dec j, OF assms(3)]
    by (auto simp: handleDeletePolicyRules_def propagatePolicyToSidecars_def ListRules_def split: prod.splits)
qed

theorem deleted_rules_stay_in_sidecars_witness:
  "\<exists>r d' h'. handleDeletePolicyRules calm_services small_daemon empty_host = (r, d', h') \<and> e_rules (dn_policy d') = [] \<and>
     deliver mem_os (\<lambda>_. Inr []) (\<lambda>_. Inr []) (b64_encode (rules_payload ''[]'')) fed_proxy Map.empty = fed_proxy"
proof -
  obtain r d' h' where e: "handleDeletePolicyRules calm_services small_daemon empty_host = (r, d', h')"
    by (metis prod_cases3)
  have "sv_rules_json calm_services [] = Inr ''[]''" by (simp add: calm_services_def)
  from deleted_rules_stay_in_sidecars[OF e this, of "\<lambda>_. Inr []" mem_os "\<lambda>_. Inr []" fed_proxy Map.empty] e
  show ?thesis by blast
qed

definition last_entry :: "string \<Rightarrow> string list \<Rightarrow> string option" where
  "last_entry var env = (case rev (filter (\<lambda>e. prefix (var @ ''='') e) env) of [] \<Rightarrow> None | e # _ \<Rightarrow> Some e)"

lemma last_entry_append:
  "last_entry var ys \<noteq> None \<Longrightarrow> last_entry var (xs @ ys) = last_entry var ys"
  by (auto simp: last_entry_def split: list.splits)

text \<open>The proxy address of the sidecar is overridden in the sandbox: the environment of a sandbox
  has the sidecar's address for each of the four proxy variables, but in the list Docker is given
  the fixed address of the host, another one, comes later, and of several entries for a variable
  the last counts.\<close>

theorem sidecar_address_overridden:
  assumes "cc_ProxyPort cfg = ''3128''"
    and "var \<in> {''HTTP_PROXY'', ''HTTPS_PROXY'', ''http_proxy'', ''https_proxy''}"
  shows "var @ ''=http://'' @ cc_Name cfg @ ''-proxy:3128'' \<in> set (sandbox_env cfg) \<and>
    (\<exists>env. (''Env'', JList (map JStr env)) \<in>
         (case create_body m img args (sandbox_env cfg) caContent of JObj kvs \<Rightarrow> set kvs | _ \<Rightarrow> {}) \<and>
       set (sandbox_env cfg) \<subseteq> set env \<and> last_entry var env = Some (var @ ''=http://host.docker.internal:3128'') \<and>
       cc_Name cfg @ ''-proxy:3128'' \<noteq> ''host.docker.internal:3128'')"
proof
  show "var @ ''=http://'' @ cc_Name cfg @ ''-proxy:3128'' \<in> set (sandbox_env cfg)"
    using assms by (auto simp: sandbox_env_def Let_def)
  have "last_entry ''HTTP_PROXY'' proxy_env = Some ''HTTP_PROXY=http://host.docker.internal:3128''"
    "last_entry ''HTTPS_PROXY'' proxy_env = Some ''HTTPS_PROXY=http://host.docker.internal:3128''"
    "last_entry ''http_proxy'' proxy_env = Some ''http_proxy=http://host.docker.internal:3128''"
    "last_entry ''https_proxy'' proxy_env = Some ''https_proxy=http://host.docker.internal:3128''"
    by (simp_all add: last_entry_def proxy_env_def)
  then have "last_entry var (sandbox_env cfg @ proxy_env) = Some (var @ ''=http://host.docker.internal:3128'')"
    using assms(2) by (auto simp: last_entry_append)
  moreover have "(''Env'', JList (map JStr (sandbox_env cfg @ proxy_env))) \<in>
      (case create_body m img args (sandbox_env cfg) caContent of JObj kvs \<Rightarrow> set kvs | _ \<Rightarrow> {})"
    by (simp add: create_body_def)
  moreover have "cc_Name cfg @ ''-proxy:3128'' \<noteq> ''host.docker.internal:3128''"
  proof -
    have "rev (cc_Name cfg @ ''-proxy:3128'') \<noteq> rev ''host.docker.internal:3128''" by simp
    then show ?thesis by metis
  qed
  ultimately show "\<exists>env. (''Env'', JList (map JStr env)) \<in>
         (case create_body m img args (sandbox_env cfg) caContent of JObj kvs \<Rightarrow> set kvs | _ \<Rightarrow> {}) \<and>
       set (sandbox_env cfg) \<subseteq> set env \<and> last_entry var env = Some (var @ ''=http://host.docker.internal:3128'') \<and>
       cc_Name cfg @ ''-proxy:3128'' \<noteq> ''host.docker.internal:3128''"
    by (intro exI[of _ "sandbox_env cfg @ proxy_env"]) auto
qed

end
